(* ===== verification/Prelude.thy ===== *)
theory Prelude
  imports Main "HOL-Library.Sublist" "HOL-Library.Char_ord" "HOL-Library.List_Lexorder"
begin

text \<open>
  Shared vocabulary of the development: the error values the Go packages return, keyed
  tables (lists of rows with a key column), and the parts of Go's \<open>strings\<close>, \<open>strconv\<close>
  and \<open>time\<close> packages the source uses.

  A Go \<open>string\<close> and a Go \<open>[]byte\<close> are both sequences of bytes, and a HOL \<open>char\<close> is one
  byte, so both are \<open>char list\<close>; \<open>length\<close> is Go's \<open>len\<close>.  The order on strings is the
  byte-wise lexicographic one (Go's \<open><\<close> on strings and SQLite's BINARY collation).
\<close>

named_theorems go_simps "equations of the Go library functions"
named_theorems preserves "operations that keep an invariant"

type_synonym bytes = "char list"

section \<open>Errors\<close>

text \<open>
  The sentinel errors of the packages, \<open>share.CleanupError\<close>, errors made by
  \<open>fmt.Errorf\<close> with a wrapped cause, and plain errors with a message.
\<close>

datatype err =
    ErrNotFound
  | ErrExpired
  | ErrUnauthorized
  | ErrInvalidText
  | ErrInvalidEncryptedText
  | ErrPayloadMismatch
  | ErrExpiration
  | ErrRetention
  | ErrEmptyPatch
  | ErrTooLarge
  | ErrEmpty
  | ErrRateLimited
  | ErrNoSession
  | ErrChallengeInvalid
  | ErrChallengeUnavailable
  | ErrCiphertextTooLarge
  | ErrBodyTooLarge
  | ErrExist
  | ErrNotExist
  | CleanupError string err
  | Wrapped string err
  | Joined err err
  | Message string

text \<open>\<open>errors.Is\<close>: the error or one it wraps is the sentinel.\<close>

fun errors_is :: "err \<Rightarrow> err \<Rightarrow> bool" where
  "errors_is (Wrapped m e) target = errors_is e target"
| "errors_is (CleanupError k e) target = errors_is e target"
| "errors_is (Joined a b) target = (errors_is a target \<or> errors_is b target)"
| "errors_is e target = (e = target)"

text \<open>\<open>errors.As\<close> with a \<open>*share.CleanupError\<close> target.\<close>

fun errors_as_cleanup :: "err \<Rightarrow> (string \<times> err) option" where
  "errors_as_cleanup (CleanupError k e) = Some (k, e)"
| "errors_as_cleanup (Wrapped m e) = errors_as_cleanup e"
| "errors_as_cleanup (Joined a b) =
     (case errors_as_cleanup a of Some c \<Rightarrow> Some c | None \<Rightarrow> errors_as_cleanup b)"
| "errors_as_cleanup e = None"

section \<open>Keyed tables\<close>

text \<open>A table is the list of its rows; \<open>key\<close> reads the primary key column.\<close>

definition row_of :: "('r \<Rightarrow> 'k) \<Rightarrow> 'k \<Rightarrow> 'r list \<Rightarrow> 'r option" where
  "row_of key k rows = find (\<lambda>r. key r = k) rows"

definition keys_of :: "('r \<Rightarrow> 'k) \<Rightarrow> 'r list \<Rightarrow> 'k set" where
  "keys_of key rows = key ` set rows"

definition delete_rows :: "('r \<Rightarrow> 'k) \<Rightarrow> 'k \<Rightarrow> 'r list \<Rightarrow> 'r list" where
  "delete_rows key k rows = filter (\<lambda>r. key r \<noteq> k) rows"

definition update_rows :: "('r \<Rightarrow> 'k) \<Rightarrow> 'k \<Rightarrow> ('r \<Rightarrow> 'r) \<Rightarrow> 'r list \<Rightarrow> 'r list" where
  "update_rows key k f rows = map (\<lambda>r. if key r = k then f r else r) rows"

definition count_rows :: "('r \<Rightarrow> 'k) \<Rightarrow> 'k \<Rightarrow> 'r list \<Rightarrow> nat" where
  "count_rows key k rows = length (filter (\<lambda>r. key r = k) rows)"

lemma row_of_None_iff: "row_of key k rows = None \<longleftrightarrow> k \<notin> keys_of key rows"
  by (auto simp: row_of_def keys_of_def find_None_iff)

lemma row_of_SomeD: "row_of key k rows = Some r \<Longrightarrow> r \<in> set rows \<and> key r = k"
  by (auto simp: row_of_def find_Some_iff)

lemma row_of_distinct:
  "distinct (map key rows) \<Longrightarrow> row_of key k rows = Some r \<longleftrightarrow> r \<in> set rows \<and> key r = k"
  unfolding row_of_def by (induction rows) force+

lemma row_of_Nil [simp]: "row_of key k [] = None"
  by (simp add: row_of_def)

lemma row_of_Cons: "row_of key k (r # rows) = (if key r = k then Some r else row_of key k rows)"
  by (simp add: row_of_def)

lemma row_of_append:
  "row_of key k (xs @ ys) = (case row_of key k xs of None \<Rightarrow> row_of key k ys | Some r \<Rightarrow> Some r)"
  by (induction xs) (auto simp: row_of_Cons)

lemma row_of_delete:
  "row_of key k (delete_rows key k' rows) = (if k = k' then None else row_of key k rows)"
  unfolding delete_rows_def row_of_def by (induction rows) auto

lemma row_of_update:
  assumes "\<And>r. key (f r) = key r"
  shows "row_of key k (update_rows key k' f rows) =
    (if k = k' then map_option f (row_of key k rows) else row_of key k rows)"
  unfolding update_rows_def row_of_def by (induction rows) (auto simp: assms)

lemma keys_of_simps [simp]:
  "keys_of key [] = {}"
  "keys_of key (r # rows) = insert (key r) (keys_of key rows)"
  "keys_of key (xs @ ys) = keys_of key xs \<union> keys_of key ys"
  by (auto simp: keys_of_def)

lemma keys_of_delete [simp]: "keys_of key (delete_rows key k rows) = keys_of key rows - {k}"
  by (auto simp: keys_of_def delete_rows_def)

lemma map_key_update:
  "(\<And>r. key (f r) = key r) \<Longrightarrow> map key (update_rows key k f rows) = map key rows"
  by (simp add: update_rows_def)

lemma keys_of_update:
  "(\<And>r. key (f r) = key r) \<Longrightarrow> keys_of key (update_rows key k f rows) = keys_of key rows"
  by (simp add: keys_of_def map_key_update flip: set_map)

lemma in_keys_of: "k \<in> keys_of key rows \<longleftrightarrow> (\<exists>r\<in>set rows. key r = k)"
  by (auto simp: keys_of_def)

lemma row_of_Some_key: "row_of key k rows = Some r \<Longrightarrow> k \<in> keys_of key rows"
  by (auto simp: in_keys_of dest: row_of_SomeD)

lemma row_of_in_keys: "k \<in> keys_of key rows \<Longrightarrow> \<exists>r. row_of key k rows = Some r"
  by (metis option.exhaust row_of_None_iff)

lemma set_delete_rows [simp]: "set (delete_rows key k rows) = {r \<in> set rows. key r \<noteq> k}"
  by (auto simp: delete_rows_def)

lemma distinct_delete_rows:
  "distinct (map key rows) \<Longrightarrow> distinct (map key (delete_rows key k rows))"
  unfolding delete_rows_def by (induction rows) auto

lemma distinct_delete_rows_other:
  "distinct (map g rows) \<Longrightarrow> distinct (map g (delete_rows key k rows))"
  unfolding delete_rows_def by (induction rows) auto

lemma count_rows_distinct:
  "distinct (map key rows) \<Longrightarrow> count_rows key k rows = (if k \<in> keys_of key rows then 1 else 0)"
  unfolding count_rows_def
  by (induction rows) (auto simp: filter_empty_conv keys_of_def image_iff)

lemma count_rows_0: "count_rows key k rows = 0 \<Longrightarrow> row_of key k rows = None"
  by (auto simp: count_rows_def row_of_None_iff keys_of_def filter_empty_conv)

lemma row_of_filter_None: "row_of key k rows = None \<Longrightarrow> row_of key k (filter P rows) = None"
  by (auto simp: row_of_None_iff keys_of_def)

lemma row_of_filter_Some: "row_of key k rows = Some r \<Longrightarrow> P r \<Longrightarrow> row_of key k (filter P rows) = Some r"
  by (induction rows) (auto simp: row_of_Cons split: if_splits)

lemma row_of_filter_Some_iff:
  "distinct (map key rows) \<Longrightarrow> row_of key k (filter P rows) = Some r \<longleftrightarrow> row_of key k rows = Some r \<and> P r"
  by (simp add: row_of_distinct distinct_map_filter) blast

lemma length_filter_bound: "length rows \<le> n \<Longrightarrow> length (filter P rows) \<le> n"
  by (meson length_filter_le le_trans)

lemma length_delete_bound: "length rows \<le> n \<Longrightarrow> length (delete_rows key k rows) \<le> n"
  by (simp add: delete_rows_def length_filter_bound)

lemma delete_rows_idle: "k \<notin> keys_of key rows \<Longrightarrow> delete_rows key k rows = rows"
  by (auto simp: delete_rows_def keys_of_def filter_id_conv)

section \<open>Package strings\<close>

definition has_prefix :: "string \<Rightarrow> string \<Rightarrow> bool" where
  "has_prefix s p \<longleftrightarrow> take (length p) s = p"

definition trim_prefix :: "string \<Rightarrow> string \<Rightarrow> string" where
  "trim_prefix s p = (if has_prefix s p then drop (length p) s else s)"

definition trim_suffix :: "string \<Rightarrow> string \<Rightarrow> string" where
  "trim_suffix s p = (if suffix p s then take (length s - length p) s else s)"

fun split_on :: "char \<Rightarrow> string \<Rightarrow> string list" where
  "split_on c [] = [[]]"
| "split_on c (x # xs) =
     (if x = c then [] # split_on c xs
      else (case split_on c xs of [] \<Rightarrow> [[x]] | y # ys \<Rightarrow> (x # y) # ys))"

text \<open>\<open>strings.SplitN(s, sep, 2)\<close> for a one-byte separator.\<close>

fun split_first :: "char \<Rightarrow> string \<Rightarrow> string list" where
  "split_first c [] = [[]]"
| "split_first c (x # xs) =
     (if x = c then [[], xs]
      else (case split_first c xs of [] \<Rightarrow> [[x]] | y # ys \<Rightarrow> (x # y) # ys))"

text \<open>
  The runes of \<open>unicode.IsSpace\<close>, each as its UTF-8 bytes.  No sequence is a prefix of
  another, and none starts inside another rune, so stripping them byte-wise is what
  \<open>strings.TrimSpace\<close> and \<open>strings.Fields\<close> do.
\<close>

definition spaces :: "string list" where
  "spaces = map (map char_of)
     ([[9], [10], [11], [12], [13], [32], [194, 133], [194, 160], [225, 154, 128],
       [226, 128, 128], [226, 128, 129], [226, 128, 130], [226, 128, 131], [226, 128, 132],
       [226, 128, 133], [226, 128, 134], [226, 128, 135], [226, 128, 136], [226, 128, 137],
       [226, 128, 138], [226, 128, 168], [226, 128, 169], [226, 128, 175], [226, 129, 159],
       [227, 128, 128]] :: nat list list)"

definition lead_len :: "string list \<Rightarrow> string \<Rightarrow> nat" where
  "lead_len ps s = (case find (has_prefix s) ps of None \<Rightarrow> 0 | Some p \<Rightarrow> length p)"

function trim_lead :: "string list \<Rightarrow> string \<Rightarrow> string" where
  "trim_lead ps s =
     (if s \<noteq> [] \<and> lead_len ps s > 0 then trim_lead ps (drop (lead_len ps s) s) else s)"
  by pat_completeness auto
termination
  by (relation "measure (\<lambda>(ps, s). length s)") auto

declare trim_lead.simps [simp del]

definition trim_space :: "string \<Rightarrow> string" where
  "trim_space s = rev (trim_lead (map rev spaces) (rev (trim_lead spaces s)))"

text \<open>\<open>strings.Fields\<close>: the maximal runs of non-space bytes.\<close>

function fields_from :: "string \<Rightarrow> string \<Rightarrow> string list" where
  "fields_from cur [] = (if cur = [] then [] else [cur])"
| "fields_from cur (x # xs) =
     (if lead_len spaces (x # xs) > 0
      then (if cur = [] then [] else [cur]) @ fields_from [] (drop (lead_len spaces (x # xs)) (x # xs))
      else fields_from (cur @ [x]) xs)"
  by pat_completeness auto
termination
  by (relation "measure (\<lambda>(cur, s). length s)") auto

declare fields_from.simps(2) [simp del]

definition fields :: "string \<Rightarrow> string list" where
  "fields s = fields_from [] s"

text \<open>
  Case folding.  Both functions are exact as far as equality with an ASCII word is
  concerned, the only way the source uses them on request data: besides the ASCII letters,
  LATIN SMALL LETTER LONG S (C5 BF) folds to \<open>s\<close>, KELVIN SIGN (E2 84 AA) to \<open>k\<close>, and
  \<open>ToLower\<close> also maps LATIN CAPITAL LETTER I WITH DOT ABOVE (C4 B0) to \<open>i\<close>.
\<close>

definition lower_ascii :: "char \<Rightarrow> char" where
  "lower_ascii c =
     (if 65 \<le> (of_char c :: nat) \<and> (of_char c :: nat) \<le> 90 then char_of ((of_char c :: nat) + 32) else c)"

fun fold_case :: "string \<Rightarrow> string" where
  "fold_case (a # b # c # s) =
     (if a = CHR 0xC5 \<and> b = CHR 0xBF then CHR ''s'' # fold_case (c # s)
      else if a = CHR 0xE2 \<and> b = CHR 0x84 \<and> c = CHR 0xAA then CHR ''k'' # fold_case s
      else lower_ascii a # fold_case (b # c # s))"
| "fold_case [a, b] =
     (if a = CHR 0xC5 \<and> b = CHR 0xBF then [CHR ''s''] else [lower_ascii a, lower_ascii b])"
| "fold_case [a] = [lower_ascii a]"
| "fold_case [] = []"

definition equal_fold :: "string \<Rightarrow> string \<Rightarrow> bool" where
  "equal_fold s t \<longleftrightarrow> fold_case s = fold_case t"

fun to_lower :: "string \<Rightarrow> string" where
  "to_lower (a # b # c # s) =
     (if a = CHR 0xC4 \<and> b = CHR 0xB0 then CHR ''i'' # to_lower (c # s)
      else if a = CHR 0xE2 \<and> b = CHR 0x84 \<and> c = CHR 0xAA then CHR ''k'' # to_lower s
      else lower_ascii a # to_lower (b # c # s))"
| "to_lower [a, b] =
     (if a = CHR 0xC4 \<and> b = CHR 0xB0 then [CHR ''i''] else [lower_ascii a, lower_ascii b])"
| "to_lower [a] = [lower_ascii a]"
| "to_lower [] = []"

lemma has_prefix_append [simp]: "has_prefix (p @ s) p"
  by (simp add: has_prefix_def)

lemma has_prefix_iff: "has_prefix s p \<longleftrightarrow> (\<exists>t. s = p @ t)"
  by (metis append_eq_conv_conj append_take_drop_id has_prefix_def)

lemma trim_prefix_append [simp]: "trim_prefix (p @ s) p = s"
  by (simp add: trim_prefix_def)

lemma split_on_nonempty [simp]: "split_on c s \<noteq> []"
  by (induction s) (auto split: list.splits)

lemma split_on_append: "split_on c (a @ c # b) = split_on c a @ split_on c b"
  by (induction a) (auto split: list.split)

lemma split_on_no_sep: "p \<in> set (split_on c s) \<Longrightarrow> c \<notin> set p"
proof (induction s arbitrary: p)
  case (Cons x s)
  then show ?case by (cases "split_on c s") (auto split: if_splits)
qed simp

lemma split_first_no_sep: "c \<notin> set a \<Longrightarrow> split_first c (a @ c # b) = [a, b]"
  by (induction a) auto

lemma lead_len_le: "s \<noteq> [] \<Longrightarrow> lead_len ps s \<le> length s"
  by (auto simp: lead_len_def has_prefix_def find_Some_iff split: option.splits)
     (metis nat_le_linear take_all_iff)

section \<open>Package strconv\<close>

text \<open>Decimal digits of a number, most significant first (\<open>strconv.FormatInt\<close>).\<close>

fun format_nat :: "nat \<Rightarrow> string" where
  "format_nat n = (if n < 10 then [char_of (48 + n)] else format_nat (n div 10) @ [char_of (48 + n mod 10)])"

declare format_nat.simps [simp del]

definition format_int :: "int \<Rightarrow> string" where
  "format_int i = (if i < 0 then CHR ''-'' # format_nat (nat (- i)) else format_nat (nat i))"

definition is_digit :: "char \<Rightarrow> bool" where
  "is_digit c \<longleftrightarrow> 48 \<le> (of_char c :: nat) \<and> (of_char c :: nat) \<le> 57"

definition digits_value :: "string \<Rightarrow> nat" where
  "digits_value s = foldl (\<lambda>n c. n * 10 + (of_char c - 48)) 0 s"

text \<open>\<open>strconv.ParseInt(s, 10, 64)\<close>: an optional sign, one or more digits, in range.\<close>

definition parse_uint :: "string \<Rightarrow> nat option" where
  "parse_uint s = (if s \<noteq> [] \<and> list_all is_digit s then Some (digits_value s) else None)"

definition parse_int64 :: "string \<Rightarrow> int option" where
  "parse_int64 s =
     (let (neg, body) =
        (case s of [] \<Rightarrow> (False, [])
         | c # r \<Rightarrow> if c = CHR ''-'' then (True, r) else if c = CHR ''+'' then (False, r) else (False, s))
      in case parse_uint body of
           None \<Rightarrow> None
         | Some n \<Rightarrow>
             (let i = (if neg then - int n else int n)
              in if - (2 ^ 63) \<le> i \<and> i < 2 ^ 63 then Some i else None))"

lemma of_char_48 [simp]: "n < 10 \<Longrightarrow> of_char (char_of (48 + n) :: char) = (48 + n :: nat)"
  by simp

lemma format_nat_digits: "list_all is_digit (format_nat n) \<and> format_nat n \<noteq> []"
proof (induction n rule: format_nat.induct)
  case (1 n)
  have "is_digit (char_of (48 + m))" if "m < (10::nat)" for m
    using that by (simp add: is_digit_def)
  with 1 show ?case by (subst (1 2) format_nat.simps) auto
qed

lemma digits_value_snoc: "digits_value (s @ [c]) = digits_value s * 10 + (of_char c - 48)"
  by (simp add: digits_value_def)

lemma digits_value_format: "digits_value (format_nat n) = n"
proof (induction n rule: format_nat.induct)
  case (1 n)
  show ?case
  proof (cases "n < 10")
    case True
    then show ?thesis by (subst format_nat.simps) (simp add: digits_value_def)
  next
    case False
    with 1 show ?thesis by (subst format_nat.simps) (simp add: digits_value_snoc)
  qed
qed

lemma parse_format_nat: "parse_uint (format_nat n) = Some n"
  using format_nat_digits [of n] by (simp add: parse_uint_def digits_value_format)

lemma format_nat_head: "\<exists>c r. format_nat n = c # r \<and> is_digit c"
  using format_nat_digits [of n] by (cases "format_nat n") auto

lemma parse_format_int:
  assumes "- (2 ^ 63) \<le> i" "i < 2 ^ 63"
  shows "parse_int64 (format_int i) = Some i"
proof (cases "i < 0")
  case True
  with assms show ?thesis by (simp add: parse_int64_def format_int_def parse_format_nat Let_def)
next
  case False
  obtain c r where cr: "format_nat (nat i) = c # r" "is_digit c"
    using format_nat_head by blast
  then have "c \<noteq> CHR ''-''" "c \<noteq> CHR ''+''" by (auto simp: is_digit_def)
  moreover have "parse_uint (c # r) = Some (nat i)"
    using parse_format_nat [of "nat i"] cr by simp
  ultimately show ?thesis
    using False assms cr by (simp add: parse_int64_def format_int_def Let_def)
qed

lemma digit_not_bar: "is_digit c \<Longrightarrow> c \<noteq> CHR ''|''"
  by (auto simp: is_digit_def)

lemma format_int_no_bar: "CHR ''|'' \<notin> set (format_int i)"
proof -
  have "CHR ''|'' \<notin> set (format_nat n)" for n
    using format_nat_digits [of n] by (auto simp: list_all_iff is_digit_def)
  then show ?thesis by (auto simp: format_int_def)
qed

section \<open>Package time\<close>

text \<open>
  A \<open>time.Time\<close> is its instant in nanoseconds since the Unix epoch, a \<open>time.Duration\<close> a
  number of nanoseconds.  The zero \<open>time.Time\<close> is the first of January of the year 1.
  \<open>Time.Sub\<close> saturates at the 64-bit duration bounds.
\<close>

type_synonym time = int
type_synonym duration = int

definition zero_time :: time where
  "zero_time = - 62135596800 * 1000000000"

definition second :: duration where "second = 1000000000"

definition minute :: duration where "minute = 60 * second"

definition hour :: duration where "hour = 60 * minute"

definition truncate_ms :: "time \<Rightarrow> time" where
  "truncate_ms t = t - t mod 1000000"

definition unix_milli :: "time \<Rightarrow> int" where
  "unix_milli t = t div 1000000"

definition from_milli :: "int \<Rightarrow> time" where
  "from_milli m = m * 1000000"

definition time_sub :: "time \<Rightarrow> time \<Rightarrow> duration" where
  "time_sub t u = max (- (2 ^ 63)) (min (2 ^ 63 - 1) (t - u))"

lemma unix_milli_from_milli [simp]: "unix_milli (from_milli m) = m"
  by (simp add: unix_milli_def from_milli_def)

lemma from_milli_unix_milli: "from_milli (unix_milli t) = truncate_ms t"
  by (simp add: unix_milli_def from_milli_def truncate_ms_def minus_mod_eq_div_mult)

lemma truncate_ms_idem [simp]: "truncate_ms (truncate_ms t) = truncate_ms t"
  by (simp add: truncate_ms_def mod_diff_eq [symmetric])

lemma truncate_ms_le [simp]: "truncate_ms t \<le> t"
  by (simp add: truncate_ms_def)

lemma truncate_ms_from_milli [simp]: "truncate_ms (from_milli m) = from_milli m"
  by (simp add: truncate_ms_def from_milli_def)

lemma from_milli_le_iff [simp]: "from_milli a \<le> from_milli b \<longleftrightarrow> a \<le> b"
  by (simp add: from_milli_def)

lemma from_milli_less_iff [simp]: "from_milli a < from_milli b \<longleftrightarrow> a < b"
  by (simp add: from_milli_def)

lemma truncate_ms_milli_le: "truncate_ms t \<le> from_milli m \<longleftrightarrow> unix_milli t \<le> m"
  by (metis from_milli_le_iff from_milli_unix_milli)

end
