(* ===== verification/Domain.thy ===== *)
theory Domain
  imports Prelude
begin

text \<open>
  Package \<open>internal/domain\<close>: the closed vocabularies of a Share (payload kind, privacy mode,
  text format) with their parsers, the supported combinations, and expiration.  A Go value
  of one of these string types is the constructor its parser returns; \<open>*_string\<close> gives
  the text stored in SQLite and sent on the wire.
\<close>

datatype payload_kind = PayloadText | PayloadFile

datatype privacy_mode = PrivacyStandard | PrivacyEncrypted

datatype text_format = TextPlain | TextSource | TextMarkdown

fun kind_string :: "payload_kind \<Rightarrow> string" where
  "kind_string PayloadText = ''TEXT''"
| "kind_string PayloadFile = ''FILE''"

fun privacy_string :: "privacy_mode \<Rightarrow> string" where
  "privacy_string PrivacyStandard = ''STANDARD''"
| "privacy_string PrivacyEncrypted = ''ENCRYPTED''"

fun format_string :: "text_format \<Rightarrow> string" where
  "format_string TextPlain = ''PLAIN''"
| "format_string TextSource = ''SOURCE''"
| "format_string TextMarkdown = ''MARKDOWN''"

definition ParsePayloadKind :: "string \<Rightarrow> err + payload_kind" where
  "ParsePayloadKind value =
     (if value = ''TEXT'' then Inr PayloadText
      else if value = ''FILE'' then Inr PayloadFile
      else Inl (Message ''invalid payload kind''))"

definition ParsePrivacyMode :: "string \<Rightarrow> err + privacy_mode" where
  "ParsePrivacyMode value =
     (if value = ''STANDARD'' then Inr PrivacyStandard
      else if value = ''ENCRYPTED'' then Inr PrivacyEncrypted
      else Inl (Message ''invalid privacy mode''))"

definition ParseTextFormat :: "string \<Rightarrow> err + text_format" where
  "ParseTextFormat value =
     (if value = ''PLAIN'' then Inr TextPlain
      else if value = ''SOURCE'' then Inr TextSource
      else if value = ''MARKDOWN'' then Inr TextMarkdown
      else Inl (Message ''invalid text format''))"

text \<open>The arguments are Go strings of the two types, so they may be any string.\<close>

definition ValidatePayloadPrivacy :: "string \<Rightarrow> string \<Rightarrow> err option" where
  "ValidatePayloadPrivacy kind mode =
     (case ParsePayloadKind kind of Inl e \<Rightarrow> Some e
      | Inr k \<Rightarrow>
        (case ParsePrivacyMode mode of Inl e \<Rightarrow> Some e
         | Inr m \<Rightarrow>
           if k = PayloadFile \<and> m = PrivacyEncrypted
           then Some (Message ''privacy mode is not supported for payload kind'') else None))"

definition IsExpired :: "time option \<Rightarrow> time \<Rightarrow> bool" where
  "IsExpired expiresAt now = (case expiresAt of None \<Rightarrow> False | Some t \<Rightarrow> \<not> now < t)"

section \<open>Parsers and printers\<close>

lemma ParsePayloadKind_string [simp]: "ParsePayloadKind (kind_string k) = Inr k"
  by (cases k) (simp_all add: ParsePayloadKind_def)

lemma ParsePrivacyMode_string [simp]: "ParsePrivacyMode (privacy_string m) = Inr m"
  by (cases m) (simp_all add: ParsePrivacyMode_def)

lemma ParseTextFormat_string [simp]: "ParseTextFormat (format_string f) = Inr f"
  by (cases f) (simp_all add: ParseTextFormat_def)

lemma ParsePayloadKind_Inr: "ParsePayloadKind v = Inr k \<longleftrightarrow> v = kind_string k"
  by (cases k) (auto simp: ParsePayloadKind_def)

lemma ParsePrivacyMode_Inr: "ParsePrivacyMode v = Inr m \<longleftrightarrow> v = privacy_string m"
  by (cases m) (auto simp: ParsePrivacyMode_def)

lemma ParseTextFormat_Inr: "ParseTextFormat v = Inr f \<longleftrightarrow> v = format_string f"
  by (cases f) (auto simp: ParseTextFormat_def)

lemma kind_string_inject [simp]: "kind_string a = kind_string b \<longleftrightarrow> a = b"
  by (cases a; cases b) simp_all

lemma privacy_string_inject [simp]: "privacy_string a = privacy_string b \<longleftrightarrow> a = b"
  by (cases a; cases b) simp_all

lemma ValidatePayloadPrivacy_None:
  "ValidatePayloadPrivacy kind mode = None \<longleftrightarrow>
     (kind, mode) \<in> {(''TEXT'', ''STANDARD''), (''TEXT'', ''ENCRYPTED''), (''FILE'', ''STANDARD'')}"
  by (auto simp: ValidatePayloadPrivacy_def ParsePayloadKind_def ParsePrivacyMode_def)

section \<open>Expiration\<close>

lemma IsExpired_None [simp]: "\<not> IsExpired None now"
  by (simp add: IsExpired_def)

lemma IsExpired_Some [simp]: "IsExpired (Some t) now \<longleftrightarrow> t \<le> now"
  by (auto simp: IsExpired_def)

lemma IsExpired_mono: "IsExpired e now \<Longrightarrow> now \<le> later \<Longrightarrow> IsExpired e later"
  by (cases e) auto

end
