(* ===== verification/Encoding.thy ===== *)
theory Encoding
  imports Prelude
begin

text \<open>
  The two text encodings the source uses, unpadded URL-safe base64
  (\<open>base64.RawURLEncoding\<close>) and lower-case hexadecimal (\<open>encoding/hex\<close>), and the
  contract the validators rely on: decoding an encoding gives the bytes back, so the check
  "decodes to n bytes and re-encodes to itself" accepts exactly the encodings of n bytes.
\<close>

section \<open>The codec contract\<close>

locale canonical_codec =
  fixes encode :: "bytes \<Rightarrow> string"
    and decode :: "string \<Rightarrow> bytes option"
    and width :: "nat \<Rightarrow> nat"
  assumes decode_encode: "decode (encode b) = Some b"
    and length_encode: "length (encode b) = width (length b)"
begin

lemma canonical_iff:
  "(case decode v of None \<Rightarrow> False | Some d \<Rightarrow> length d = n \<and> encode d = v)
     \<longleftrightarrow> (\<exists>d. length d = n \<and> v = encode d)"
  by (auto simp: decode_encode split: option.splits)

lemma encode_inject: "encode a = encode b \<longleftrightarrow> a = b"
  by (metis decode_encode option.inject)

lemma canonical_unique: "v = encode d \<Longrightarrow> decode v = Some d'  \<Longrightarrow> d' = d"
  by (simp add: decode_encode)

lemma canonical_length:
  "(case decode v of None \<Rightarrow> False | Some d \<Rightarrow> length d = n \<and> encode d = v) \<Longrightarrow> length v = width n"
  by (auto simp: length_encode split: option.splits)

end

section \<open>base64.RawURLEncoding\<close>

definition byte :: "char \<Rightarrow> nat" where
  "byte c = of_char c"

definition sextet :: "nat \<Rightarrow> char" where
  "sextet n =
     (if n < 26 then char_of (65 + n) else if n < 52 then char_of (71 + n)
      else if n < 62 then char_of (n - 4) else if n = 62 then CHR ''-'' else CHR ''_'')"

definition is_b64 :: "char \<Rightarrow> bool" where
  "is_b64 c \<longleftrightarrow>
     (65 \<le> byte c \<and> byte c \<le> 90) \<or> (97 \<le> byte c \<and> byte c \<le> 122)
     \<or> (48 \<le> byte c \<and> byte c \<le> 57) \<or> c = CHR ''-'' \<or> c = CHR ''_''"

definition unsextet :: "char \<Rightarrow> nat option" where
  "unsextet c =
     (if 65 \<le> byte c \<and> byte c \<le> 90 then Some (byte c - 65)
      else if 97 \<le> byte c \<and> byte c \<le> 122 then Some (byte c - 71)
      else if 48 \<le> byte c \<and> byte c \<le> 57 then Some (byte c + 4)
      else if c = CHR ''-'' then Some 62
      else if c = CHR ''_'' then Some 63
      else None)"

fun b64_encode :: "bytes \<Rightarrow> string" where
  "b64_encode [] = []"
| "b64_encode [a] = [sextet (byte a div 4), sextet (byte a mod 4 * 16)]"
| "b64_encode [a, b] =
     [sextet (byte a div 4), sextet (byte a mod 4 * 16 + byte b div 16), sextet (byte b mod 16 * 4)]"
| "b64_encode (a # b # c # r) =
     sextet (byte a div 4) # sextet (byte a mod 4 * 16 + byte b div 16)
     # sextet (byte b mod 16 * 4 + byte c div 64) # sextet (byte c mod 64) # b64_encode r"

text \<open>
  The decoder is the non-strict one: it skips carriage returns and newlines anywhere, and
  ignores the unused low bits of a final short quantum.
\<close>

fun b64_quanta :: "string \<Rightarrow> bytes option" where
  "b64_quanta [] = Some []"
| "b64_quanta [w] = None"
| "b64_quanta [w, x] =
     (case (unsextet w, unsextet x) of
        (Some i, Some j) \<Rightarrow> Some [char_of (i * 4 + j div 16)] | _ \<Rightarrow> None)"
| "b64_quanta [w, x, y] =
     (case (unsextet w, unsextet x, unsextet y) of
        (Some i, Some j, Some k) \<Rightarrow> Some [char_of (i * 4 + j div 16), char_of (j mod 16 * 16 + k div 4)]
      | _ \<Rightarrow> None)"
| "b64_quanta (w # x # y # z # r) =
     (case (unsextet w, unsextet x, unsextet y, unsextet z, b64_quanta r) of
        (Some i, Some j, Some k, Some l, Some d) \<Rightarrow>
          Some (char_of (i * 4 + j div 16) # char_of (j mod 16 * 16 + k div 4)
                # char_of (k mod 4 * 64 + l) # d)
      | _ \<Rightarrow> None)"

definition b64_decode :: "string \<Rightarrow> bytes option" where
  "b64_decode s = b64_quanta (filter (\<lambda>c. c \<noteq> CHR 0x0D \<and> c \<noteq> CHR 0x0A) s)"

definition encoded_len :: "nat \<Rightarrow> nat" where
  "encoded_len n = n div 3 * 4 + (n mod 3 * 8 + 5) div 6"

lemma byte_less [simp]: "byte c < 256"
  by (simp add: byte_def)

lemma byte_char_of [simp]: "n < 256 \<Longrightarrow> byte (char_of n) = n"
  by (simp add: byte_def)

lemma char_of_byte [simp]: "char_of (byte c) = c"
  by (simp add: byte_def)

lemma byte_eq_iff: "byte c = byte d \<longleftrightarrow> c = d"
  by (simp add: byte_def)

lemma unsextet_sextet [simp]: "n < 64 \<Longrightarrow> unsextet (sextet n) = Some n"
proof -
  assume n: "n < 64"
  have "n < 26 \<or> 26 \<le> n \<and> n < 52 \<or> 52 \<le> n \<and> n < 62 \<or> n = 62 \<or> n = 63"
    using n by linarith
  then show ?thesis
    by (auto simp: sextet_def unsextet_def) (auto simp: byte_def)
qed

lemma is_b64_sextet [simp]: "n < 64 \<Longrightarrow> is_b64 (sextet n)"
proof -
  assume n: "n < 64"
  have "n < 26 \<or> 26 \<le> n \<and> n < 52 \<or> 52 \<le> n \<and> n < 62 \<or> n = 62 \<or> n = 63"
    using n by linarith
  then show ?thesis by (auto simp: sextet_def is_b64_def)
qed

lemma is_b64_not_break: "is_b64 c \<Longrightarrow> c \<noteq> CHR 0x0D \<and> c \<noteq> CHR 0x0A"
  by (auto simp: is_b64_def byte_def)

lemma sextet_bounds:
  "byte a div 4 < 64" "byte a mod 4 * 16 < 64" "byte a mod 4 * 16 + byte b div 16 < 64"
  "byte b mod 16 * 4 < 64" "byte b mod 16 * 4 + byte c div 64 < 64" "byte c mod 64 < 64"
  using byte_less [of a] byte_less [of b] byte_less [of c] by linarith+

lemma b64_encode_alphabet: "list_all is_b64 (b64_encode b)"
  by (induction b rule: b64_encode.induct) (simp_all add: sextet_bounds)

lemma byte_high [simp]:
  "byte b div 16 div 16 = 0" "byte b div 16 mod 16 = byte b div 16"
  "byte c div 64 div 4 = 0" "byte c div 64 mod 4 = byte c div 64"
proof -
  have "byte b div 16 < 16" "byte c div 64 < 4"
    using byte_less [of b] byte_less [of c] by linarith+
  then show "byte b div 16 div 16 = 0" "byte b div 16 mod 16 = byte b div 16"
    "byte c div 64 div 4 = 0" "byte c div 64 mod 4 = byte c div 64"
    by simp_all
qed

lemma b64_quanta_encode: "b64_quanta (b64_encode b) = Some b"
  by (induction b rule: b64_encode.induct) (simp_all add: sextet_bounds)

lemma b64_decode_encode: "b64_decode (b64_encode b) = Some b"
proof -
  have "filter (\<lambda>c. c \<noteq> CHR 0x0D \<and> c \<noteq> CHR 0x0A) (b64_encode b) = b64_encode b"
    using b64_encode_alphabet [of b] by (auto simp: filter_id_conv list_all_iff dest: is_b64_not_break)
  then show ?thesis by (simp add: b64_decode_def b64_quanta_encode)
qed

lemma encoded_len_step: "encoded_len (n + 3) = encoded_len n + 4"
proof -
  have "(n + 3) div 3 = n div 3 + 1" "(n + 3) mod 3 = n mod 3" by simp_all
  then show ?thesis by (simp only: encoded_len_def) simp
qed

lemma length_b64_encode: "length (b64_encode b) = encoded_len (length b)"
proof (induction b rule: b64_encode.induct)
  case (4 a b c r)
  have "length (a # b # c # r) = length r + 3" by simp
  then have "encoded_len (length (a # b # c # r)) = encoded_len (length r) + 4"
    by (simp only: encoded_len_step)
  with 4 show ?case by (simp only: b64_encode.simps list.size)
qed (simp_all add: encoded_len_def)

interpretation b64: canonical_codec b64_encode b64_decode encoded_len
  by unfold_locales (simp_all add: b64_decode_encode length_b64_encode)

section \<open>encoding/hex\<close>

definition hex_digit :: "nat \<Rightarrow> char" where
  "hex_digit n = (if n < 10 then char_of (48 + n) else char_of (87 + n))"

definition unhex_digit :: "char \<Rightarrow> nat option" where
  "unhex_digit c =
     (if 48 \<le> byte c \<and> byte c \<le> 57 then Some (byte c - 48)
      else if 97 \<le> byte c \<and> byte c \<le> 102 then Some (byte c - 87)
      else if 65 \<le> byte c \<and> byte c \<le> 70 then Some (byte c - 55)
      else None)"

fun hex_encode :: "bytes \<Rightarrow> string" where
  "hex_encode [] = []"
| "hex_encode (b # r) = hex_digit (byte b div 16) # hex_digit (byte b mod 16) # hex_encode r"

fun hex_decode :: "string \<Rightarrow> bytes option" where
  "hex_decode [] = Some []"
| "hex_decode [w] = None"
| "hex_decode (w # x # r) =
     (case (unhex_digit w, unhex_digit x, hex_decode r) of
        (Some i, Some j, Some d) \<Rightarrow> Some (char_of (i * 16 + j) # d) | _ \<Rightarrow> None)"

definition is_hex :: "char \<Rightarrow> bool" where
  "is_hex c \<longleftrightarrow> (48 \<le> byte c \<and> byte c \<le> 57) \<or> (97 \<le> byte c \<and> byte c \<le> 102)"

lemma unhex_hex [simp]: "n < 16 \<Longrightarrow> unhex_digit (hex_digit n) = Some n"
  by (auto simp: hex_digit_def unhex_digit_def)

lemma is_hex_digit [simp]: "n < 16 \<Longrightarrow> is_hex (hex_digit n)"
  by (auto simp: hex_digit_def is_hex_def)

lemma hex_nibbles [simp]: "byte b div 16 < 16" "byte b mod 16 < 16"
  using byte_less [of b] by linarith+

lemma hex_decode_encode: "hex_decode (hex_encode b) = Some b"
  by (induction b) simp_all

lemma length_hex_encode: "length (hex_encode b) = 2 * length b"
  by (induction b) simp_all

lemma hex_encode_alphabet: "list_all is_hex (hex_encode b)"
  by (induction b) simp_all

interpretation hexa: canonical_codec hex_encode hex_decode "\<lambda>n. 2 * n"
  by unfold_locales (simp_all add: hex_decode_encode length_hex_encode)

end
