(* ===== verification/Capability.thy ===== *)
theory Capability
  imports Encoding
begin

text \<open>
  Package \<open>internal/capability\<close> and the token half of \<open>internal/admin\<close> (\<open>token.go\<close>): Share
  IDs, owner tokens and the Superadmin token.  All are canonical unpadded base64url of a
  fixed number of random bytes, the tokens behind a prefix; the server keeps only the
  SHA-256 verifier of a token.

  \<open>crypto/rand\<close> is an argument: \<open>Some bytes\<close> are the bytes it delivered, \<open>None\<close> its
  failure.  \<open>crypto/sha256\<close> is the argument \<open>sha\<close>; nothing is assumed of it except where a
  statement says so.
\<close>

section \<open>Share IDs\<close>

datatype share_id = ShareID (id_string: string)

definition shareIDBytes :: nat where "shareIDBytes = 16"
definition ShareIDLength :: nat where "ShareIDLength = 22"
definition ownerTokenBytes :: nat where "ownerTokenBytes = 32"
definition ownerTokenPrefix :: string where "ownerTokenPrefix = ''up_o1_''"
definition ownerRandomLength :: nat where "ownerRandomLength = 43"
definition OwnerTokenLength :: nat where
  "OwnerTokenLength = length ownerTokenPrefix + ownerRandomLength"

definition randomBase64URL :: "bytes option \<Rightarrow> err + string" where
  "randomBase64URL rnd =
     (case rnd of None \<Rightarrow> Inl (Message ''rand'') | Some value \<Rightarrow> Inr (b64_encode value))"

definition validateBase64URL :: "string \<Rightarrow> nat \<Rightarrow> nat \<Rightarrow> err option" where
  "validateBase64URL value encodedLength decodedLength =
     (if length value \<noteq> encodedLength then Some (Message ''length'')
      else case b64_decode value of
             None \<Rightarrow> Some (Message ''not unpadded base64url'')
           | Some decoded \<Rightarrow>
               if length decoded \<noteq> decodedLength \<or> b64_encode decoded \<noteq> value
               then Some (Message ''noncanonical encoding'') else None)"

definition GenerateShareID :: "bytes option \<Rightarrow> err + share_id" where
  "GenerateShareID rnd =
     (case randomBase64URL rnd of
        Inl e \<Rightarrow> Inl (Wrapped ''generate Share ID'' e) | Inr value \<Rightarrow> Inr (ShareID value))"

definition ParseShareID :: "string \<Rightarrow> err + share_id" where
  "ParseShareID value =
     (case validateBase64URL value ShareIDLength shareIDBytes of
        Some e \<Rightarrow> Inl (Wrapped ''invalid Share ID'' e) | None \<Rightarrow> Inr (ShareID value))"

section \<open>Owner tokens\<close>

datatype owner_token = OwnerToken (reveal: string)

definition GenerateOwnerToken :: "bytes option \<Rightarrow> err + owner_token" where
  "GenerateOwnerToken rnd =
     (case randomBase64URL rnd of
        Inl e \<Rightarrow> Inl (Wrapped ''generate owner token'' e)
      | Inr random \<Rightarrow> Inr (OwnerToken (ownerTokenPrefix @ random)))"

definition ParseOwnerToken :: "string \<Rightarrow> err + owner_token" where
  "ParseOwnerToken value =
     (if length value \<noteq> OwnerTokenLength \<or> length value < length ownerTokenPrefix
         \<or> take (length ownerTokenPrefix) value \<noteq> ownerTokenPrefix
      then Inl (Message ''invalid owner token shape'')
      else case validateBase64URL (drop (length ownerTokenPrefix) value) ownerRandomLength ownerTokenBytes of
             Some e \<Rightarrow> Inl (Wrapped ''invalid owner token'' e)
           | None \<Rightarrow> Inr (OwnerToken value))"

definition owner_verifier :: "(bytes \<Rightarrow> bytes) \<Rightarrow> owner_token \<Rightarrow> bytes" where
  "owner_verifier sha token = sha (reveal token)"

text \<open>\<open>subtle.ConstantTimeCompare(a, b) == 1\<close> is equality of the two byte strings.\<close>

definition VerifyOwnerToken :: "(bytes \<Rightarrow> bytes) \<Rightarrow> string \<Rightarrow> bytes \<Rightarrow> bool" where
  "VerifyOwnerToken sha candidate expected =
     (case ParseOwnerToken candidate of
        Inl e \<Rightarrow> False
      | Inr token \<Rightarrow> owner_verifier sha token = expected)"

definition owner_token_string :: "owner_token \<Rightarrow> string" where
  "owner_token_string token = ''[REDACTED owner capability]''"

section \<open>The Superadmin token\<close>

datatype admin_token = AdminToken (admin_reveal: string)

definition TokenPrefix :: string where "TokenPrefix = ''up_a1_''"
definition tokenRandomSize :: nat where "tokenRandomSize = 32"
definition tokenRandomLen :: nat where "tokenRandomLen = 43"
definition TokenLength :: nat where "TokenLength = length TokenPrefix + tokenRandomLen"

definition validateCanonical :: "string \<Rightarrow> nat \<Rightarrow> err option" where
  "validateCanonical value decodedSize =
     (case b64_decode value of
        None \<Rightarrow> Some (Message ''admin token is not unpadded base64url'')
      | Some decoded \<Rightarrow>
          if length decoded \<noteq> decodedSize \<or> b64_encode decoded \<noteq> value
          then Some (Message ''admin token is not canonical'') else None)"

definition GenerateToken :: "bytes option \<Rightarrow> err + admin_token" where
  "GenerateToken rnd =
     (case randomBase64URL rnd of
        Inl e \<Rightarrow> Inl (Wrapped ''generate admin token'' e)
      | Inr random \<Rightarrow> Inr (AdminToken (TokenPrefix @ random)))"

definition ParseToken :: "string \<Rightarrow> err + admin_token" where
  "ParseToken value =
     (if length value \<noteq> TokenLength \<or> length value < length TokenPrefix
         \<or> take (length TokenPrefix) value \<noteq> TokenPrefix
      then Inl (Message ''invalid admin token shape'')
      else case validateCanonical (drop (length TokenPrefix) value) tokenRandomSize of
             Some e \<Rightarrow> Inl e
           | None \<Rightarrow> Inr (AdminToken value))"

definition admin_verifier :: "(bytes \<Rightarrow> bytes) \<Rightarrow> admin_token \<Rightarrow> bytes" where
  "admin_verifier sha token = sha (admin_reveal token)"

definition VerifyToken :: "(bytes \<Rightarrow> bytes) \<Rightarrow> string \<Rightarrow> bytes \<Rightarrow> bool" where
  "VerifyToken sha candidate expected =
     (case ParseToken candidate of
        Inl e \<Rightarrow> False
      | Inr token \<Rightarrow> admin_verifier sha token = expected)"

definition admin_token_string :: "admin_token \<Rightarrow> string" where
  "admin_token_string token = ''[REDACTED admin token]''"

section \<open>Canonical base64url\<close>

lemmas capability_consts =
  shareIDBytes_def ShareIDLength_def ownerTokenBytes_def ownerTokenPrefix_def
  ownerRandomLength_def OwnerTokenLength_def TokenPrefix_def tokenRandomSize_def
  tokenRandomLen_def TokenLength_def

lemma encoded_len_values [simp]:
  "encoded_len 16 = 22" "encoded_len 32 = 43" "encoded_len 12 = 16"
  by (simp_all add: encoded_len_def)

lemma validateCanonical_iff:
  "validateCanonical v n = None \<longleftrightarrow> (\<exists>d. length d = n \<and> v = b64_encode d)"
  using b64.canonical_iff [of n v] by (auto simp: validateCanonical_def split: option.splits)

lemma validateBase64URL_iff:
  "validateBase64URL v (encoded_len n) n = None \<longleftrightarrow> (\<exists>d. length d = n \<and> v = b64_encode d)"
  using b64.canonical_iff [of n v]
  by (auto simp: validateBase64URL_def length_b64_encode split: option.splits)

lemma ParseShareID_Inr_iff:
  "ParseShareID v = Inr i \<longleftrightarrow> i = ShareID v \<and> (\<exists>d. length d = 16 \<and> v = b64_encode d)"
  using validateBase64URL_iff [of v 16]
  by (auto simp: ParseShareID_def capability_consts split: option.splits)

lemma ParseShareID_string: "ParseShareID v = Inr i \<Longrightarrow> id_string i = v"
  by (simp add: ParseShareID_Inr_iff)

lemma ParseShareID_length: "ParseShareID v = Inr i \<Longrightarrow> length v = 22"
  by (auto simp: ParseShareID_Inr_iff length_b64_encode)

lemma ParseShareID_alphabet: "ParseShareID v = Inr i \<Longrightarrow> list_all is_b64 v"
  by (auto simp: ParseShareID_Inr_iff b64_encode_alphabet)

lemma GenerateShareID_parses:
  "GenerateShareID (Some r) = Inr i \<Longrightarrow> length r = 16 \<Longrightarrow> ParseShareID (id_string i) = Inr i"
  by (auto simp: GenerateShareID_def randomBase64URL_def ParseShareID_Inr_iff)

section \<open>The contract of a bearer capability\<close>

text \<open>
  What the verifiers of \<open>capability\<close> and \<open>admin\<close> both promise: the parser accepts exactly
  the prefix followed by the canonical encoding of 32 bytes, and verification compares the
  digest of an accepted candidate.
\<close>

locale bearer_capability =
  fixes pre :: string
    and accepts :: "string \<Rightarrow> bool"
    and verify :: "(bytes \<Rightarrow> bytes) \<Rightarrow> string \<Rightarrow> bytes \<Rightarrow> bool"
  assumes accepts_iff: "accepts v \<longleftrightarrow> (\<exists>d. length d = 32 \<and> v = pre @ b64_encode d)"
    and verify_iff: "verify sha v expected \<longleftrightarrow> accepts v \<and> sha v = expected"
begin

lemma accepts_generated: "length d = 32 \<Longrightarrow> accepts (pre @ b64_encode d)"
  by (auto simp: accepts_iff)

lemma accepts_length: "accepts v \<Longrightarrow> length v = length pre + 43"
  by (auto simp: accepts_iff length_b64_encode)

lemma verify_self: "accepts v \<Longrightarrow> verify sha v (sha v)"
  by (simp add: verify_iff)

lemma verify_only:
  assumes "\<And>w. accepts w \<Longrightarrow> sha w = sha v \<Longrightarrow> w = v" and "verify sha c (sha v)"
  shows "c = v"
  using assms by (simp add: verify_iff)

lemma verify_unique:
  assumes "accepts v" and "\<And>w. accepts w \<Longrightarrow> sha w = sha v \<Longrightarrow> w = v"
  shows "verify sha c (sha v) \<longleftrightarrow> c = v"
  using assms verify_only [of sha v c] verify_self [of v sha] by blast

end

lemma ParseOwnerToken_Inr_iff:
  "ParseOwnerToken v = Inr t \<longleftrightarrow>
     t = OwnerToken v \<and> (\<exists>d. length d = 32 \<and> v = ownerTokenPrefix @ b64_encode d)"
proof (cases "\<exists>r. v = ownerTokenPrefix @ r")
  case True
  then obtain r where r: "v = ownerTokenPrefix @ r" by blast
  have "validateBase64URL r 43 32 = None \<longleftrightarrow> (\<exists>d. length d = 32 \<and> r = b64_encode d)"
    using validateBase64URL_iff [of r 32] by simp
  then show ?thesis
    by (auto simp: ParseOwnerToken_def r OwnerTokenLength_def ownerRandomLength_def ownerTokenBytes_def length_b64_encode split: option.splits)
next
  case False
  then have "take (length ownerTokenPrefix) v \<noteq> ownerTokenPrefix"
    by (metis append_take_drop_id)
  with False show ?thesis by (auto simp: ParseOwnerToken_def)
qed

lemma ParseToken_Inr_iff:
  "ParseToken v = Inr t \<longleftrightarrow>
     t = AdminToken v \<and> (\<exists>d. length d = 32 \<and> v = TokenPrefix @ b64_encode d)"
proof (cases "\<exists>r. v = TokenPrefix @ r")
  case True
  then obtain r where r: "v = TokenPrefix @ r" by blast
  have "validateCanonical r 32 = None \<longleftrightarrow> (\<exists>d. length d = 32 \<and> r = b64_encode d)"
    using validateCanonical_iff [of r 32] by simp
  then show ?thesis
    by (auto simp: ParseToken_def r TokenLength_def tokenRandomLen_def tokenRandomSize_def length_b64_encode split: option.splits)
next
  case False
  then have "take (length TokenPrefix) v \<noteq> TokenPrefix"
    by (metis append_take_drop_id)
  with False show ?thesis by (auto simp: ParseToken_def)
qed

definition owner_accepts :: "string \<Rightarrow> bool" where
  "owner_accepts v \<longleftrightarrow> (case ParseOwnerToken v of Inl e \<Rightarrow> False | Inr t \<Rightarrow> True)"

definition admin_accepts :: "string \<Rightarrow> bool" where
  "admin_accepts v \<longleftrightarrow> (case ParseToken v of Inl e \<Rightarrow> False | Inr t \<Rightarrow> True)"

lemma owner_accepts_iff: "owner_accepts v \<longleftrightarrow> ParseOwnerToken v = Inr (OwnerToken v)"
  by (simp add: owner_accepts_def split: sum.splits) (metis ParseOwnerToken_Inr_iff sum.distinct(1))

lemma admin_accepts_iff: "admin_accepts v \<longleftrightarrow> ParseToken v = Inr (AdminToken v)"
  by (simp add: admin_accepts_def split: sum.splits) (metis ParseToken_Inr_iff sum.distinct(1))

lemma VerifyOwnerToken_iff:
  "VerifyOwnerToken sha v expected \<longleftrightarrow> owner_accepts v \<and> sha v = expected"
proof (cases "ParseOwnerToken v")
  case (Inl e)
  then show ?thesis by (simp add: VerifyOwnerToken_def owner_accepts_def)
next
  case (Inr t)
  then have "t = OwnerToken v" by (simp add: ParseOwnerToken_Inr_iff)
  with Inr show ?thesis by (simp add: VerifyOwnerToken_def owner_accepts_def owner_verifier_def)
qed

lemma VerifyToken_iff:
  "VerifyToken sha v expected \<longleftrightarrow> admin_accepts v \<and> sha v = expected"
proof (cases "ParseToken v")
  case (Inl e)
  then show ?thesis by (simp add: VerifyToken_def admin_accepts_def)
next
  case (Inr t)
  then have "t = AdminToken v" by (simp add: ParseToken_Inr_iff)
  with Inr show ?thesis by (simp add: VerifyToken_def admin_accepts_def admin_verifier_def)
qed

interpretation owner: bearer_capability ownerTokenPrefix owner_accepts VerifyOwnerToken
  by unfold_locales (simp_all add: VerifyOwnerToken_iff owner_accepts_iff ParseOwnerToken_Inr_iff)

interpretation superadmin: bearer_capability TokenPrefix admin_accepts VerifyToken
  by unfold_locales (simp_all add: VerifyToken_iff admin_accepts_iff ParseToken_Inr_iff)

lemma GenerateOwnerToken_accepts:
  "GenerateOwnerToken (Some r) = Inr t \<Longrightarrow> length r = 32 \<Longrightarrow> owner_accepts (reveal t)"
  using owner.accepts_generated [of r]
  by (auto simp: GenerateOwnerToken_def randomBase64URL_def)

end
