(* ===== verification/ObjectStore.thy ===== *)
theory ObjectStore
  imports Encoding
begin

text \<open>
  Package \<open>internal/objectstore\<close> (\<open>local.go\<close>): File objects on disk, staged under a temporary
  name, linked into a two-character shard on commit, deleted by key, and reconciled against
  the set of referenced keys.

  The directory \<open>objects\<close> is a list of paths relative to it with their nodes.  The
  operating system's failures are an argument \<open>io\<close>: \<open>io op\<close> holds when that call fails
  although the directory would allow it.  Random bytes, the clock and the reader are
  arguments too.
\<close>

section \<open>The directory\<close>

datatype node = Regular (content: bytes) (mod_time: time) | Directory | Symlink | Irregular

type_synonym fs = "(string \<times> node) list"

datatype fsop =
    OpLstat string | OpOpen string | OpStat string | OpCreate string | OpWrite string
  | OpSync string | OpClose string | OpLink string string | OpRemove string | OpMkdir string
  | OpReadDir string | OpCtx string

type_synonym io = "fsop \<Rightarrow> bool"

fun is_regular :: "node \<Rightarrow> bool" where
  "is_regular (Regular c t) = True"
| "is_regular n = False"

definition lstat :: "fs \<Rightarrow> string \<Rightarrow> node option" where
  "lstat fs p = map_of fs p"

definition fs_put :: "string \<Rightarrow> node \<Rightarrow> fs \<Rightarrow> fs" where
  "fs_put p n fs = (p, n) # delete_rows fst p fs"

definition fs_unlink :: "io \<Rightarrow> string \<Rightarrow> fs \<Rightarrow> fs \<times> err option" where
  "fs_unlink io p fs =
     (if io (OpRemove p) then (fs, Some (Message ''remove''))
      else if lstat fs p = None then (fs, Some ErrNotExist)
      else (delete_rows fst p fs, None))"

definition fs_ok :: "fs \<Rightarrow> bool" where
  "fs_ok fs \<longleftrightarrow> distinct (map fst fs)"

lemma lstat_put [simp]: "lstat (fs_put p n fs) q = (if q = p then Some n else lstat fs q)"
  unfolding lstat_def fs_put_def delete_rows_def by (induction fs) auto

lemma lstat_delete [simp]: "lstat (delete_rows fst p fs) q = (if q = p then None else lstat fs q)"
  unfolding lstat_def delete_rows_def by (induction fs) auto

lemma lstat_unlink:
  "lstat (fst (fs_unlink io p fs)) q =
     (if q = p \<and> snd (fs_unlink io p fs) = None then None else lstat fs q)"
  by (auto simp: fs_unlink_def)

lemma fs_ok_put: "fs_ok fs \<Longrightarrow> fs_ok (fs_put p n fs)"
  by (auto simp: fs_ok_def fs_put_def distinct_delete_rows)

lemma fs_ok_unlink: "fs_ok fs \<Longrightarrow> fs_ok (fst (fs_unlink io p fs))"
  by (auto simp: fs_ok_def fs_unlink_def distinct_delete_rows)

section \<open>Object keys\<close>

definition keyBytes :: nat where "keyBytes = 16"

definition validKey :: "string \<Rightarrow> bool" where
  "validKey value \<longleftrightarrow>
     (case hex_decode value of
        None \<Rightarrow> False
      | Some decoded \<Rightarrow>
          length value = keyBytes * 2 \<and> length decoded = keyBytes \<and> hex_encode decoded = value)"

definition validShard :: "string \<Rightarrow> bool" where
  "validShard value \<longleftrightarrow> length value = 2 \<and> validKey (value @ replicate 30 (CHR ''0''))"

definition relative :: "string \<Rightarrow> err + string" where
  "relative key =
     (if validKey key then Inr (take 2 key @ ''/'' @ drop 2 key) else Inl (Message ''invalid object key''))"

definition generateKey :: "bytes option \<Rightarrow> err + string" where
  "generateKey rnd = (case rnd of None \<Rightarrow> Inl (Message ''rand'') | Some value \<Rightarrow> Inr (hex_encode value))"

definition randomSuffix :: "bytes option \<Rightarrow> string" where
  "randomSuffix rnd = (case rnd of None \<Rightarrow> ''fallback'' | Some value \<Rightarrow> hex_encode value)"

lemma validKey_iff: "validKey v \<longleftrightarrow> (\<exists>d. length d = 16 \<and> v = hex_encode d)"
  using hexa.canonical_iff [of 16 v]
  by (auto simp: validKey_def keyBytes_def length_hex_encode split: option.splits)

lemma validKey_length: "validKey v \<Longrightarrow> length v = 32"
  by (auto simp: validKey_iff length_hex_encode)

lemma validKey_alphabet: "validKey v \<Longrightarrow> list_all is_hex v"
  by (auto simp: validKey_iff hex_encode_alphabet)

lemma validKey_no_slash: "validKey v \<Longrightarrow> CHR ''/'' \<notin> set v"
  using validKey_alphabet [of v] by (auto simp: list_all_iff is_hex_def byte_def)

lemma validKey_no_dot: "validKey v \<Longrightarrow> CHR ''.'' \<notin> set v"
  using validKey_alphabet [of v] by (auto simp: list_all_iff is_hex_def byte_def)

lemma generateKey_valid: "generateKey (Some r) = Inr k \<Longrightarrow> length r = 16 \<Longrightarrow> validKey k"
  by (auto simp: generateKey_def validKey_iff)

lemma relative_Inr_iff:
  "relative key = Inr rel \<longleftrightarrow> validKey key \<and> rel = take 2 key @ ''/'' @ drop 2 key"
  by (auto simp: relative_def)

lemma relative_parts:
  assumes "relative k = Inr rel"
  obtains s r where "k = s @ r" "length s = 2" "length r = 30" "rel = s @ ''/'' @ r"
    "CHR ''/'' \<notin> set k" "CHR ''.'' \<notin> set k" "validKey k"
proof -
  from assms have v: "validKey k" and r: "rel = take 2 k @ ''/'' @ drop 2 k"
    by (simp_all add: relative_Inr_iff)
  have "length k = 32" using v by (rule validKey_length)
  with v r show thesis
    by (intro that [of "take 2 k" "drop 2 k"]) (simp_all add: validKey_no_slash validKey_no_dot)
qed

lemma relative_inject:
  assumes "relative a = Inr r" "relative b = Inr r"
  shows "a = b"
  using assms by (elim relative_parts) auto

lemma relative_not_stage:
  assumes "relative k = Inr rel"
  shows "\<not> has_prefix rel ''.stage-''"
proof -
  from assms obtain s r where "k = s @ r" "length s = 2" "rel = s @ ''/'' @ r" "CHR ''.'' \<notin> set k"
    by (rule relative_parts)
  then show ?thesis by (cases s) (auto simp: has_prefix_def)
qed

section \<open>Staging\<close>

record staged =
  st_key :: string
  st_temp :: string
  st_size :: nat
  st_digest :: bytes
  st_sniff :: bytes
  st_committed :: bool

text \<open>A reader delivers its data and then ends, or fails with an error.\<close>

record source =
  src_data :: bytes
  src_err :: "err option"

text \<open>At most eight temporary names are tried, moving on only while the name exists.\<close>

fun open_stage :: "io \<Rightarrow> time \<Rightarrow> string \<Rightarrow> bytes option list \<Rightarrow> fs \<Rightarrow> fs \<times> (err + string)" where
  "open_stage io now key [] fs = (fs, Inl ErrExist)"
| "open_stage io now key (r # rs) fs =
     (let temp = ''.stage-'' @ key @ ''-'' @ randomSuffix r
      in if lstat fs temp \<noteq> None then open_stage io now key rs fs
         else if io (OpCreate temp) then (fs, Inl (Message ''open''))
         else (fs_put temp (Regular [] now) fs, Inr temp))"

definition Abort :: "io \<Rightarrow> staged \<Rightarrow> fs \<Rightarrow> staged \<times> fs \<times> err option" where
  "Abort io st fs =
     (if st_temp st = [] then (st, fs, None)
      else (case fs_unlink io (st_temp st) fs of
              (fs', e) \<Rightarrow> (st\<lparr>st_temp := []\<rparr>, fs', if e = Some ErrNotExist then None else e)))"

definition Stage ::
  "io \<Rightarrow> time \<Rightarrow> (bytes \<Rightarrow> bytes) \<Rightarrow> bytes option \<Rightarrow> bytes option list \<Rightarrow> source \<Rightarrow> nat \<Rightarrow> fs
     \<Rightarrow> fs \<times> (err + staged)" where
  "Stage io now sha rnd sufs source limit fs =
     (case generateKey rnd of
        Inl e \<Rightarrow> (fs, Inl (Wrapped ''generate object key'' e))
      | Inr key \<Rightarrow>
        (case open_stage io now key (take 8 sufs) fs of
           (fs1, Inl e) \<Rightarrow> (fs1, Inl (Wrapped ''create staged object'' e))
         | (fs1, Inr temp) \<Rightarrow>
            (let st = \<lparr>st_key = key, st_temp = temp, st_size = 0, st_digest = [], st_sniff = [],
                       st_committed = False\<rparr>;
                 body = take (limit + 1) (src_data source);
                 fs2 = fs_put temp (Regular body now) fs1;
                 abort = (\<lambda>e. (fst (snd (Abort io st fs2)), Inl e))
             in if io (OpWrite temp)
                then abort (Wrapped ''write staged object'' (Message ''write''))
                else if length (src_data source) \<le> limit \<and> src_err source \<noteq> None
                then abort (Wrapped ''write staged object'' (the (src_err source)))
                else if limit < length body then abort ErrTooLarge
                else if length body = 0 then abort ErrEmpty
                else if io (OpSync temp) then abort (Wrapped ''sync staged object'' (Message ''sync''))
                else if io (OpClose temp) then abort (Wrapped ''close staged object'' (Message ''close''))
                else (fs2, Inr (st\<lparr>st_size := length body, st_digest := sha body,
                                   st_sniff := take 512 body\<rparr>)))))"

text \<open>\<open>sniffWriter.Write\<close>: the writer keeps the first 512 bytes of what it is given, so a source
  copied in any chunks leaves the prefix that \<open>Stage\<close> records.\<close>

definition sniff_write :: "bytes \<Rightarrow> bytes \<Rightarrow> bytes" where
  "sniff_write acc chunk = acc @ take (512 - length acc) chunk"

lemma sniff_chunks: "length acc \<le> 512 \<Longrightarrow> foldl sniff_write acc chunks = take 512 (acc @ concat chunks)"
proof (induction chunks arbitrary: acc)
  case (Cons c cs)
  have "length (sniff_write acc c) \<le> 512" using Cons.prems by (simp add: sniff_write_def)
  from Cons.IH [OF this] Cons.prems show ?case
    by (cases "length c \<le> 512 - length acc") (simp_all add: sniff_write_def)
qed simp

text \<open>\<open>OpenLocal\<close>: the object root must be absent or a real directory.\<close>

definition OpenLocal :: "io \<Rightarrow> string \<Rightarrow> fs \<Rightarrow> err + fs" where
  "OpenLocal io root host =
     (if io (OpLstat root) then Inl (Wrapped ''inspect object root'' (Message ''lstat''))
      else case lstat host root of
        Some n \<Rightarrow>
          if n \<noteq> Directory then Inl (Message ''object root is not a directory'')
          else if io (OpMkdir root) then Inl (Wrapped ''create object root'' (Message ''mkdir''))
          else if io (OpOpen root) then Inl (Wrapped ''open object root'' (Message ''open''))
          else Inr host
      | None \<Rightarrow>
          if io (OpMkdir root) then Inl (Wrapped ''create object root'' (Message ''mkdir''))
          else if io (OpOpen root) then Inl (Wrapped ''open object root'' (Message ''open''))
          else Inr (fs_put root Directory host))"

text \<open>\<open>Commit\<close> after its \<open>MkdirAll\<close>: the object must not exist, the staging file is linked to its
  place and removed, and the shard directory is synced.\<close>

definition commit_link :: "io \<Rightarrow> staged \<Rightarrow> string \<Rightarrow> string \<Rightarrow> fs \<Rightarrow> staged \<times> fs \<times> err option" where
  "commit_link io st shard rel fs =
     (if io (OpLstat rel) then (st, fs, Some (Message ''lstat''))
      else if lstat fs rel \<noteq> None then (st, fs, Some (Message ''object already exists''))
      else
        (case lstat fs (st_temp st) of
           None \<Rightarrow> (st, fs, Some (Wrapped ''finalize object'' ErrNotExist))
         | Some n \<Rightarrow>
             if io (OpLink (st_temp st) rel)
             then (st, fs, Some (Wrapped ''finalize object'' (Message ''link'')))
             else
               (case fs_unlink io (st_temp st) (fs_put rel n fs) of
                  (fs3, Some e) \<Rightarrow>
                    (st, fst (fs_unlink io rel fs3), Some (Wrapped ''remove staged object'' e))
                | (fs3, None) \<Rightarrow>
                    (st\<lparr>st_temp := [], st_committed := True\<rparr>, fs3,
                     if io (OpOpen shard) then Some (Wrapped ''open object shard'' (Message ''open''))
                     else if io (OpSync shard) then Some (Wrapped ''sync object shard'' (Message ''sync''))
                     else None))))"

definition Commit :: "io \<Rightarrow> staged \<Rightarrow> fs \<Rightarrow> staged \<times> fs \<times> err option" where
  "Commit io st fs =
     (if st_committed st then (st, fs, None)
      else case relative (st_key st) of
        Inl e \<Rightarrow> (st, fs, Some e)
      | Inr rel \<Rightarrow>
        (let shard = take 2 (st_key st)
         in if io (OpMkdir shard) \<or> (lstat fs shard \<noteq> None \<and> lstat fs shard \<noteq> Some Directory)
            then (st, fs, Some (Wrapped ''create object shard'' (Message ''mkdir'')))
            else commit_link io st shard rel
                   (if lstat fs shard = None then fs_put shard Directory fs else fs)))"

section \<open>Opening and deleting by key\<close>

definition store_open :: "io \<Rightarrow> string \<Rightarrow> fs \<Rightarrow> err + bytes" where
  "store_open io key fs =
     (case relative key of
        Inl e \<Rightarrow> Inl e
      | Inr rel \<Rightarrow>
          if io (OpOpen rel) then Inl (Message ''open'')
          else (case lstat fs rel of
                  None \<Rightarrow> Inl ErrNotExist
                | Some n \<Rightarrow>
                    if io (OpStat rel) then Inl (Message ''stat'')
                    else if io (OpLstat rel) \<or> \<not> is_regular n
                    then Inl (Message ''object is not a regular file'')
                    else Inr (content n)))"

definition store_delete :: "io \<Rightarrow> fs \<Rightarrow> string \<Rightarrow> fs \<times> err option" where
  "store_delete io fs key =
     (case relative key of
        Inl e \<Rightarrow> (fs, Some e)
      | Inr rel \<Rightarrow>
          if io (OpLstat rel) then (fs, Some (Message ''lstat''))
          else (case lstat fs rel of
                  None \<Rightarrow> (fs, None)
                | Some n \<Rightarrow>
                    if \<not> is_regular n then (fs, Some (Message ''object is not a regular file''))
                    else fs_unlink io rel fs))"

definition store_present :: "fs \<Rightarrow> string \<Rightarrow> bool" where
  "store_present fs key =
     (case relative key of
        Inl e \<Rightarrow> False
      | Inr rel \<Rightarrow> (case lstat fs rel of None \<Rightarrow> False | Some n \<Rightarrow> is_regular n))"

text \<open>The object at a key: its bytes and its time.\<close>

definition store_object :: "fs \<Rightarrow> string \<Rightarrow> (bytes \<times> time) option" where
  "store_object fs key =
     (case relative key of
        Inl e \<Rightarrow> None
      | Inr rel \<Rightarrow> (case lstat fs rel of Some (Regular b t) \<Rightarrow> Some (b, t) | _ \<Rightarrow> None))"

text \<open>Deleting a list of keys, counting successes and failures, as the purge loop does.\<close>

fun delete_loop :: "('s \<Rightarrow> string \<Rightarrow> 's \<times> err option) \<Rightarrow> string list \<Rightarrow> 's \<Rightarrow> 's \<times> nat \<times> nat" where
  "delete_loop del [] s = (s, 0, 0)"
| "delete_loop del (k # ks) s =
     (case del s k of
        (s1, e) \<Rightarrow>
          (case delete_loop del ks s1 of
             (s2, n, f) \<Rightarrow> if e = None then (s2, Suc n, f) else (s2, n, Suc f)))"

lemma delete_loop_fst:
  "fst (delete_loop del (k # ks) s) = fst (delete_loop del ks (fst (del s k)))"
  by (simp split: prod.splits)

declare delete_loop.simps(2) [simp del]

section \<open>The contract of an object store\<close>

text \<open>
  What \<open>share.Service\<close> and \<open>maintenance.Service\<close> rely on in the \<open>objectstore.Store\<close> they
  hold: a successful delete removes the object, a failed one changes nothing, and no delete
  touches the object of another key.
\<close>

locale object_store =
  fixes look :: "'s \<Rightarrow> string \<Rightarrow> 'o option"
    and del :: "'s \<Rightarrow> string \<Rightarrow> 's \<times> err option"
  assumes del_gone: "snd (del s k) = None \<Longrightarrow> look (fst (del s k)) k = None"
    and del_failed: "snd (del s k) \<noteq> None \<Longrightarrow> fst (del s k) = s"
    and del_other: "k' \<noteq> k \<Longrightarrow> look (fst (del s k)) k' = look s k'"
begin

lemma del_shrinks: "look (fst (del s k)) k' = Some x \<Longrightarrow> look s k' = Some x"
  using del_gone [of s k] del_failed [of s k] del_other [of k' k s]
  by (cases "k' = k"; cases "snd (del s k)") auto

lemma loop_other: "k \<notin> set ks \<Longrightarrow> look (fst (delete_loop del ks s)) k = look s k"
  by (induction ks arbitrary: s) (simp_all add: delete_loop_fst del_other)

lemma loop_shrinks: "look (fst (delete_loop del ks s)) k = Some x \<Longrightarrow> look s k = Some x"
  by (induction ks arbitrary: s) (auto simp: delete_loop_fst dest: del_shrinks)

lemma loop_counts:
  "fst (snd (delete_loop del ks s)) + snd (snd (delete_loop del ks s)) = length ks"
proof (induction ks arbitrary: s)
  case (Cons a ks)
  from Cons [of "fst (del s a)"] show ?case by (auto simp: delete_loop.simps split: prod.splits)
qed simp

lemma loop_gone:
  "snd (snd (delete_loop del ks s)) = 0 \<Longrightarrow> k \<in> set ks \<Longrightarrow> look (fst (delete_loop del ks s)) k = None"
proof (induction ks arbitrary: s)
  case (Cons a ks)
  obtain s1 e where d: "del s a = (s1, e)" by (cases "del s a")
  obtain s2 n f where l: "delete_loop del ks s1 = (s2, n, f)" by (cases "delete_loop del ks s1")
  from Cons.prems(1) d l have e: "e = None" and f: "f = 0"
    by (auto simp: delete_loop.simps split: if_splits)
  from d e have "look s1 a = None" using del_gone [of s a] by simp
  then have "look s2 a = None" using loop_shrinks [of ks s1 a] l by (cases "look s2 a") auto
  moreover have "k \<in> set ks \<Longrightarrow> look s2 k = None" using Cons.IH [of s1] l f by simp
  ultimately show ?case using Cons.prems(2) d l e by (auto simp: delete_loop.simps)
qed simp

end

section \<open>The local store keeps the contract\<close>

lemma store_present_iff: "store_present fs k \<longleftrightarrow> store_object fs k \<noteq> None"
  by (auto simp: store_present_def store_object_def split: sum.splits option.splits node.splits)

lemma store_object_unlink_other:
  "relative k = Inr rel \<Longrightarrow> k' \<noteq> k \<Longrightarrow>
     store_object (fst (fs_unlink io rel fs)) k' = store_object fs k'"
  by (auto simp: store_object_def lstat_unlink split: sum.splits dest: relative_inject)

lemma store_present_unlink_same:
  "relative k = Inr rel \<Longrightarrow> snd (fs_unlink io rel fs) = None \<Longrightarrow>
     \<not> store_present (fst (fs_unlink io rel fs)) k"
  by (simp add: store_present_def lstat_unlink)

lemma fs_unlink_failed: "snd (fs_unlink io p fs) = Some e \<Longrightarrow> fst (fs_unlink io p fs) = fs"
  by (auto simp: fs_unlink_def split: if_splits)

lemma store_delete_gone:
  "snd (store_delete io fs k) = None \<Longrightarrow> \<not> store_present (fst (store_delete io fs k)) k"
  by (auto simp: store_delete_def store_present_unlink_same split: sum.splits if_splits option.splits)
     (simp add: store_present_def)

lemma store_delete_failed:
  "snd (store_delete io fs k) \<noteq> None \<Longrightarrow> fst (store_delete io fs k) = fs"
  by (auto simp: store_delete_def fs_unlink_failed split: sum.splits if_splits option.splits)

lemma store_delete_content:
  "k' \<noteq> k \<Longrightarrow> store_object (fst (store_delete io fs k)) k' = store_object fs k'"
  by (auto simp: store_delete_def store_object_unlink_other split: sum.splits option.splits)

lemma store_delete_other:
  "k' \<noteq> k \<Longrightarrow> store_present (fst (store_delete io fs k)) k' = store_present fs k'"
  by (simp add: store_present_iff store_delete_content)

lemma store_delete_none: "snd (store_delete io fs k) = None \<Longrightarrow> store_object (fst (store_delete io fs k)) k = None"
  using store_delete_gone [of io fs k] by (metis store_present_iff)

interpretation local_store: object_store store_object "store_delete io" for io
  by unfold_locales (simp_all add: store_delete_none store_delete_failed store_delete_content)

lemma fs_ok_store_delete: "fs_ok fs \<Longrightarrow> fs_ok (fst (store_delete io fs k))"
  by (auto simp: store_delete_def fs_ok_unlink split: sum.splits option.splits)

lemma fs_ok_delete_loop: "fs_ok fs \<Longrightarrow> fs_ok (fst (delete_loop (store_delete io) ks fs))"
proof (induction ks arbitrary: fs)
  case (Cons k ks)
  then have "fs_ok (fst (delete_loop (store_delete io) ks (fst (store_delete io fs k))))"
    by (blast intro: fs_ok_store_delete)
  then show ?case by (simp add: delete_loop_fst)
qed simp

section \<open>Staging and committing\<close>

lemma store_object_put_other:
  "(\<And>k rel. relative k = Inr rel \<Longrightarrow> rel \<noteq> p) \<Longrightarrow> store_object (fs_put p n fs) k = store_object fs k"
  by (auto simp: store_object_def split: sum.splits)

lemma store_object_unlink_foreign:
  "(\<And>k rel. relative k = Inr rel \<Longrightarrow> rel \<noteq> p) \<Longrightarrow>
     store_object (fst (fs_unlink io p fs)) k = store_object fs k"
  by (auto simp: store_object_def lstat_unlink split: sum.splits)

lemma stage_name_foreign: "relative k = Inr rel \<Longrightarrow> rel \<noteq> ''.stage-'' @ s"
  using relative_not_stage [of k rel] by (auto simp: has_prefix_def)

lemma relative_length: "relative k = Inr rel \<Longrightarrow> length rel = 33"
  by (erule relative_parts) simp

lemma shard_foreign: "relative k = Inr rel \<Longrightarrow> rel \<noteq> take 2 s"
  using relative_length [of k rel] by auto

lemma open_stage_name:
  "open_stage io now key rs fs = (fs', Inr temp) \<Longrightarrow>
     \<exists>s. temp = ''.stage-'' @ s \<and> lstat fs temp = None \<and> fs' = fs_put temp (Regular [] now) fs"
  by (induction rs) (auto simp: Let_def split: if_splits)

lemma open_stage_failed: "open_stage io now key rs fs = (fs', Inl e) \<Longrightarrow> fs' = fs"
  by (induction rs) (auto simp: Let_def split: if_splits)

lemma Abort_fs:
  "fst (snd (Abort io st fs)) = (if st_temp st = [] then fs else fst (fs_unlink io (st_temp st) fs))"
  by (simp add: Abort_def split: prod.splits)

lemma Abort_content:
  assumes "st_temp st = [] \<or> (\<exists>s. st_temp st = ''.stage-'' @ s)"
  shows "store_object (fst (snd (Abort io st fs))) k = store_object fs k"
proof (cases "st_temp st = []")
  case False
  with assms obtain s where s: "st_temp st = ''.stage-'' @ s" by blast
  have "store_object (fst (fs_unlink io (st_temp st) fs)) k = store_object fs k"
    unfolding s by (rule store_object_unlink_foreign) (rule stage_name_foreign)
  with False show ?thesis by (simp only: Abort_fs if_False)
qed (simp add: Abort_fs)

lemma Abort_present:
  assumes "st_temp st = [] \<or> (\<exists>s. st_temp st = ''.stage-'' @ s)"
  shows "store_present (fst (snd (Abort io st fs))) k = store_present fs k"
  by (simp add: store_present_iff Abort_content [OF assms])

text \<open>A staged object is a complete copy of a source of admissible size.\<close>

definition staged_ok :: "(bytes \<Rightarrow> bytes) \<Rightarrow> nat \<Rightarrow> staged \<Rightarrow> fs \<Rightarrow> bool" where
  "staged_ok sha limit st fs \<longleftrightarrow>
     validKey (st_key st) \<and> \<not> st_committed st \<and> (\<exists>s. st_temp st = ''.stage-'' @ s)
     \<and> (\<exists>body t. lstat fs (st_temp st) = Some (Regular body t) \<and> 1 \<le> length body
          \<and> length body \<le> limit \<and> st_size st = length body \<and> st_digest st = sha body
          \<and> st_sniff st = take 512 body)"

lemma Stage_ok:
  assumes "Stage io now sha (Some r) sufs source limit fs = (fs', Inr st)" and "length r = 16"
  shows "staged_ok sha limit st fs'"
    and "lstat fs' (st_temp st) = Some (Regular (src_data source) now)"
    and "st_key st = hex_encode r"
proof -
  obtain fs1 temp where o: "open_stage io now (hex_encode r) (take 8 sufs) fs = (fs1, Inr temp)"
    using assms(1) by (auto simp: Stage_def generateKey_def Let_def split: prod.splits sum.splits)
  let ?body = "src_data source"
  from assms(1) o have
    f: "fs' = fs_put temp (Regular ?body now) fs1" and l: "length ?body \<le> limit" "?body \<noteq> []"
    and st: "st = \<lparr>st_key = hex_encode r, st_temp = temp, st_size = length ?body,
                   st_digest = sha ?body, st_sniff = take 512 ?body, st_committed = False\<rparr>"
    by (auto simp: Stage_def generateKey_def Let_def not_less split: if_splits)
  obtain s where s: "temp = ''.stage-'' @ s" using open_stage_name [OF o] by blast
  have k: "validKey (hex_encode r)" using assms(2) by (auto simp: validKey_iff)
  have l1: "1 \<le> length ?body" using l(2) by (cases ?body) auto
  show "staged_ok sha limit st fs'"
    unfolding staged_ok_def using k s l(1) l1 by (simp add: f st)
  show "lstat fs' (st_temp st) = Some (Regular (src_data source) now)" by (simp add: f st)
  show "st_key st = hex_encode r" by (simp add: st)
qed

lemma Stage_content:
  "store_object (fst (Stage io now sha rnd sufs source limit fs)) k = store_object fs k"
proof (cases "generateKey rnd")
  case (Inl e)
  then show ?thesis by (simp add: Stage_def)
next
  case (Inr key)
  obtain fs1 x where o: "open_stage io now key (take 8 sufs) fs = (fs1, x)"
    by (cases "open_stage io now key (take 8 sufs) fs")
  show ?thesis
  proof (cases x)
    case (Inl e)
    with o Inr show ?thesis by (auto simp: Stage_def dest: open_stage_failed)
  next
    case (Inr temp)
    with o obtain s where s: "temp = ''.stage-'' @ s" and f: "fs1 = fs_put temp (Regular [] now) fs"
      by (blast dest: open_stage_name)
    have p: "store_object (fs_put temp n g) k = store_object g k" for n g
      unfolding s by (rule store_object_put_other) (rule stage_name_foreign)
    have a: "store_object (fst (snd (Abort io st g))) k = store_object g k"
      if "st_temp st = temp" for st g
      using Abort_content [of st io g k] that s by simp
    show ?thesis
      using o Inr \<open>generateKey rnd = Inr key\<close> by (simp add: Stage_def Let_def a p f)
  qed
qed

lemma Stage_present:
  "store_present (fst (Stage io now sha rnd sufs source limit fs)) k = store_present fs k"
  by (simp add: store_present_iff Stage_content)

lemma stage_name_distinct:
  assumes "t = [] \<or> (\<exists>s. t = ''.stage-'' @ s)" and "validKey k"
  shows "t \<noteq> take 2 k" "t \<noteq> take 2 k @ CHR ''/'' # drop 2 k"
proof -
  have rel: "relative k = Inr (take 2 k @ CHR ''/'' # drop 2 k)" using assms(2) by (simp add: relative_def)
  have "length (take 2 k) = 2" using validKey_length [OF assms(2)] by simp
  moreover have "length t \<noteq> 2" using assms(1) by auto
  ultimately show "t \<noteq> take 2 k" by metis
  show "t \<noteq> take 2 k @ CHR ''/'' # drop 2 k"
    using assms(1) stage_name_foreign [OF rel] by auto
qed

lemma Commit_content:
  assumes "st_temp st = [] \<or> (\<exists>s. st_temp st = ''.stage-'' @ s)" and "k \<noteq> st_key st"
  shows "store_object (fst (snd (Commit io st fs))) k = store_object fs k"
proof (cases "st_committed st \<or> \<not> validKey (st_key st)")
  case True
  then show ?thesis by (auto simp: Commit_def relative_def)
next
  case False
  let ?rel = "take 2 (st_key st) @ ''/'' @ drop 2 (st_key st)"
  let ?shard = "take 2 (st_key st)"
  have rel: "relative (st_key st) = Inr ?rel" using False by (simp add: relative_def)
  have own: "relative k = Inr r \<Longrightarrow> r \<noteq> ?rel" for r
    using rel assms(2) by (metis relative_inject)
  have putrel: "store_object (fs_put ?rel n g) k = store_object g k" for n g
    using own by (auto simp: store_object_def split: sum.splits)
  have unrel: "store_object (fst (fs_unlink io ?rel g)) k = store_object g k" for g
    using own by (auto simp: store_object_def lstat_unlink split: sum.splits)
  have putshard: "store_object (fs_put ?shard n g) k = store_object g k" for n g
    by (rule store_object_put_other) (rule shard_foreign)
  have untemp: "store_object (fst (fs_unlink io (st_temp st) g)) k = store_object g k" for g
    using assms(1) by (intro store_object_unlink_foreign)
       (metis append_Cons list.distinct(1) relative_length list.size(3) stage_name_foreign zero_neq_numeral)
  note steps = putrel [simplified] unrel [simplified] putshard untemp
    stage_name_distinct [OF assms(1), of "st_key st"]
  show ?thesis
    using False
    by (simp add: Commit_def Let_def relative_def commit_link_def prod.case_eq_if option.case_eq_if steps)
qed

lemma Commit_other:
  assumes "st_temp st = [] \<or> (\<exists>s. st_temp st = ''.stage-'' @ s)" and "k \<noteq> st_key st"
  shows "store_present (fst (snd (Commit io st fs))) k = store_present fs k"
  by (simp add: store_present_iff Commit_content [OF assms])

lemma commit_link_keeps:
  "st_key (fst (commit_link io st shard rel fs)) = st_key st \<and>
   (st_temp (fst (commit_link io st shard rel fs)) = st_temp st
    \<or> st_temp (fst (commit_link io st shard rel fs)) = [])"
  by (auto simp: commit_link_def split: option.splits prod.splits)

lemma Commit_success:
  assumes "Commit io st fs = (st', fs', None)" and "staged_ok sha limit st fs"
  shows "st_committed st'" "st_temp st' = []" "st_key st' = st_key st"
    and "\<not> store_present fs (st_key st)" "store_present fs' (st_key st)"
    and "relative (st_key st) = Inr rel \<Longrightarrow> lstat fs' rel = lstat fs (st_temp st)"
proof -
  obtain s body t where s: "st_temp st = ''.stage-'' @ s"
    and n: "lstat fs (st_temp st) = Some (Regular body t)"
    and v: "validKey (st_key st)" and c: "\<not> st_committed st"
    using assms(2) by (auto simp: staged_ok_def)
  let ?rel = "take 2 (st_key st) @ ''/'' @ drop 2 (st_key st)"
  let ?shard = "take 2 (st_key st)"
  have rel: "relative (st_key st) = Inr ?rel" using v by (simp add: relative_def)
  have temp: "st_temp st = [] \<or> (\<exists>s. st_temp st = ''.stage-'' @ s)" using s by blast
  have ne: "st_temp st \<noteq> ?rel" "?rel \<noteq> ?shard" and ts: "st_temp st \<noteq> ?shard"
    using stage_name_distinct [OF temp v] shard_foreign [OF rel, of "st_key st"] by auto
  let ?fs1 = "if lstat fs ?shard = None then fs_put ?shard Directory fs else fs"
  have t1: "lstat ?fs1 (st_temp st) = Some (Regular body t)" using n ts by simp
  from assms(1) c rel t1 have r: "lstat fs ?rel = None"
    and res: "fs' = delete_rows fst (st_temp st) (fs_put ?rel (Regular body t) ?fs1)"
      "st' = st\<lparr>st_temp := [], st_committed := True\<rparr>"
    using ne
    by (auto simp: Commit_def Let_def commit_link_def fs_unlink_def split: if_splits option.splits prod.splits)
  show "st_committed st'" "st_temp st' = []" "st_key st' = st_key st" by (simp_all add: res)
  show "\<not> store_present fs (st_key st)" using rel r by (simp add: store_present_def)
  show "store_present fs' (st_key st)" using rel ne by (simp add: store_present_def res)
  show "relative (st_key st) = Inr rel \<Longrightarrow> lstat fs' rel = lstat fs (st_temp st)"
    using rel ne n by (simp add: res)
qed

section \<open>What is staged stays\<close>

text \<open>No operation touches a staging file that is not its own.\<close>

lemma stage_not_object: "relative k = Inr rel \<Longrightarrow> ''.stage-'' @ x \<noteq> rel"
  by (metis stage_name_foreign)

lemma store_delete_stage: "lstat (fst (store_delete io fs k)) (''.stage-'' @ x) = lstat fs (''.stage-'' @ x)"
  by (auto simp: store_delete_def lstat_unlink split: sum.splits option.splits dest: stage_not_object)

lemma Abort_stage: "p \<noteq> st_temp st \<Longrightarrow> lstat (fst (snd (Abort io st fs))) p = lstat fs p"
  by (simp add: Abort_fs lstat_unlink)

lemma Stage_stage:
  assumes "lstat fs p \<noteq> None"
  shows "lstat (fst (Stage io now sha rnd sufs source limit fs)) p = lstat fs p"
proof (cases "generateKey rnd")
  case (Inr key)
  obtain fs1 x where o: "open_stage io now key (take 8 sufs) fs = (fs1, x)"
    by (cases "open_stage io now key (take 8 sufs) fs")
  show ?thesis
  proof (cases x)
    case (Inl e)
    with o Inr show ?thesis by (auto simp: Stage_def dest: open_stage_failed)
  next
    case (Inr temp)
    with o have f: "lstat fs temp = None" "fs1 = fs_put temp (Regular [] now) fs" by (blast dest: open_stage_name)+
    then have "p \<noteq> temp" using assms by auto
    then have "lstat (fst (snd (Abort io st (fs_put temp n fs1)))) p = lstat fs p" if "st_temp st = temp" for st n
      using Abort_stage [of p st io "fs_put temp n fs1"] that f(2) by simp
    with \<open>p \<noteq> temp\<close> show ?thesis
      using o Inr \<open>generateKey rnd = Inr key\<close> f(2) by (simp add: Stage_def Let_def)
  qed
qed (simp add: Stage_def)

lemma Commit_stage:
  assumes p: "p = ''.stage-'' @ x" and own: "p \<noteq> st_temp st"
  shows "lstat (fst (snd (Commit io st fs))) p = lstat fs p"
proof (cases "st_committed st \<or> \<not> validKey (st_key st)")
  case True
  then show ?thesis by (auto simp: Commit_def relative_def)
next
  case False
  then have v: "validKey (st_key st)" by simp
  have ne: "p \<noteq> take 2 (st_key st)" "p \<noteq> take 2 (st_key st) @ CHR ''/'' # drop 2 (st_key st)"
    by (rule stage_name_distinct [OF _ v]; use p in blast)+
  have unl: "lstat (fst (fs_unlink io q g)) p = lstat g p" if "p \<noteq> q" for q g
    using that by (simp add: lstat_unlink)
  show ?thesis
    using False own ne
    by (simp add: Commit_def Let_def relative_def commit_link_def prod.case_eq_if option.case_eq_if unl)
qed

end
