(* ===== verification/Database.thy ===== *)
theory Database
  imports Domain Capability ObjectStore
begin

text \<open>
  The SQLite schema of \<open>internal/database/migrations\<close> and the statements the services run
  on it.  A table is the list of its rows.  An INSERT or UPDATE that violates a CHECK, PRIMARY
  KEY, UNIQUE or trigger condition of the migrations is \<open>None\<close> (the statement fails and
  changes nothing); DELETE cascades to the payload tables.  Text columns hold the raw strings,
  so that a loader's parsing is part of the model.
\<close>

section \<open>Tables\<close>

record share_row =
  r_id :: string
  r_kind :: string
  r_privacy :: string
  r_verifier :: bytes
  r_created :: int
  r_updated :: int
  r_expires :: "int option"

record text_row =
  t_share :: string
  t_format :: string
  t_content :: string

record enc_row =
  e_share :: string
  e_protocol :: string
  e_nonce :: bytes
  e_ciphertext :: bytes

record file_row =
  f_share :: string
  f_key :: string
  f_filename :: string
  f_size :: int
  f_media :: string
  f_sha :: bytes

record db =
  shares :: "share_row list"
  texts :: "text_row list"
  encs :: "enc_row list"
  files :: "file_row list"

definition empty_db :: db where
  "empty_db = \<lparr>shares = [], texts = [], encs = [], files = []\<rparr>"

section \<open>Column constraints\<close>

definition EncryptedTextProtocolV1 :: string where
  "EncryptedTextProtocolV1 = ''UPASTE_AES_GCM_V1''"

definition share_row_ok :: "share_row \<Rightarrow> bool" where
  "share_row_ok r \<longleftrightarrow>
     length (r_id r) = 22
     \<and> (r_kind r = ''TEXT'' \<or> r_kind r = ''FILE'')
     \<and> (r_privacy r = ''STANDARD'' \<or> r_privacy r = ''ENCRYPTED'')
     \<and> length (r_verifier r) = 32
     \<and> (r_kind r \<noteq> ''FILE'' \<or> r_privacy r = ''STANDARD'')"

definition text_row_ok :: "text_row \<Rightarrow> bool" where
  "text_row_ok t \<longleftrightarrow>
     (t_format t = ''PLAIN'' \<or> t_format t = ''SOURCE'' \<or> t_format t = ''MARKDOWN'')
     \<and> 1 \<le> length (t_content t) \<and> length (t_content t) \<le> 1048576"

definition enc_row_ok :: "enc_row \<Rightarrow> bool" where
  "enc_row_ok e \<longleftrightarrow>
     e_protocol e = EncryptedTextProtocolV1 \<and> length (e_nonce e) = 12
     \<and> 19 \<le> length (e_ciphertext e) \<and> length (e_ciphertext e) \<le> 1048594"

definition file_row_ok :: "file_row \<Rightarrow> bool" where
  "file_row_ok f \<longleftrightarrow>
     length (f_key f) = 32 \<and> list_all is_hex (f_key f)
     \<and> 1 \<le> length (f_filename f) \<and> length (f_filename f) \<le> 255
     \<and> 1 \<le> f_size f \<and> f_size f \<le> 67108864
     \<and> 1 \<le> length (f_media f) \<and> length (f_media f) \<le> 255
     \<and> length (f_sha f) = 32"

text \<open>The trigger condition: the Share exists with this kind and privacy mode.\<close>

definition typed_share :: "db \<Rightarrow> string \<Rightarrow> string \<Rightarrow> string \<Rightarrow> bool" where
  "typed_share d i kind privacy \<longleftrightarrow>
     (case row_of r_id i (shares d) of
        None \<Rightarrow> False | Some r \<Rightarrow> r_kind r = kind \<and> r_privacy r = privacy)"

section \<open>Statements\<close>

definition insert_share :: "share_row \<Rightarrow> db \<Rightarrow> db option" where
  "insert_share r d =
     (if share_row_ok r \<and> r_id r \<notin> keys_of r_id (shares d)
      then Some (d\<lparr>shares := shares d @ [r]\<rparr>) else None)"

definition insert_text :: "text_row \<Rightarrow> db \<Rightarrow> db option" where
  "insert_text t d =
     (if text_row_ok t \<and> t_share t \<notin> keys_of t_share (texts d)
         \<and> typed_share d (t_share t) ''TEXT'' ''STANDARD''
      then Some (d\<lparr>texts := texts d @ [t]\<rparr>) else None)"

definition insert_enc :: "enc_row \<Rightarrow> db \<Rightarrow> db option" where
  "insert_enc e d =
     (if enc_row_ok e \<and> e_share e \<notin> keys_of e_share (encs d)
         \<and> typed_share d (e_share e) ''TEXT'' ''ENCRYPTED''
      then Some (d\<lparr>encs := encs d @ [e]\<rparr>) else None)"

definition insert_file :: "file_row \<Rightarrow> db \<Rightarrow> db option" where
  "insert_file f d =
     (if file_row_ok f \<and> f_share f \<notin> keys_of f_share (files d) \<and> f_key f \<notin> keys_of f_key (files d)
         \<and> typed_share d (f_share f) ''FILE'' ''STANDARD''
      then Some (d\<lparr>files := files d @ [f]\<rparr>) else None)"

text \<open>An UPDATE returns the new tables and the number of rows affected.\<close>

definition update_text :: "string \<Rightarrow> string \<Rightarrow> string \<Rightarrow> db \<Rightarrow> (db \<times> nat) option" where
  "update_text i format cont d =
     (let n = count_rows t_share i (texts d)
      in if n = 0 then Some (d, 0)
         else if text_row_ok \<lparr>t_share = i, t_format = format, t_content = cont\<rparr>
         then Some (d\<lparr>texts := update_rows t_share i
                        (\<lambda>t. t\<lparr>t_format := format, t_content := cont\<rparr>) (texts d)\<rparr>, n)
         else None)"

definition update_enc :: "string \<Rightarrow> string \<Rightarrow> bytes \<Rightarrow> bytes \<Rightarrow> db \<Rightarrow> (db \<times> nat) option" where
  "update_enc i protocol nonce ciphertext d =
     (let n = count_rows e_share i (encs d)
      in if n = 0 then Some (d, 0)
         else if enc_row_ok \<lparr>e_share = i, e_protocol = protocol, e_nonce = nonce, e_ciphertext = ciphertext\<rparr>
         then Some (d\<lparr>encs := update_rows e_share i
                        (\<lambda>e. e\<lparr>e_protocol := protocol, e_nonce := nonce, e_ciphertext := ciphertext\<rparr>)
                        (encs d)\<rparr>, n)
         else None)"

definition update_share_times :: "string \<Rightarrow> int \<Rightarrow> int option option \<Rightarrow> db \<Rightarrow> db \<times> nat" where
  "update_share_times i updated expires d =
     (d\<lparr>shares := update_rows r_id i
          (\<lambda>r. case expires of None \<Rightarrow> r\<lparr>r_updated := updated\<rparr>
                | Some e \<Rightarrow> r\<lparr>r_updated := updated, r_expires := e\<rparr>) (shares d)\<rparr>,
      count_rows r_id i (shares d))"

definition delete_share :: "string \<Rightarrow> db \<Rightarrow> db \<times> nat" where
  "delete_share i d =
     (if count_rows r_id i (shares d) = 0 then (d, 0)
      else (\<lparr>shares = delete_rows r_id i (shares d), texts = delete_rows t_share i (texts d),
             encs = delete_rows e_share i (encs d), files = delete_rows f_share i (files d)\<rparr>,
            count_rows r_id i (shares d)))"

section \<open>What the schema guarantees\<close>

definition schema_ok :: "db \<Rightarrow> bool" where
  "schema_ok d \<longleftrightarrow>
     distinct (map r_id (shares d)) \<and> distinct (map t_share (texts d))
     \<and> distinct (map e_share (encs d)) \<and> distinct (map f_share (files d)) \<and> distinct (map f_key (files d))
     \<and> (\<forall>r\<in>set (shares d). share_row_ok r)
     \<and> (\<forall>t\<in>set (texts d). text_row_ok t \<and> typed_share d (t_share t) ''TEXT'' ''STANDARD'')
     \<and> (\<forall>e\<in>set (encs d). enc_row_ok e \<and> typed_share d (e_share e) ''TEXT'' ''ENCRYPTED'')
     \<and> (\<forall>f\<in>set (files d). file_row_ok f \<and> typed_share d (f_share f) ''FILE'' ''STANDARD'')"

lemma schema_ok_empty: "schema_ok empty_db"
  by (simp add: schema_ok_def empty_db_def)

lemma typed_share_cong: "shares d = shares d' \<Longrightarrow> typed_share d = typed_share d'"
  by (simp add: fun_eq_iff typed_share_def)

lemma typed_share_insert:
  "insert_share r d = Some d' \<Longrightarrow> typed_share d i k p \<Longrightarrow> typed_share d' i k p"
  by (auto simp: typed_share_def insert_share_def row_of_append split: option.splits if_splits
      dest: row_of_Some_key)

lemma schema_insert_share [preserves]:
  assumes "insert_share r d = Some d'" and ok: "schema_ok d"
  shows "schema_ok d'"
proof -
  from assms(1) have r: "share_row_ok r" "r_id r \<notin> keys_of r_id (shares d)"
    and d': "d' = d\<lparr>shares := shares d @ [r]\<rparr>"
    by (auto simp: insert_share_def split: if_splits)
  from ok r typed_share_insert [OF assms(1)] show ?thesis
    by (auto simp: schema_ok_def d' keys_of_def)
qed

lemma schema_insert_text [preserves]:
  "insert_text t d = Some d' \<Longrightarrow> schema_ok d \<Longrightarrow> schema_ok d'"
  by (auto simp: insert_text_def schema_ok_def keys_of_def typed_share_def split: if_splits)

lemma schema_insert_enc [preserves]:
  "insert_enc t d = Some d' \<Longrightarrow> schema_ok d \<Longrightarrow> schema_ok d'"
  by (auto simp: insert_enc_def schema_ok_def keys_of_def typed_share_def split: if_splits)

lemma schema_insert_file [preserves]:
  "insert_file t d = Some d' \<Longrightarrow> schema_ok d \<Longrightarrow> schema_ok d'"
  by (auto simp: insert_file_def schema_ok_def keys_of_def typed_share_def split: if_splits)

lemma in_update_rows: "x \<in> set (update_rows key k f rows) \<Longrightarrow>
    (\<exists>r\<in>set rows. key r \<noteq> k \<and> x = r) \<or> (\<exists>r\<in>set rows. key r = k \<and> x = f r)"
  by (auto simp: update_rows_def)

lemma schema_update_text [preserves]:
  assumes "update_text i format cont d = Some (d', n)" and ok: "schema_ok d"
  shows "schema_ok d'"
proof (cases "count_rows t_share i (texts d) = 0")
  case True
  with assms show ?thesis by (simp add: update_text_def)
next
  case False
  let ?f = "\<lambda>t. t\<lparr>t_format := format, t_content := cont\<rparr>"
  from False assms(1) have row: "text_row_ok \<lparr>t_share = i, t_format = format, t_content = cont\<rparr>"
    and d': "d' = d\<lparr>texts := update_rows t_share i ?f (texts d)\<rparr>"
    by (auto simp: update_text_def Let_def split: if_splits)
  have "text_row_ok t \<and> typed_share d' (t_share t) ''TEXT'' ''STANDARD''"
    if "t \<in> set (texts d')" for t
    using in_update_rows [of t t_share i ?f "texts d"] that row ok
    by (auto simp: d' schema_ok_def text_row_ok_def typed_share_def)
  then show ?thesis
    using ok map_key_update [of t_share ?f i "texts d"]
    by (auto simp: schema_ok_def d' typed_share_def)
qed

lemma schema_update_enc [preserves]:
  assumes "update_enc i protocol nonce ciphertext d = Some (d', n)" and ok: "schema_ok d"
  shows "schema_ok d'"
proof (cases "count_rows e_share i (encs d) = 0")
  case True
  with assms show ?thesis by (simp add: update_enc_def)
next
  case False
  let ?f = "\<lambda>e. e\<lparr>e_protocol := protocol, e_nonce := nonce, e_ciphertext := ciphertext\<rparr>"
  from False assms(1) have
    row: "enc_row_ok \<lparr>e_share = i, e_protocol = protocol, e_nonce = nonce, e_ciphertext = ciphertext\<rparr>"
    and d': "d' = d\<lparr>encs := update_rows e_share i ?f (encs d)\<rparr>"
    by (auto simp: update_enc_def Let_def split: if_splits)
  have "enc_row_ok e \<and> typed_share d' (e_share e) ''TEXT'' ''ENCRYPTED''"
    if "e \<in> set (encs d')" for e
    using in_update_rows [of e e_share i ?f "encs d"] that row ok
    by (auto simp: d' schema_ok_def enc_row_ok_def typed_share_def)
  then show ?thesis
    using ok map_key_update [of e_share ?f i "encs d"]
    by (auto simp: schema_ok_def d' typed_share_def)
qed

lemma typed_share_times:
  "typed_share (fst (update_share_times i u e d)) j k p = typed_share d j k p"
proof -
  let ?f = "\<lambda>r. case e of None \<Rightarrow> r\<lparr>r_updated := u\<rparr> | Some x \<Rightarrow> r\<lparr>r_updated := u, r_expires := x\<rparr>"
  have "r_id (?f r) = r_id r \<and> r_kind (?f r) = r_kind r \<and> r_privacy (?f r) = r_privacy r" for r
    by (simp split: option.splits)
  then show ?thesis
    by (auto simp: typed_share_def update_share_times_def row_of_update split: option.splits
        dest: row_of_Some_key)
qed

lemma schema_update_share_times [preserves]:
  assumes ok: "schema_ok d"
  shows "schema_ok (fst (update_share_times i u e d))"
proof -
  let ?f = "\<lambda>r. case e of None \<Rightarrow> r\<lparr>r_updated := u\<rparr> | Some x \<Rightarrow> r\<lparr>r_updated := u, r_expires := x\<rparr>"
  have k: "r_id (?f r) = r_id r" for r by (simp split: option.splits)
  have c: "share_row_ok (?f r) = share_row_ok r" for r by (simp add: share_row_ok_def split: option.splits)
  have "share_row_ok r" if "r \<in> set (update_rows r_id i ?f (shares d))" for r
    using in_update_rows [OF that] ok c by (auto simp: schema_ok_def)
  moreover have "map r_id (update_rows r_id i ?f (shares d)) = map r_id (shares d)"
    by (rule map_key_update) (rule k)
  ultimately show ?thesis
    using ok typed_share_times [of i u e d] by (simp add: schema_ok_def) (simp add: update_share_times_def)
qed

lemma typed_share_delete:
  "typed_share (fst (delete_share i d)) j k p \<longleftrightarrow> typed_share d j k p \<and> j \<noteq> i"
proof (cases "count_rows r_id i (shares d) = 0")
  case True
  then have "row_of r_id i (shares d) = None" by (rule count_rows_0)
  with True show ?thesis by (auto simp: delete_share_def typed_share_def)
qed (auto simp: delete_share_def typed_share_def row_of_delete split: option.splits)

lemma schema_delete_share [preserves]:
  assumes ok: "schema_ok d"
  shows "schema_ok (fst (delete_share i d))"
proof (cases "count_rows r_id i (shares d) = 0")
  case False
  with ok show ?thesis
    using typed_share_delete [of i d]
    by (simp add: schema_ok_def distinct_delete_rows distinct_delete_rows_other)
       (simp add: delete_share_def distinct_delete_rows distinct_delete_rows_other)
qed (use ok in \<open>simp add: delete_share_def\<close>)

section \<open>What the services keep\<close>

text \<open>
  The schema alone allows a Share without its payload.  The services never commit one: every
  Share has the payload row of its kind, and every id is canonical.
\<close>

definition has_payload :: "db \<Rightarrow> share_row \<Rightarrow> bool" where
  "has_payload d r \<longleftrightarrow>
     (if r_kind r = ''FILE'' then r_id r \<in> keys_of f_share (files d)
      else if r_privacy r = ''STANDARD'' then r_id r \<in> keys_of t_share (texts d)
      else r_id r \<in> keys_of e_share (encs d))"

definition canonical_id :: "string \<Rightarrow> bool" where
  "canonical_id i \<longleftrightarrow> ParseShareID i = Inr (ShareID i)"

definition db_ok :: "db \<Rightarrow> bool" where
  "db_ok d \<longleftrightarrow> schema_ok d \<and> (\<forall>r\<in>set (shares d). has_payload d r \<and> canonical_id (r_id r))"

lemma db_ok_empty: "db_ok empty_db"
  using schema_ok_empty by (simp add: db_ok_def) (simp add: empty_db_def)

lemma db_ok_schema: "db_ok d \<Longrightarrow> schema_ok d"
  by (simp add: db_ok_def)

lemma schema_share_row: "schema_ok d \<Longrightarrow> row_of r_id i (shares d) = Some r \<Longrightarrow> share_row_ok r \<and> r_id r = i"
  by (auto simp: schema_ok_def dest: row_of_SomeD)

lemma schema_text_typed:
  "schema_ok d \<Longrightarrow> i \<in> keys_of t_share (texts d) \<Longrightarrow> typed_share d i ''TEXT'' ''STANDARD''"
  by (auto simp: schema_ok_def in_keys_of)

lemma schema_enc_typed:
  "schema_ok d \<Longrightarrow> i \<in> keys_of e_share (encs d) \<Longrightarrow> typed_share d i ''TEXT'' ''ENCRYPTED''"
  by (auto simp: schema_ok_def in_keys_of)

lemma schema_file_typed:
  "schema_ok d \<Longrightarrow> i \<in> keys_of f_share (files d) \<Longrightarrow> typed_share d i ''FILE'' ''STANDARD''"
  by (auto simp: schema_ok_def in_keys_of)

lemma typed_share_row:
  "typed_share d i k p \<longleftrightarrow> (\<exists>r. row_of r_id i (shares d) = Some r \<and> r_kind r = k \<and> r_privacy r = p)"
  by (auto simp: typed_share_def split: option.splits dest: row_of_Some_key)

lemma typed_share_in: "typed_share d i k p \<Longrightarrow> i \<in> keys_of r_id (shares d)"
  by (auto simp: typed_share_row dest: row_of_Some_key)

lemma db_ok_delete_share [preserves]:
  assumes ok: "db_ok d"
  shows "db_ok (fst (delete_share i d))"
proof (cases "count_rows r_id i (shares d) = 0")
  case False
  with ok schema_delete_share [of d i] show ?thesis
    by (auto simp: db_ok_def delete_share_def has_payload_def)
qed (use ok in \<open>simp add: delete_share_def\<close>)

lemma db_ok_update_share_times [preserves]:
  assumes ok: "db_ok d"
  shows "db_ok (fst (update_share_times i u e d))"
proof -
  let ?f = "\<lambda>r. case e of None \<Rightarrow> r\<lparr>r_updated := u\<rparr> | Some x \<Rightarrow> r\<lparr>r_updated := u, r_expires := x\<rparr>"
  have k: "has_payload d (?f r) = has_payload d r \<and> r_id (?f r) = r_id r" for r
    by (simp add: has_payload_def split: option.splits)
  have "has_payload d r \<and> canonical_id (r_id r)" if "r \<in> set (update_rows r_id i ?f (shares d))" for r
    using in_update_rows [OF that] ok k by (auto simp: db_ok_def)
  moreover have "has_payload (fst (update_share_times i u e d)) = has_payload d"
    by (simp add: fun_eq_iff has_payload_def update_share_times_def)
  ultimately show ?thesis
    using ok schema_update_share_times [of d i u e]
    by (simp add: db_ok_def) (simp add: update_share_times_def)
qed

lemma keys_update_text: "update_text i fmt cont d = Some (d', n) \<Longrightarrow>
    keys_of t_share (texts d') = keys_of t_share (texts d) \<and> shares d' = shares d
    \<and> encs d' = encs d \<and> files d' = files d"
  by (auto simp: update_text_def Let_def keys_of_update split: if_splits)

lemma keys_update_enc: "update_enc i p no c d = Some (d', n) \<Longrightarrow>
    keys_of e_share (encs d') = keys_of e_share (encs d) \<and> shares d' = shares d
    \<and> texts d' = texts d \<and> files d' = files d"
  by (auto simp: update_enc_def Let_def keys_of_update split: if_splits)

lemma db_ok_update_text [preserves]:
  "update_text i fmt cont d = Some (d', n) \<Longrightarrow> db_ok d \<Longrightarrow> db_ok d'"
  using schema_update_text [of i fmt cont d d' n] keys_update_text [of i fmt cont d d' n]
  by (simp add: db_ok_def has_payload_def)

lemma db_ok_update_enc [preserves]:
  "update_enc i p no c d = Some (d', n) \<Longrightarrow> db_ok d \<Longrightarrow> db_ok d'"
  using schema_update_enc [of i p no c d d' n] keys_update_enc [of i p no c d d' n]
  by (simp add: db_ok_def has_payload_def)

text \<open>A transaction that inserts a Share and then its payload.\<close>

lemma db_ok_insert_text:
  assumes "insert_share r d = Some d1" "insert_text t d1 = Some d2" "t_share t = r_id r"
    and "canonical_id (r_id r)" "db_ok d"
  shows "db_ok d2"
proof -
  have s: "schema_ok d2"
    using assms by (meson db_ok_schema schema_insert_share schema_insert_text)
  have new: "r_kind r = ''TEXT''" "r_privacy r = ''STANDARD''"
    using assms(1-3) by (auto simp: insert_share_def insert_text_def typed_share_def row_of_append
        row_of_Cons split: if_splits option.splits dest: row_of_Some_key)
  show ?thesis using assms s new
    by (auto simp: db_ok_def insert_share_def insert_text_def has_payload_def split: if_splits)
qed

lemma db_ok_insert_enc:
  assumes "insert_share r d = Some d1" "insert_enc t d1 = Some d2" "e_share t = r_id r"
    and "canonical_id (r_id r)" "db_ok d"
  shows "db_ok d2"
proof -
  have s: "schema_ok d2"
    using assms by (meson db_ok_schema schema_insert_share schema_insert_enc)
  have new: "r_kind r = ''TEXT''" "r_privacy r = ''ENCRYPTED''"
    using assms(1-3) by (auto simp: insert_share_def insert_enc_def typed_share_def row_of_append
        row_of_Cons split: if_splits option.splits dest: row_of_Some_key)
  show ?thesis using assms s new
    by (auto simp: db_ok_def insert_share_def insert_enc_def has_payload_def split: if_splits)
qed

lemma db_ok_insert_file:
  assumes "insert_share r d = Some d1" "insert_file t d1 = Some d2" "f_share t = r_id r"
    and "canonical_id (r_id r)" "db_ok d"
  shows "db_ok d2"
proof -
  have s: "schema_ok d2"
    using assms by (meson db_ok_schema schema_insert_share schema_insert_file)
  have new: "r_kind r = ''FILE''" "r_privacy r = ''STANDARD''"
    using assms(1-3) by (auto simp: insert_share_def insert_file_def typed_share_def row_of_append
        row_of_Cons split: if_splits option.splits dest: row_of_Some_key)
  show ?thesis using assms s new
    by (auto simp: db_ok_def insert_share_def insert_file_def has_payload_def split: if_splits)
qed

end
