(* ===== verification/ShareService.thy ===== *)
theory ShareService
  imports Database
begin

text \<open>
  Package \<open>internal/share\<close> (\<open>service.go\<close>): the Share service over the SQLite tables and the
  object store.  Every operation takes the environment of the call (clock, random bytes,
  digests, failures of SQLite and of the file system) and the service, and returns the
  service after the call with the result.  A transaction works on a copy of the tables and
  is written back only by a successful commit.
\<close>

section \<open>Data\<close>

definition MaxTextBytes :: nat where "MaxTextBytes = 1048576"
definition EncryptedNonceBytes :: nat where "EncryptedNonceBytes = 12"
definition MinEncryptedCipherBytes :: nat where "MinEncryptedCipherBytes = 19"
definition MaxEncryptedCipherBytes :: nat where "MaxEncryptedCipherBytes = MaxTextBytes + 2 + 16"
definition MaxFileBytes :: nat where "MaxFileBytes = 67108864"

lemmas share_limits = MaxTextBytes_def EncryptedNonceBytes_def MinEncryptedCipherBytes_def
  MaxEncryptedCipherBytes_def MaxFileBytes_def

record retention_policy =
  Public :: bool
  DefaultTTL :: duration
  MaxTTL :: duration

record text_body =
  Format :: string
  Content :: string

record encrypted_text =
  Protocol :: string
  Nonce :: bytes
  Ciphertext :: bytes

record file_meta =
  StorageKey :: string
  Filename :: string
  Size :: int
  MediaType :: string
  SHA256 :: bytes

record share =
  ID :: share_id
  PayloadKind :: payload_kind
  PrivacyMode :: privacy_mode
  Text :: "text_body option"
  EncryptedText :: "encrypted_text option"
  File :: "file_meta option"
  CreatedAt :: time
  UpdatedAt :: time
  ExpiresAt :: "time option"

record patch =
  PatchText :: "text_body option"
  PatchEncryptedText :: "encrypted_text option"
  ExpirationSet :: bool
  PatchExpiresAt :: "time option"

record service =
  sv_db :: db
  sv_store :: "fs option"
  sv_retention :: retention_policy

text \<open>
  The environment of one call.  \<open>ev_db p\<close> holds when SQLite fails at the point \<open>p\<close> for a
  reason other than the schema; \<open>ev_io k\<close> is the operating system during the \<open>k\<close>-th call
  the operation makes on the object store.  \<open>ev_detect\<close> is \<open>http.DetectContentType\<close>.
\<close>

datatype db_point =
    AtBegin | AtInsertShare | AtInsertPayload | AtUpdatePayload | AtUpdateShare | AtSelectAuth
  | AtSelectShare | AtSelectKey | AtDelete | AtRowsAffected | AtCommit | AtQuery

record env =
  ev_now :: time
  ev_id_rnd :: "bytes option"
  ev_token_rnd :: "bytes option"
  ev_sha :: "bytes \<Rightarrow> bytes"
  ev_detect :: "bytes \<Rightarrow> string"
  ev_db :: "db_point \<Rightarrow> bool"
  ev_io :: "nat \<Rightarrow> io"

definition serverNow :: "env \<Rightarrow> time" where
  "serverNow env = truncate_ms (ev_now env)"

section \<open>Validation\<close>

definition validateText :: "text_body \<Rightarrow> err option" where
  "validateText t =
     (case ParseTextFormat (Format t) of
        Inl e \<Rightarrow> Some e
      | Inr f \<Rightarrow>
          if length (Content t) < 1 \<or> length (Content t) > MaxTextBytes then Some ErrInvalidText else None)"

definition validateEncryptedText :: "encrypted_text \<Rightarrow> err option" where
  "validateEncryptedText v =
     (if Protocol v \<noteq> EncryptedTextProtocolV1 \<or> length (Nonce v) \<noteq> EncryptedNonceBytes
         \<or> length (Ciphertext v) < MinEncryptedCipherBytes
         \<or> length (Ciphertext v) > MaxEncryptedCipherBytes
      then Some ErrInvalidEncryptedText else None)"

definition validateUpdatedExpiration ::
  "retention_policy \<Rightarrow> time option \<Rightarrow> time \<Rightarrow> time \<Rightarrow> err + time option" where
  "validateUpdatedExpiration policy value createdAt now =
     (case value of
        None \<Rightarrow> if Public policy then Inl ErrRetention else Inr None
      | Some v \<Rightarrow>
          (let normalized = truncate_ms v
           in if \<not> normalized > now then Inl ErrExpiration
              else if Public policy \<and> normalized > createdAt + MaxTTL policy then Inl ErrRetention
              else Inr (Some normalized)))"

definition normalizeExpiration :: "retention_policy \<Rightarrow> time option \<Rightarrow> time \<Rightarrow> err + time option" where
  "normalizeExpiration policy value now =
     (if Public policy
      then (case value of
              None \<Rightarrow> Inr (Some (now + DefaultTTL policy))
            | Some v \<Rightarrow> validateUpdatedExpiration policy (Some v) now now)
      else (case value of
              None \<Rightarrow> Inr None
            | Some v \<Rightarrow>
                (let normalized = truncate_ms v
                 in if \<not> normalized > now then Inl ErrExpiration else Inr (Some normalized))))"

definition nullableMillis :: "time option \<Rightarrow> int option" where
  "nullableMillis value = map_option unix_milli value"

definition expirationTime :: "int option \<Rightarrow> time option" where
  "expirationTime value = map_option from_milli value"

definition isExpired :: "int option \<Rightarrow> time \<Rightarrow> bool" where
  "isExpired value now = IsExpired (expirationTime value) now"

definition requireOneRow :: "env \<Rightarrow> nat \<Rightarrow> string \<Rightarrow> err option" where
  "requireOneRow env rows operation =
     (if ev_db env AtRowsAffected then Some (Wrapped ''count rows'' (Message operation))
      else if rows \<noteq> 1 then Some (Message operation)
      else None)"

section \<open>Loading\<close>

record authorization =
  au_kind :: payload_kind
  au_privacy :: privacy_mode
  au_verifier :: bytes
  au_created :: time

definition loadAuthorization :: "env \<Rightarrow> db \<Rightarrow> share_id \<Rightarrow> time \<Rightarrow> err + authorization" where
  "loadAuthorization env d i now =
     (if ev_db env AtSelectAuth then Inl (Wrapped ''load Share authorization'' (Message ''sql''))
      else case row_of r_id (id_string i) (shares d) of
        None \<Rightarrow> Inl ErrNotFound
      | Some r \<Rightarrow>
        (case ParsePayloadKind (r_kind r) of
           Inl e \<Rightarrow> Inl (Wrapped ''load payload kind'' e)
         | Inr kind \<Rightarrow>
           (case ParsePrivacyMode (r_privacy r) of
              Inl e \<Rightarrow> Inl (Wrapped ''load privacy mode'' e)
            | Inr privacy \<Rightarrow>
                if length (r_verifier r) \<noteq> 32 then Inl (Message ''load owner verifier: invalid length'')
                else if isExpired (r_expires r) now then Inl ErrExpired
                else Inr \<lparr>au_kind = kind, au_privacy = privacy, au_verifier = r_verifier r,
                          au_created = from_milli (r_created r)\<rparr>)))"

text \<open>
  The row of the LEFT JOIN: the payload rows are looked up by the Share id and may be absent.
\<close>

definition loadActive :: "env \<Rightarrow> db \<Rightarrow> share_id \<Rightarrow> time \<Rightarrow> err + share" where
  "loadActive env d i now =
     (if ev_db env AtSelectShare then Inl (Wrapped ''load Share'' (Message ''sql''))
      else case row_of r_id (id_string i) (shares d) of
        None \<Rightarrow> Inl ErrNotFound
      | Some r \<Rightarrow>
        (let p = row_of t_share (r_id r) (texts d); e = row_of e_share (r_id r) (encs d);
             f = row_of f_share (r_id r) (files d)
         in if isExpired (r_expires r) now then Inl ErrExpired
            else case ParseShareID (r_id r) of
              Inl er \<Rightarrow> Inl (Wrapped ''load Share ID'' er)
            | Inr parsedID \<Rightarrow>
              (case ParsePayloadKind (r_kind r) of
                 Inl er \<Rightarrow> Inl (Wrapped ''load payload kind'' er)
               | Inr kind \<Rightarrow>
                 (case ParsePrivacyMode (r_privacy r) of
                    Inl er \<Rightarrow> Inl (Wrapped ''load privacy mode'' er)
                  | Inr privacy \<Rightarrow>
                    (let value = \<lparr>ID = parsedID, PayloadKind = kind, PrivacyMode = privacy,
                          Text = None, EncryptedText = None, File = None,
                          CreatedAt = from_milli (r_created r), UpdatedAt = from_milli (r_updated r),
                          ExpiresAt = expirationTime (r_expires r)\<rparr>
                     in case kind of
                          PayloadText \<Rightarrow>
                            if f \<noteq> None then Inl ErrPayloadMismatch
                            else (case privacy of
                              PrivacyStandard \<Rightarrow>
                                (case (p, e) of
                                   (Some t, None) \<Rightarrow>
                                     (case ParseTextFormat (t_format t) of
                                        Inl er \<Rightarrow> Inl (Wrapped ''load text format'' er)
                                      | Inr fmt \<Rightarrow>
                                          Inr (value\<lparr>Text := Some \<lparr>Format = format_string fmt,
                                                                   Content = t_content t\<rparr>\<rparr>))
                                 | _ \<Rightarrow> Inl ErrPayloadMismatch)
                            | PrivacyEncrypted \<Rightarrow>
                                (case (p, e) of
                                   (None, Some c) \<Rightarrow>
                                     (let enc = \<lparr>Protocol = e_protocol c, Nonce = e_nonce c,
                                                 Ciphertext = e_ciphertext c\<rparr>
                                      in case validateEncryptedText enc of
                                           Some er \<Rightarrow> Inl (Wrapped ''load encrypted text'' er)
                                         | None \<Rightarrow> Inr (value\<lparr>EncryptedText := Some enc\<rparr>))
                                 | _ \<Rightarrow> Inl ErrPayloadMismatch))
                        | PayloadFile \<Rightarrow>
                            (case (privacy, p, e, f) of
                               (PrivacyStandard, None, None, Some g) \<Rightarrow>
                                 if length (f_sha g) \<noteq> 32 then Inl ErrPayloadMismatch
                                 else Inr (value\<lparr>File := Some \<lparr>StorageKey = f_key g,
                                        Filename = f_filename g, Size = f_size g,
                                        MediaType = f_media g, SHA256 = f_sha g\<rparr>\<rparr>)
                             | _ \<Rightarrow> Inl ErrPayloadMismatch))))))"

definition Get :: "env \<Rightarrow> service \<Rightarrow> share_id \<Rightarrow> err + share" where
  "Get env s i = loadActive env (sv_db s) i (serverNow env)"

definition AuthorizeOwner :: "env \<Rightarrow> service \<Rightarrow> share_id \<Rightarrow> string \<Rightarrow> err + payload_kind \<times> privacy_mode" where
  "AuthorizeOwner env s i candidate =
     (case loadAuthorization env (sv_db s) i (serverNow env) of
        Inl e \<Rightarrow> Inl e
      | Inr record \<Rightarrow>
          if \<not> VerifyOwnerToken (ev_sha env) candidate (au_verifier record) then Inl ErrUnauthorized
          else Inr (au_kind record, au_privacy record))"

section \<open>Creating Text Shares\<close>

definition share_to_row :: "share \<Rightarrow> bytes \<Rightarrow> share_row" where
  "share_to_row value verifier =
     \<lparr>r_id = id_string (ID value), r_kind = kind_string (PayloadKind value),
      r_privacy = privacy_string (PrivacyMode value), r_verifier = verifier,
      r_created = unix_milli (CreatedAt value), r_updated = unix_milli (UpdatedAt value),
      r_expires = nullableMillis (ExpiresAt value)\<rparr>"

definition insertMetadata :: "env \<Rightarrow> db \<Rightarrow> share \<Rightarrow> bytes \<Rightarrow> err + db" where
  "insertMetadata env d value verifier =
     (if ev_db env AtInsertShare then Inl (Wrapped ''insert Share metadata'' (Message ''sql''))
      else case insert_share (share_to_row value verifier) d of
        None \<Rightarrow> Inl (Wrapped ''insert Share metadata'' (Message ''constraint''))
      | Some d1 \<Rightarrow> Inr d1)"

text \<open>\<open>(*Service).insert\<close>: one transaction, returning the committed tables.\<close>

definition insert_tx :: "env \<Rightarrow> db \<Rightarrow> share \<Rightarrow> bytes \<Rightarrow> err + db" where
  "insert_tx env d value verifier =
     (if ev_db env AtBegin then Inl (Wrapped ''begin Share creation'' (Message ''sql''))
      else case insertMetadata env d value verifier of
        Inl e \<Rightarrow> Inl e
      | Inr d1 \<Rightarrow>
        (case (case PrivacyMode value of
                 PrivacyStandard \<Rightarrow>
                   (case (Text value, EncryptedText value) of
                      (Some t, None) \<Rightarrow>
                        if ev_db env AtInsertPayload
                        then Inl (Wrapped ''insert text payload'' (Message ''sql''))
                        else (case insert_text \<lparr>t_share = id_string (ID value), t_format = Format t,
                                               t_content = Content t\<rparr> d1 of
                                None \<Rightarrow> Inl (Wrapped ''insert text payload'' (Message ''constraint''))
                              | Some d2 \<Rightarrow> Inr d2)
                    | _ \<Rightarrow> Inl ErrPayloadMismatch)
               | PrivacyEncrypted \<Rightarrow>
                   (case (EncryptedText value, Text value) of
                      (Some c, None) \<Rightarrow>
                        if ev_db env AtInsertPayload
                        then Inl (Wrapped ''insert encrypted text payload'' (Message ''sql''))
                        else (case insert_enc \<lparr>e_share = id_string (ID value), e_protocol = Protocol c,
                                              e_nonce = Nonce c, e_ciphertext = Ciphertext c\<rparr> d1 of
                                None \<Rightarrow> Inl (Wrapped ''insert encrypted text payload'' (Message ''constraint''))
                              | Some d2 \<Rightarrow> Inr d2)
                    | _ \<Rightarrow> Inl ErrPayloadMismatch)) of
           Inl e \<Rightarrow> Inl e
         | Inr d2 \<Rightarrow>
             if ev_db env AtCommit then Inl (Wrapped ''commit Share creation'' (Message ''sql''))
             else Inr d2))"

definition create ::
  "env \<Rightarrow> service \<Rightarrow> privacy_mode \<Rightarrow> text_body option \<Rightarrow> encrypted_text option \<Rightarrow> time option
     \<Rightarrow> service \<times> (err + share \<times> owner_token)" where
  "create env s privacy txt encrypted expiration =
     (let now = serverNow env
      in case normalizeExpiration (sv_retention s) expiration now of
           Inl e \<Rightarrow> (s, Inl e)
         | Inr expiresAt \<Rightarrow>
           (case GenerateShareID (ev_id_rnd env) of
              Inl e \<Rightarrow> (s, Inl e)
            | Inr i \<Rightarrow>
              (case GenerateOwnerToken (ev_token_rnd env) of
                 Inl e \<Rightarrow> (s, Inl e)
               | Inr token \<Rightarrow>
                 (let created = \<lparr>ID = i, PayloadKind = PayloadText, PrivacyMode = privacy, Text = txt,
                        EncryptedText = encrypted, File = None, CreatedAt = now, UpdatedAt = now,
                        ExpiresAt = expiresAt\<rparr>
                  in case insert_tx env (sv_db s) created (owner_verifier (ev_sha env) token) of
                       Inl e \<Rightarrow> (s, Inl e)
                     | Inr d \<Rightarrow> (s\<lparr>sv_db := d\<rparr>, Inr (created, token))))))"

definition Create :: "env \<Rightarrow> service \<Rightarrow> text_body \<Rightarrow> time option \<Rightarrow> service \<times> (err + share \<times> owner_token)" where
  "Create env s txt expiration =
     (case validateText txt of
        Some e \<Rightarrow> (s, Inl e)
      | None \<Rightarrow> create env s PrivacyStandard (Some txt) None expiration)"

definition CreateEncrypted ::
  "env \<Rightarrow> service \<Rightarrow> encrypted_text \<Rightarrow> time option \<Rightarrow> service \<times> (err + share \<times> owner_token)" where
  "CreateEncrypted env s encrypted expiration =
     (case validateEncryptedText encrypted of
        Some e \<Rightarrow> (s, Inl e)
      | None \<Rightarrow> create env s PrivacyEncrypted None (Some encrypted) expiration)"

section \<open>Updating\<close>

definition updateStandardText :: "env \<Rightarrow> db \<Rightarrow> share_id \<Rightarrow> text_body \<Rightarrow> err + db" where
  "updateStandardText env d i txt =
     (if ev_db env AtUpdatePayload then Inl (Wrapped ''update text payload'' (Message ''sql''))
      else case update_text (id_string i) (Format txt) (Content txt) d of
        None \<Rightarrow> Inl (Wrapped ''update text payload'' (Message ''constraint''))
      | Some (d1, n) \<Rightarrow>
          (case requireOneRow env n ''update text payload'' of Some e \<Rightarrow> Inl e | None \<Rightarrow> Inr d1))"

definition updateEncryptedText :: "env \<Rightarrow> db \<Rightarrow> share_id \<Rightarrow> encrypted_text \<Rightarrow> err + db" where
  "updateEncryptedText env d i encrypted =
     (if ev_db env AtUpdatePayload then Inl (Wrapped ''update encrypted text payload'' (Message ''sql''))
      else case update_enc (id_string i) (Protocol encrypted) (Nonce encrypted) (Ciphertext encrypted) d of
        None \<Rightarrow> Inl (Wrapped ''update encrypted text payload'' (Message ''constraint''))
      | Some (d1, n) \<Rightarrow>
          (case requireOneRow env n ''update encrypted text payload'' of Some e \<Rightarrow> Inl e | None \<Rightarrow> Inr d1))"

text \<open>The \<open>switch\<close> of \<open>Update\<close> on the kind and privacy of the stored Share.\<close>

definition update_payload :: "env \<Rightarrow> db \<Rightarrow> share_id \<Rightarrow> authorization \<Rightarrow> patch \<Rightarrow> err + db" where
  "update_payload env d i authz pt =
     (if au_kind authz = PayloadFile then
        (if PatchText pt \<noteq> None \<or> PatchEncryptedText pt \<noteq> None then Inl ErrPayloadMismatch else Inr d)
      else (case au_privacy authz of
        PrivacyStandard \<Rightarrow>
          if PatchEncryptedText pt \<noteq> None then Inl ErrPayloadMismatch
          else (case PatchText pt of
                  None \<Rightarrow> Inr d
                | Some t \<Rightarrow>
                    (case validateText t of Some e \<Rightarrow> Inl e | None \<Rightarrow> updateStandardText env d i t))
      | PrivacyEncrypted \<Rightarrow>
          if PatchText pt \<noteq> None then Inl ErrPayloadMismatch
          else (case PatchEncryptedText pt of
                  None \<Rightarrow> Inr d
                | Some c \<Rightarrow>
                    (case validateEncryptedText c of Some e \<Rightarrow> Inl e | None \<Rightarrow> updateEncryptedText env d i c))))"

definition Update :: "env \<Rightarrow> service \<Rightarrow> share_id \<Rightarrow> string \<Rightarrow> patch \<Rightarrow> service \<times> (err + share)" where
  "Update env s i candidate pt =
     (let now = serverNow env
      in if PatchText pt = None \<and> PatchEncryptedText pt = None \<and> \<not> ExpirationSet pt
         then (s, Inl ErrEmptyPatch)
         else if ev_db env AtBegin then (s, Inl (Wrapped ''begin Share update'' (Message ''sql'')))
         else case loadAuthorization env (sv_db s) i now of
           Inl e \<Rightarrow> (s, Inl e)
         | Inr authz \<Rightarrow>
             if \<not> VerifyOwnerToken (ev_sha env) candidate (au_verifier authz) then (s, Inl ErrUnauthorized)
             else (case update_payload env (sv_db s) i authz pt of
               Inl e \<Rightarrow> (s, Inl e)
             | Inr d1 \<Rightarrow>
               (case (if ExpirationSet pt
                      then (case validateUpdatedExpiration (sv_retention s) (PatchExpiresAt pt) (au_created authz) now of
                              Inl e \<Rightarrow> Inl e
                            | Inr expiresAt \<Rightarrow> Inr (Some (nullableMillis expiresAt)))
                      else Inr None) of
                  Inl e \<Rightarrow> (s, Inl e)
                | Inr expires \<Rightarrow>
                    if ev_db env AtUpdateShare then (s, Inl (Wrapped ''update Share metadata'' (Message ''sql'')))
                    else (case update_share_times (id_string i) (unix_milli now) expires d1 of
                      (d2, n) \<Rightarrow>
                        (case requireOneRow env n ''update Share metadata'' of
                           Some e \<Rightarrow> (s, Inl e)
                         | None \<Rightarrow>
                           (case loadActive env d2 i now of
                              Inl e \<Rightarrow> (s, Inl e)
                            | Inr updated \<Rightarrow>
                                if ev_db env AtCommit
                                then (s, Inl (Wrapped ''commit Share update'' (Message ''sql'')))
                                else (s\<lparr>sv_db := d2\<rparr>, Inr updated)))))))"

section \<open>Deleting\<close>

definition Delete :: "env \<Rightarrow> service \<Rightarrow> share_id \<Rightarrow> string \<Rightarrow> service \<times> err option" where
  "Delete env s i candidate =
     (let now = serverNow env
      in if ev_db env AtBegin then (s, Some (Wrapped ''begin Share delete'' (Message ''sql'')))
         else case loadAuthorization env (sv_db s) i now of
           Inl e \<Rightarrow> (s, Some e)
         | Inr authz \<Rightarrow>
             if \<not> VerifyOwnerToken (ev_sha env) candidate (au_verifier authz) then (s, Some ErrUnauthorized)
             else (case (if au_kind authz = PayloadFile
                         then (if ev_db env AtSelectKey then Inl (Wrapped ''load File storage key'' (Message ''sql''))
                               else case row_of f_share (id_string i) (files (sv_db s)) of
                                      None \<Rightarrow> Inl (Wrapped ''load File storage key'' (Message ''no rows''))
                                    | Some f \<Rightarrow> Inr (f_key f))
                         else Inr []) of
               Inl e \<Rightarrow> (s, Some e)
             | Inr storageKey \<Rightarrow>
                 if ev_db env AtDelete then (s, Some (Wrapped ''delete Share'' (Message ''sql'')))
                 else (case delete_share (id_string i) (sv_db s) of
                   (d1, n) \<Rightarrow>
                     (case requireOneRow env n ''delete Share'' of
                        Some e \<Rightarrow> (s, Some e)
                      | None \<Rightarrow>
                          if ev_db env AtCommit then (s, Some (Wrapped ''commit Share delete'' (Message ''sql'')))
                          else if storageKey = [] then (s\<lparr>sv_db := d1\<rparr>, None)
                          else (case sv_store s of
                            None \<Rightarrow> (s\<lparr>sv_db := d1\<rparr>,
                                     Some (CleanupError storageKey (Message ''object storage is unavailable'')))
                          | Some fs \<Rightarrow>
                              (case store_delete (ev_io env 0) fs storageKey of
                                 (fs1, ce) \<Rightarrow>
                                   (s\<lparr>sv_db := d1, sv_store := Some fs1\<rparr>,
                                    case ce of None \<Rightarrow> None
                                    | Some e \<Rightarrow> Some (CleanupError storageKey e))))))))"

section \<open>File Shares\<close>

definition StageFile ::
  "env \<Rightarrow> bytes option \<Rightarrow> bytes option list \<Rightarrow> source \<Rightarrow> service \<Rightarrow> service \<times> (err + staged)" where
  "StageFile env key_rnd sufs source s =
     (case sv_store s of
        None \<Rightarrow> (s, Inl (Message ''object storage is unavailable''))
      | Some fs \<Rightarrow>
          (case Stage (ev_io env 0) (ev_now env) (ev_sha env) key_rnd sufs source MaxFileBytes fs of
             (fs1, r) \<Rightarrow> (s\<lparr>sv_store := Some fs1\<rparr>, r)))"

text \<open>
  The deferred calls of \<open>CreateFile\<close> that run on an error after the File metadata exists, in
  their order: the transaction is rolled back (the tables are those of \<open>s\<close>), the object is
  deleted by key, the staging file is aborted.
\<close>

definition uncommitted ::
  "env \<Rightarrow> service \<Rightarrow> staged \<Rightarrow> fs \<Rightarrow> err \<Rightarrow> service \<times> staged \<times> (err + share \<times> owner_token)" where
  "uncommitted env s st fs e =
     (case store_delete (ev_io env 1) fs (st_key st) of
        (fs1, ce) \<Rightarrow>
          (case Abort (ev_io env 2) st fs1 of
             (st2, fs2, ae) \<Rightarrow>
               (s\<lparr>sv_store := Some fs2\<rparr>, st2,
                Inl (case ce of None \<Rightarrow> e
                     | Some c \<Rightarrow> Joined e (Wrapped ''remove uncommitted File object'' c)))))"

definition create_file ::
  "env \<Rightarrow> service \<Rightarrow> fs \<Rightarrow> string \<Rightarrow> staged \<Rightarrow> time option
     \<Rightarrow> service \<times> staged \<times> (err + share \<times> owner_token)" where
  "create_file env s fs filename st expiration =
     (let now = serverNow env;
          early = (\<lambda>e. case Abort (ev_io env 2) st fs of
                        (st2, fs2, ae) \<Rightarrow> (s\<lparr>sv_store := Some fs2\<rparr>, st2, Inl e))
      in case normalizeExpiration (sv_retention s) expiration now of
           Inl e \<Rightarrow> early e
         | Inr expiresAt \<Rightarrow>
           (case GenerateShareID (ev_id_rnd env) of
              Inl e \<Rightarrow> early e
            | Inr i \<Rightarrow>
              (case GenerateOwnerToken (ev_token_rnd env) of
                 Inl e \<Rightarrow> early e
               | Inr token \<Rightarrow>
                 (let meta = \<lparr>StorageKey = st_key st, Filename = filename, Size = int (st_size st),
                        MediaType = ev_detect env (st_sniff st), SHA256 = st_digest st\<rparr>;
                      created = \<lparr>ID = i, PayloadKind = PayloadFile, PrivacyMode = PrivacyStandard,
                        Text = None, EncryptedText = None, File = Some meta, CreatedAt = now,
                        UpdatedAt = now, ExpiresAt = expiresAt\<rparr>
                  in if ev_db env AtBegin
                     then uncommitted env s st fs (Wrapped ''begin File Share creation'' (Message ''sql''))
                     else case insertMetadata env (sv_db s) created (owner_verifier (ev_sha env) token) of
                       Inl e \<Rightarrow> uncommitted env s st fs e
                     | Inr d1 \<Rightarrow>
                       (case Commit (ev_io env 0) st fs of
                          (st1, fs1, Some e) \<Rightarrow>
                            uncommitted env s st1 fs1 (Wrapped ''finalize File object'' e)
                        | (st1, fs1, None) \<Rightarrow>
                            if ev_db env AtInsertPayload
                            then uncommitted env s st1 fs1 (Wrapped ''insert File payload'' (Message ''sql''))
                            else (case insert_file \<lparr>f_share = id_string i, f_key = StorageKey meta,
                                         f_filename = filename, f_size = Size meta,
                                         f_media = MediaType meta, f_sha = SHA256 meta\<rparr> d1 of
                              None \<Rightarrow>
                                uncommitted env s st1 fs1 (Wrapped ''insert File payload'' (Message ''constraint''))
                            | Some d2 \<Rightarrow>
                                if ev_db env AtCommit
                                then uncommitted env s st1 fs1 (Wrapped ''commit File Share creation'' (Message ''sql''))
                                else (case Abort (ev_io env 2) st1 fs1 of
                                  (st2, fs2, ae) \<Rightarrow>
                                    (s\<lparr>sv_db := d2, sv_store := Some fs2\<rparr>, st2, Inr (created, token)))))))))"

definition CreateFile ::
  "env \<Rightarrow> service \<Rightarrow> string \<Rightarrow> staged option \<Rightarrow> time option
     \<Rightarrow> service \<times> staged option \<times> (err + share \<times> owner_token)" where
  "CreateFile env s filename stage expiration =
     (case (sv_store s, stage) of
        (Some fs, Some st) \<Rightarrow>
          (case create_file env s fs filename st expiration of (s1, st1, r) \<Rightarrow> (s1, Some st1, r))
      | _ \<Rightarrow> (s, stage, Inl (Message ''object storage is unavailable'')))"

definition OpenFile :: "env \<Rightarrow> service \<Rightarrow> share_id \<Rightarrow> err + share \<times> bytes" where
  "OpenFile env s i =
     (case Get env s i of
        Inl e \<Rightarrow> Inl e
      | Inr value \<Rightarrow>
          (case (File value, sv_store s) of
             (Some f, Some fs) \<Rightarrow>
               (case store_open (ev_io env 0) (StorageKey f) fs of
                  Inl e \<Rightarrow> Inl (Wrapped ''open File object'' e)
                | Inr object \<Rightarrow> Inr (value, object))
           | _ \<Rightarrow> Inl ErrNotFound))"

end
