(* ===== verification/ShareSpec.thy ===== *)
theory ShareSpec
  imports ShareService
begin

text \<open>
  The abstract Share store that \<open>internal/share\<close> implements: a finite map from Share ids to
  a Share and the verifier of its owner token.  \<open>abs_db\<close> reads it off the tables; the lemmas
  say what each statement and each loader does to or sees of the map.
\<close>

section \<open>The abstract store\<close>

type_synonym store_map = "string \<rightharpoonup> share \<times> bytes"

definition abs_share :: "db \<Rightarrow> share_row \<Rightarrow> share" where
  "abs_share d r =
     \<lparr>ID = ShareID (r_id r),
      PayloadKind = (if r_kind r = ''FILE'' then PayloadFile else PayloadText),
      PrivacyMode = (if r_privacy r = ''ENCRYPTED'' then PrivacyEncrypted else PrivacyStandard),
      Text = map_option (\<lambda>t. \<lparr>Format = t_format t, Content = t_content t\<rparr>) (row_of t_share (r_id r) (texts d)),
      EncryptedText = map_option (\<lambda>e. \<lparr>Protocol = e_protocol e, Nonce = e_nonce e, Ciphertext = e_ciphertext e\<rparr>)
        (row_of e_share (r_id r) (encs d)),
      File = map_option (\<lambda>f. \<lparr>StorageKey = f_key f, Filename = f_filename f, Size = f_size f,
          MediaType = f_media f, SHA256 = f_sha f\<rparr>) (row_of f_share (r_id r) (files d)),
      CreatedAt = from_milli (r_created r), UpdatedAt = from_milli (r_updated r),
      ExpiresAt = expirationTime (r_expires r)\<rparr>"

definition abs_db :: "db \<Rightarrow> store_map" where
  "abs_db d i = map_option (\<lambda>r. (abs_share d r, r_verifier r)) (row_of r_id i (shares d))"

text \<open>What a read of one id returns in the abstract store.\<close>

definition spec_get :: "store_map \<Rightarrow> string \<Rightarrow> time \<Rightarrow> err + share" where
  "spec_get m i now =
     (case m i of
        None \<Rightarrow> Inl ErrNotFound
      | Some (v, verifier) \<Rightarrow> if IsExpired (ExpiresAt v) now then Inl ErrExpired else Inr v)"

text \<open>The stored form of a created Share: times are kept to the millisecond.\<close>

definition stored :: "share \<Rightarrow> share" where
  "stored v = v\<lparr>CreatedAt := truncate_ms (CreatedAt v), UpdatedAt := truncate_ms (UpdatedAt v),
                ExpiresAt := map_option truncate_ms (ExpiresAt v)\<rparr>"

section \<open>The loaders read the abstract store\<close>

lemma schema_no_text: "schema_ok d \<Longrightarrow> row_of r_id i (shares d) = Some r \<Longrightarrow>
    r_kind r = ''FILE'' \<or> r_privacy r = ''ENCRYPTED'' \<Longrightarrow> row_of t_share i (texts d) = None"
  by (auto simp: row_of_None_iff typed_share_row dest!: schema_text_typed)

lemma schema_no_enc: "schema_ok d \<Longrightarrow> row_of r_id i (shares d) = Some r \<Longrightarrow>
    r_kind r = ''FILE'' \<or> r_privacy r = ''STANDARD'' \<Longrightarrow> row_of e_share i (encs d) = None"
  by (auto simp: row_of_None_iff typed_share_row dest!: schema_enc_typed)

lemma schema_no_file: "schema_ok d \<Longrightarrow> row_of r_id i (shares d) = Some r \<Longrightarrow>
    r_kind r = ''TEXT'' \<Longrightarrow> row_of f_share i (files d) = None"
  by (auto simp: row_of_None_iff typed_share_row dest!: schema_file_typed)

lemma schema_absent: "schema_ok d \<Longrightarrow> i \<notin> keys_of r_id (shares d) \<Longrightarrow>
    row_of t_share i (texts d) = None \<and> row_of e_share i (encs d) = None \<and> row_of f_share i (files d) = None"
  by (auto simp: row_of_None_iff dest: schema_text_typed schema_enc_typed schema_file_typed typed_share_in)

lemma schema_text_row: "schema_ok d \<Longrightarrow> row_of t_share i (texts d) = Some t \<Longrightarrow> text_row_ok t"
  by (auto simp: schema_ok_def dest: row_of_SomeD)

lemma schema_enc_row: "schema_ok d \<Longrightarrow> row_of e_share i (encs d) = Some t \<Longrightarrow> enc_row_ok t"
  by (auto simp: schema_ok_def dest: row_of_SomeD)

lemma schema_file_row: "schema_ok d \<Longrightarrow> row_of f_share i (files d) = Some t \<Longrightarrow> file_row_ok t"
  by (auto simp: schema_ok_def dest: row_of_SomeD)

lemma text_format_roundtrip:
  "text_row_ok t \<Longrightarrow> \<exists>f. ParseTextFormat (t_format t) = Inr f \<and> format_string f = t_format t"
  by (auto simp: text_row_ok_def ParseTextFormat_def)

lemma enc_row_valid:
  "enc_row_ok e \<Longrightarrow> validateEncryptedText
     \<lparr>Protocol = e_protocol e, Nonce = e_nonce e, Ciphertext = e_ciphertext e\<rparr> = None"
  by (simp add: enc_row_ok_def validateEncryptedText_def share_limits)

lemma ParsePayloadKind_consts [simp]:
  "ParsePayloadKind ''TEXT'' = Inr PayloadText" "ParsePayloadKind ''FILE'' = Inr PayloadFile"
  by (simp_all add: ParsePayloadKind_def)

lemma ParsePrivacyMode_consts [simp]:
  "ParsePrivacyMode ''STANDARD'' = Inr PrivacyStandard" "ParsePrivacyMode ''ENCRYPTED'' = Inr PrivacyEncrypted"
  by (simp_all add: ParsePrivacyMode_def)

lemma db_ok_row:
  assumes "db_ok d" "row_of r_id i (shares d) = Some r"
  shows "share_row_ok r" "r_id r = i" "has_payload d r" "ParseShareID i = Inr (ShareID i)"
  using assms schema_share_row [of d i r]
  by (auto simp: db_ok_def canonical_id_def dest: row_of_SomeD)

lemma loadActive_refines:
  assumes ok: "db_ok d" and fine: "\<not> ev_db env AtSelectShare"
  shows "loadActive env d i now = spec_get (abs_db d) (id_string i) now"
proof (cases "row_of r_id (id_string i) (shares d)")
  case None
  then show ?thesis using fine by (simp add: loadActive_def spec_get_def abs_db_def)
next
  case (Some r)
  note sch = db_ok_schema [OF ok]
  note row = db_ok_row [OF ok Some]
  show ?thesis
  proof (cases "isExpired (r_expires r) now")
    case True
    with Some fine show ?thesis
      by (simp add: loadActive_def spec_get_def abs_db_def abs_share_def isExpired_def)
  next
    case live: False
    consider (std) "r_kind r = ''TEXT''" "r_privacy r = ''STANDARD''"
      | (enc) "r_kind r = ''TEXT''" "r_privacy r = ''ENCRYPTED''"
      | (attached) "r_kind r = ''FILE''" "r_privacy r = ''STANDARD''"
      using row(1) by (auto simp: share_row_ok_def)
    then show ?thesis
    proof cases
      case std
      obtain t where t: "row_of t_share (id_string i) (texts d) = Some t"
        using row_of_in_keys row(2,3) std by (fastforce simp: has_payload_def)
      obtain fmt where "ParseTextFormat (t_format t) = Inr fmt" "format_string fmt = t_format t"
        using text_format_roundtrip [OF schema_text_row [OF sch t]] by blast
      with std t live row Some fine show ?thesis
        using schema_no_enc [OF sch Some] schema_no_file [OF sch Some]
        by (simp add: loadActive_def spec_get_def abs_db_def abs_share_def isExpired_def Let_def
           )
    next
      case enc
      obtain e where e: "row_of e_share (id_string i) (encs d) = Some e"
        using row_of_in_keys row(2,3) enc by (fastforce simp: has_payload_def)
      with enc live row Some fine show ?thesis
        using schema_no_text [OF sch Some] schema_no_file [OF sch Some]
          enc_row_valid [OF schema_enc_row [OF sch e]]
        by (simp add: loadActive_def spec_get_def abs_db_def abs_share_def isExpired_def Let_def
           )
    next
      case attached
      obtain f where f: "row_of f_share (id_string i) (files d) = Some f"
        using row_of_in_keys row(2,3) attached by (fastforce simp: has_payload_def)
      with attached live row Some fine show ?thesis
        using schema_no_text [OF sch Some] schema_no_enc [OF sch Some] schema_file_row [OF sch f]
        by (simp add: loadActive_def spec_get_def abs_db_def abs_share_def isExpired_def Let_def
            file_row_ok_def)
    qed
  qed
qed

lemma loadAuthorization_refines:
  assumes ok: "db_ok d" and fine: "\<not> ev_db env AtSelectAuth"
  shows "loadAuthorization env d i now =
    (case abs_db d (id_string i) of
       None \<Rightarrow> Inl ErrNotFound
     | Some (v, verifier) \<Rightarrow>
         if IsExpired (ExpiresAt v) now then Inl ErrExpired
         else Inr \<lparr>au_kind = PayloadKind v, au_privacy = PrivacyMode v, au_verifier = verifier,
                   au_created = CreatedAt v\<rparr>)"
proof (cases "row_of r_id (id_string i) (shares d)")
  case None
  then show ?thesis using fine by (simp add: loadAuthorization_def abs_db_def)
next
  case (Some r)
  then have "share_row_ok r" using db_ok_row(1) [OF ok] by blast
  with Some fine show ?thesis
    by (auto simp: loadAuthorization_def abs_db_def abs_share_def isExpired_def share_row_ok_def)
qed

lemma loadAuthorization_Inr:
  assumes "loadAuthorization env d i now = Inr a"
  obtains r where "row_of r_id (id_string i) (shares d) = Some r" "\<not> isExpired (r_expires r) now"
    "au_verifier a = r_verifier r" "au_created a = from_milli (r_created r)"
    "r_kind r = kind_string (au_kind a)" "r_privacy r = privacy_string (au_privacy a)"
  using assms
  by (auto simp: loadAuthorization_def ParsePayloadKind_Inr ParsePrivacyMode_Inr
      split: if_splits option.splits sum.splits)

section \<open>The statements change the abstract store\<close>

lemma abs_share_cong:
  "row_of t_share (r_id r) (texts d) = row_of t_share (r_id r) (texts d') \<Longrightarrow>
   row_of e_share (r_id r) (encs d) = row_of e_share (r_id r) (encs d') \<Longrightarrow>
   row_of f_share (r_id r) (files d) = row_of f_share (r_id r) (files d') \<Longrightarrow>
   abs_share d r = abs_share d' r"
  by (simp add: abs_share_def)

lemma abs_delete_share:
  assumes "schema_ok d"
  shows "abs_db (fst (delete_share i d)) = (abs_db d)(i := None)"
proof (cases "count_rows r_id i (shares d) = 0")
  case True
  then have "row_of r_id i (shares d) = None" by (rule count_rows_0)
  with True show ?thesis by (auto simp: delete_share_def abs_db_def fun_eq_iff)
next
  case False
  have "abs_db (fst (delete_share i d)) j = ((abs_db d)(i := None)) j" for j
  proof (cases "j = i \<or> row_of r_id j (shares d) = None")
    case True
    with False show ?thesis by (auto simp: delete_share_def abs_db_def row_of_delete)
  next
    case j: False
    then obtain r where r: "row_of r_id j (shares d) = Some r" by auto
    then have "r_id r = j" by (auto dest: row_of_SomeD)
    with j r False show ?thesis
      by (simp add: delete_share_def abs_db_def row_of_delete abs_share_def)
  qed
  then show ?thesis by blast
qed

lemma abs_update_share_times:
  "abs_db (fst (update_share_times i u e d)) =
     (case abs_db d i of None \<Rightarrow> abs_db d
      | Some (v, w) \<Rightarrow> (abs_db d)(i \<mapsto>
          (v\<lparr>UpdatedAt := from_milli u,
             ExpiresAt := (case e of None \<Rightarrow> ExpiresAt v | Some x \<Rightarrow> expirationTime x)\<rparr>, w)))"
proof -
  let ?f = "\<lambda>r. case e of None \<Rightarrow> r\<lparr>r_updated := u\<rparr> | Some x \<Rightarrow> r\<lparr>r_updated := u, r_expires := x\<rparr>"
  have k: "r_id (?f r) = r_id r" for r by (simp split: option.splits)
  have a: "abs_share (fst (update_share_times i u e d)) r = abs_share d r" for r
    by (rule abs_share_cong) (simp_all add: update_share_times_def)
  have "row_of r_id j (shares (fst (update_share_times i u e d))) =
      (if j = i then map_option ?f (row_of r_id j (shares d)) else row_of r_id j (shares d))" for j
    unfolding update_share_times_def using row_of_update [of r_id ?f j i "shares d", OF k] by simp
  moreover have "(abs_share d (?f r), r_verifier (?f r)) =
     ((abs_share d r)\<lparr>UpdatedAt := from_milli u,
        ExpiresAt := (case e of None \<Rightarrow> ExpiresAt (abs_share d r) | Some x \<Rightarrow> expirationTime x)\<rparr>, r_verifier r)" for r
    by (simp add: abs_share_def split: option.splits)
  ultimately show ?thesis
    by (auto simp: abs_db_def fun_eq_iff a split: option.splits)
qed

lemma abs_insert_share_other:
  assumes "insert_share r d = Some d1" "shares d2 = shares d1" "j \<noteq> r_id r"
    and "row_of t_share j (texts d2) = row_of t_share j (texts d)"
    and "row_of e_share j (encs d2) = row_of e_share j (encs d)"
    and "row_of f_share j (files d2) = row_of f_share j (files d)"
  shows "abs_db d2 j = abs_db d j"
proof -
  have "row_of r_id j (shares d2) = row_of r_id j (shares d)"
    using assms(1-3) by (auto simp: insert_share_def row_of_append row_of_Cons split: if_splits option.splits)
  moreover have "abs_share d2 q = abs_share d q" if "row_of r_id j (shares d) = Some q" for q
    by (rule abs_share_cong) (use assms(4-6) row_of_SomeD [OF that] in simp_all)
  ultimately show ?thesis by (simp add: abs_db_def cong: map_option_cong)
qed

lemma insert_share_row:
  assumes "insert_share r d = Some d1"
  shows "row_of r_id (r_id r) (shares d1) = Some r" "row_of r_id (r_id r) (shares d) = None"
    "texts d1 = texts d" "encs d1 = encs d" "files d1 = files d"
  using assms
  by (auto simp: insert_share_def row_of_append row_of_Cons row_of_None_iff split: if_splits option.splits
      dest: row_of_Some_key)

lemma abs_insert_text:
  assumes "insert_share r d = Some d1" "insert_text t d1 = Some d2" "t_share t = r_id r" "schema_ok d"
  shows "abs_db d2 = (abs_db d)(r_id r \<mapsto>
    (\<lparr>ID = ShareID (r_id r), PayloadKind = PayloadText, PrivacyMode = PrivacyStandard,
      Text = Some \<lparr>Format = t_format t, Content = t_content t\<rparr>, EncryptedText = None, File = None,
      CreatedAt = from_milli (r_created r), UpdatedAt = from_milli (r_updated r),
      ExpiresAt = expirationTime (r_expires r)\<rparr>, r_verifier r))"
proof
  note new = insert_share_row [OF assms(1)]
  have d2: "d2 = d1\<lparr>texts := texts d1 @ [t]\<rparr>" and ty: "r_kind r = ''TEXT''" "r_privacy r = ''STANDARD''"
    using assms(2,3) new(1) by (auto simp: insert_text_def typed_share_def split: if_splits)
  have no: "row_of t_share (r_id r) (texts d) = None" "row_of e_share (r_id r) (encs d) = None"
    "row_of f_share (r_id r) (files d) = None"
    using schema_absent [OF assms(4), of "r_id r"] new(2) by (auto simp: row_of_None_iff)
  fix j
  show "abs_db d2 j = ((abs_db d)(r_id r \<mapsto>
    (\<lparr>ID = ShareID (r_id r), PayloadKind = PayloadText, PrivacyMode = PrivacyStandard,
      Text = Some \<lparr>Format = t_format t, Content = t_content t\<rparr>, EncryptedText = None, File = None,
      CreatedAt = from_milli (r_created r), UpdatedAt = from_milli (r_updated r),
      ExpiresAt = expirationTime (r_expires r)\<rparr>, r_verifier r))) j"
  proof (cases "j = r_id r")
    case True
    then show ?thesis
      using new ty no assms(3) by (simp add: abs_db_def abs_share_def d2 row_of_append row_of_Cons)
  next
    case False
    have "abs_db d2 j = abs_db d j"
      by (rule abs_insert_share_other [OF assms(1) _ False])
        (use False assms(3) new in \<open>auto simp: d2 row_of_append row_of_Cons split: option.splits\<close>)
    with False show ?thesis by simp
  qed
qed

lemma abs_insert_enc:
  assumes "insert_share r d = Some d1" "insert_enc t d1 = Some d2" "e_share t = r_id r" "schema_ok d"
  shows "abs_db d2 = (abs_db d)(r_id r \<mapsto>
    (\<lparr>ID = ShareID (r_id r), PayloadKind = PayloadText, PrivacyMode = PrivacyEncrypted, Text = None,
      EncryptedText = Some \<lparr>Protocol = e_protocol t, Nonce = e_nonce t, Ciphertext = e_ciphertext t\<rparr>,
      File = None, CreatedAt = from_milli (r_created r), UpdatedAt = from_milli (r_updated r),
      ExpiresAt = expirationTime (r_expires r)\<rparr>, r_verifier r))"
    (is "_ = (abs_db d)(_ \<mapsto> (?v, _))")
proof
  note new = insert_share_row [OF assms(1)]
  have d2: "d2 = d1\<lparr>encs := encs d1 @ [t]\<rparr>" and ty: "r_kind r = ''TEXT''" "r_privacy r = ''ENCRYPTED''"
    using assms(2,3) new(1) by (auto simp: insert_enc_def typed_share_def split: if_splits)
  have no: "row_of t_share (r_id r) (texts d) = None" "row_of e_share (r_id r) (encs d) = None"
    "row_of f_share (r_id r) (files d) = None"
    using schema_absent [OF assms(4), of "r_id r"] new(2) by (auto simp: row_of_None_iff)
  fix j
  show "abs_db d2 j = ((abs_db d)(r_id r \<mapsto> (?v, r_verifier r))) j"
  proof (cases "j = r_id r")
    case True
    then show ?thesis
      using new ty no assms(3) by (simp add: abs_db_def abs_share_def d2 row_of_append row_of_Cons)
  next
    case False
    have "abs_db d2 j = abs_db d j"
      by (rule abs_insert_share_other [OF assms(1) _ False])
        (use False assms(3) new in \<open>auto simp: d2 row_of_append row_of_Cons split: option.splits\<close>)
    with False show ?thesis by simp
  qed
qed

lemma abs_insert_file:
  assumes "insert_share r d = Some d1" "insert_file t d1 = Some d2" "f_share t = r_id r" "schema_ok d"
  shows "abs_db d2 = (abs_db d)(r_id r \<mapsto>
    (\<lparr>ID = ShareID (r_id r), PayloadKind = PayloadFile, PrivacyMode = PrivacyStandard, Text = None,
      EncryptedText = None,
      File = Some \<lparr>StorageKey = f_key t, Filename = f_filename t, Size = f_size t, MediaType = f_media t,
        SHA256 = f_sha t\<rparr>, CreatedAt = from_milli (r_created r), UpdatedAt = from_milli (r_updated r),
      ExpiresAt = expirationTime (r_expires r)\<rparr>, r_verifier r))"
    (is "_ = (abs_db d)(_ \<mapsto> (?v, _))")
proof
  note new = insert_share_row [OF assms(1)]
  have d2: "d2 = d1\<lparr>files := files d1 @ [t]\<rparr>" and ty: "r_kind r = ''FILE''" "r_privacy r = ''STANDARD''"
    using assms(2,3) new(1) by (auto simp: insert_file_def typed_share_def split: if_splits)
  have no: "row_of t_share (r_id r) (texts d) = None" "row_of e_share (r_id r) (encs d) = None"
    "row_of f_share (r_id r) (files d) = None"
    using schema_absent [OF assms(4), of "r_id r"] new(2) by (auto simp: row_of_None_iff)
  fix j
  show "abs_db d2 j = ((abs_db d)(r_id r \<mapsto> (?v, r_verifier r))) j"
  proof (cases "j = r_id r")
    case True
    then show ?thesis
      using new ty no assms(3) by (simp add: abs_db_def abs_share_def d2 row_of_append row_of_Cons)
  next
    case False
    have "abs_db d2 j = abs_db d j"
      by (rule abs_insert_share_other [OF assms(1) _ False])
        (use False assms(3) new in \<open>auto simp: d2 row_of_append row_of_Cons split: option.splits\<close>)
    with False show ?thesis by simp
  qed
qed

text \<open>A payload update of an existing row changes the payload of that Share only.\<close>

lemma count_rows_1: "count_rows key k rows = Suc n \<Longrightarrow> \<exists>r. row_of key k rows = Some r"
proof -
  assume "count_rows key k rows = Suc n"
  then have "filter (\<lambda>r. key r = k) rows \<noteq> []" by (auto simp: count_rows_def)
  then have "k \<in> keys_of key rows" by (auto simp: filter_empty_conv keys_of_def)
  then show ?thesis by (rule row_of_in_keys)
qed

lemma abs_update_text:
  assumes "update_text i fmt cont d = Some (d', 1)"
  shows "abs_db d' = (case abs_db d i of None \<Rightarrow> abs_db d
     | Some (v, w) \<Rightarrow> (abs_db d)(i \<mapsto> (v\<lparr>Text := Some \<lparr>Format = fmt, Content = cont\<rparr>\<rparr>, w)))"
proof -
  let ?f = "\<lambda>t. t\<lparr>t_format := fmt, t_content := cont\<rparr>"
  from assms have d': "d' = d\<lparr>texts := update_rows t_share i ?f (texts d)\<rparr>"
    and c: "count_rows t_share i (texts d) = Suc 0"
    by (auto simp: update_text_def Let_def split: if_splits)
  obtain t where t: "row_of t_share i (texts d) = Some t" using count_rows_1 [OF c] by blast
  have u: "row_of t_share j (texts d') = (if j = i then Some (?f t) else row_of t_share j (texts d))" for j
    using row_of_update [of t_share ?f j i "texts d"] t by (simp add: d')
  have "abs_db d' j = (case abs_db d i of None \<Rightarrow> abs_db d
     | Some (v, w) \<Rightarrow> (abs_db d)(i \<mapsto> (v\<lparr>Text := Some \<lparr>Format = fmt, Content = cont\<rparr>\<rparr>, w))) j" for j
  proof (cases "row_of r_id j (shares d)")
    case None
    then show ?thesis by (auto simp: abs_db_def d' split: option.splits)
  next
    case (Some r)
    then have "r_id r = j" by (auto dest: row_of_SomeD)
    with Some u show ?thesis by (auto simp: abs_db_def d' abs_share_def split: option.splits)
  qed
  then show ?thesis by blast
qed

lemma abs_update_enc:
  assumes "update_enc i p no c d = Some (d', 1)"
  shows "abs_db d' = (case abs_db d i of None \<Rightarrow> abs_db d
     | Some (v, w) \<Rightarrow> (abs_db d)(i \<mapsto>
         (v\<lparr>EncryptedText := Some \<lparr>Protocol = p, Nonce = no, Ciphertext = c\<rparr>\<rparr>, w)))"
proof -
  let ?f = "\<lambda>e. e\<lparr>e_protocol := p, e_nonce := no, e_ciphertext := c\<rparr>"
  from assms have d': "d' = d\<lparr>encs := update_rows e_share i ?f (encs d)\<rparr>"
    and n: "count_rows e_share i (encs d) = Suc 0"
    by (auto simp: update_enc_def Let_def split: if_splits)
  obtain t where t: "row_of e_share i (encs d) = Some t" using count_rows_1 [OF n] by blast
  have u: "row_of e_share j (encs d') = (if j = i then Some (?f t) else row_of e_share j (encs d))" for j
    using row_of_update [of e_share ?f j i "encs d"] t by (simp add: d')
  have "abs_db d' j = (case abs_db d i of None \<Rightarrow> abs_db d
     | Some (v, w) \<Rightarrow> (abs_db d)(i \<mapsto>
         (v\<lparr>EncryptedText := Some \<lparr>Protocol = p, Nonce = no, Ciphertext = c\<rparr>\<rparr>, w))) j" for j
  proof (cases "row_of r_id j (shares d)")
    case None
    then show ?thesis by (auto simp: abs_db_def d' split: option.splits)
  next
    case (Some r)
    then have "r_id r = j" by (auto dest: row_of_SomeD)
    with Some u show ?thesis by (auto simp: abs_db_def d' abs_share_def split: option.splits)
  qed
  then show ?thesis by blast
qed

end
