(* ===== verification/ShareLaws.thy ===== *)
theory ShareLaws
  imports ShareSpec
begin

text \<open>
  What the operations of \<open>internal/share/service.go\<close> do to the abstract store, which
  invariants they keep, and the bounds of the public retention policy.
\<close>

section \<open>Inversion of the operations\<close>

lemma create_Inr:
  assumes "create env s p t e ex = (s', Inr (v, tok))"
  obtains x i d where "normalizeExpiration (sv_retention s) ex (serverNow env) = Inr x"
    "GenerateShareID (ev_id_rnd env) = Inr i" "GenerateOwnerToken (ev_token_rnd env) = Inr tok"
    "v = \<lparr>ID = i, PayloadKind = PayloadText, PrivacyMode = p, Text = t, EncryptedText = e, File = None,
          CreatedAt = serverNow env, UpdatedAt = serverNow env, ExpiresAt = x\<rparr>"
    "insert_tx env (sv_db s) v (ev_sha env (reveal tok)) = Inr d" "s' = s\<lparr>sv_db := d\<rparr>"
  using assms by (auto simp: create_def Let_def owner_verifier_def split: sum.splits)

lemma create_fields:
  "create env s p t e ex = (s', Inr (v, tok)) \<Longrightarrow> Text v = t \<and> EncryptedText v = e \<and> File v = None
     \<and> PayloadKind v = PayloadText \<and> PrivacyMode v = p \<and> CreatedAt v = serverNow env"
  by (erule create_Inr) simp

lemma create_Inl: "create env s p t e ex = (s', Inl er) \<Longrightarrow> s' = s"
  by (auto simp: create_def Let_def split: sum.splits)

lemma insert_tx_text:
  assumes "insert_tx env d v w = Inr d2" "PrivacyMode v = PrivacyStandard" "Text v = Some t"
  obtains d1 where "insert_share (share_to_row v w) d = Some d1"
    "insert_text \<lparr>t_share = id_string (ID v), t_format = Format t, t_content = Content t\<rparr> d1 = Some d2"
    "EncryptedText v = None"
  using assms
  by (auto simp: insert_tx_def insertMetadata_def split: if_splits option.splits sum.splits)

lemma insert_tx_enc:
  assumes "insert_tx env d v w = Inr d2" "PrivacyMode v = PrivacyEncrypted" "EncryptedText v = Some c"
  obtains d1 where "insert_share (share_to_row v w) d = Some d1"
    "insert_enc \<lparr>e_share = id_string (ID v), e_protocol = Protocol c, e_nonce = Nonce c,
       e_ciphertext = Ciphertext c\<rparr> d1 = Some d2"
    "Text v = None"
  using assms
  by (auto simp: insert_tx_def insertMetadata_def split: if_splits option.splits sum.splits)

lemma row_fields [simp]:
  "r_id (share_to_row v w) = id_string (ID v)" "r_verifier (share_to_row v w) = w"
  "r_created (share_to_row v w) = unix_milli (CreatedAt v)"
  "r_updated (share_to_row v w) = unix_milli (UpdatedAt v)"
  "r_expires (share_to_row v w) = nullableMillis (ExpiresAt v)"
  by (simp_all add: share_to_row_def)

lemma expiration_roundtrip [simp]:
  "expirationTime (nullableMillis x) = map_option truncate_ms x"
  by (cases x) (simp_all add: expirationTime_def nullableMillis_def from_milli_unix_milli)

lemma truncate_option_idem [simp]:
  "map_option truncate_ms (map_option truncate_ms x) = map_option truncate_ms x"
  by (cases x) simp_all

lemma serverNow_truncated [simp]: "truncate_ms (serverNow env) = serverNow env"
  by (simp add: serverNow_def)

lemma ShareID_id_string [simp]: "ShareID (id_string i) = i"
  by (cases i) simp

lemma payload_eta [simp]:
  "\<lparr>Format = Format t, Content = Content t\<rparr> = t"
  "\<lparr>Protocol = Protocol e, Nonce = Nonce e, Ciphertext = Ciphertext e\<rparr> = e"
  by (cases t, simp) (cases e, simp)

section \<open>Creation\<close>

lemma Create_Inr_valid:
  "Create env s t ex = (s', Inr (v, tok)) \<Longrightarrow>
     validateText t = None \<and> create env s PrivacyStandard (Some t) None ex = (s', Inr (v, tok))"
  by (auto simp: Create_def split: option.splits)

lemma CreateEncrypted_Inr_valid:
  "CreateEncrypted env s c ex = (s', Inr (v, tok)) \<Longrightarrow>
     validateEncryptedText c = None \<and> create env s PrivacyEncrypted None (Some c) ex = (s', Inr (v, tok))"
  by (auto simp: CreateEncrypted_def split: option.splits)

lemma create_text_refines:
  assumes c: "create env s PrivacyStandard (Some t) None ex = (s', Inr (v, tok))"
    and ok: "schema_ok (sv_db s)"
  shows "abs_db (sv_db s') = (abs_db (sv_db s))(id_string (ID v) \<mapsto> (stored v, ev_sha env (reveal tok)))"
    and "abs_db (sv_db s) (id_string (ID v)) = None"
proof -
  from c obtain x i d where v: "v = \<lparr>ID = i, PayloadKind = PayloadText, PrivacyMode = PrivacyStandard,
      Text = Some t, EncryptedText = None, File = None, CreatedAt = serverNow env,
      UpdatedAt = serverNow env, ExpiresAt = x\<rparr>"
    and tx: "insert_tx env (sv_db s) v (ev_sha env (reveal tok)) = Inr d" and s': "s' = s\<lparr>sv_db := d\<rparr>"
    by (rule create_Inr)
  obtain d1 where d1: "insert_share (share_to_row v (ev_sha env (reveal tok))) (sv_db s) = Some d1"
    "insert_text \<lparr>t_share = id_string (ID v), t_format = Format t, t_content = Content t\<rparr> d1 = Some d"
    by (rule insert_tx_text [OF tx, of t]) (simp_all add: v)
  have "abs_db d = (abs_db (sv_db s))(id_string (ID v) \<mapsto> (stored v, ev_sha env (reveal tok)))"
    using abs_insert_text [OF d1 _ ok] by (simp add: stored_def v from_milli_unix_milli)
  then show "abs_db (sv_db s') = (abs_db (sv_db s))(id_string (ID v) \<mapsto> (stored v, ev_sha env (reveal tok)))"
    by (simp add: s')
  show "abs_db (sv_db s) (id_string (ID v)) = None"
    using insert_share_row(2) [OF d1(1)] by (simp add: abs_db_def)
qed

lemma create_enc_refines:
  assumes c: "create env s PrivacyEncrypted None (Some e) ex = (s', Inr (v, tok))"
    and ok: "schema_ok (sv_db s)"
  shows "abs_db (sv_db s') = (abs_db (sv_db s))(id_string (ID v) \<mapsto> (stored v, ev_sha env (reveal tok)))"
    and "abs_db (sv_db s) (id_string (ID v)) = None"
proof -
  from c obtain x i d where v: "v = \<lparr>ID = i, PayloadKind = PayloadText, PrivacyMode = PrivacyEncrypted,
      Text = None, EncryptedText = Some e, File = None, CreatedAt = serverNow env,
      UpdatedAt = serverNow env, ExpiresAt = x\<rparr>"
    and tx: "insert_tx env (sv_db s) v (ev_sha env (reveal tok)) = Inr d" and s': "s' = s\<lparr>sv_db := d\<rparr>"
    by (rule create_Inr)
  obtain d1 where d1: "insert_share (share_to_row v (ev_sha env (reveal tok))) (sv_db s) = Some d1"
    "insert_enc \<lparr>e_share = id_string (ID v), e_protocol = Protocol e, e_nonce = Nonce e,
       e_ciphertext = Ciphertext e\<rparr> d1 = Some d"
    by (rule insert_tx_enc [OF tx, of e]) (simp_all add: v)
  have "abs_db d = (abs_db (sv_db s))(id_string (ID v) \<mapsto> (stored v, ev_sha env (reveal tok)))"
    using abs_insert_enc [OF d1 _ ok] by (simp add: stored_def v from_milli_unix_milli)
  then show "abs_db (sv_db s') = (abs_db (sv_db s))(id_string (ID v) \<mapsto> (stored v, ev_sha env (reveal tok)))"
    by (simp add: s')
  show "abs_db (sv_db s) (id_string (ID v)) = None"
    using insert_share_row(2) [OF d1(1)] by (simp add: abs_db_def)
qed

section \<open>Random bytes\<close>

text \<open>\<open>crypto/rand.Read\<close> fills its buffer: 16 bytes for an id, 32 for a token.\<close>

definition rand_ok :: "env \<Rightarrow> bool" where
  "rand_ok env \<longleftrightarrow>
     (case ev_id_rnd env of None \<Rightarrow> True | Some r \<Rightarrow> length r = 16)
     \<and> (case ev_token_rnd env of None \<Rightarrow> True | Some r \<Rightarrow> length r = 32)"

lemma generated_canonical:
  assumes "GenerateShareID (ev_id_rnd env) = Inr i" "rand_ok env"
  shows "canonical_id (id_string i)"
proof -
  from assms obtain r where r: "ev_id_rnd env = Some r" "length r = 16"
    by (auto simp: GenerateShareID_def randomBase64URL_def rand_ok_def split: option.splits)
  then have "ParseShareID (id_string i) = Inr i"
    using GenerateShareID_parses [of r i] assms(1) by simp
  then show ?thesis by (simp add: canonical_id_def)
qed

lemma db_ok_create_text:
  assumes c: "create env s PrivacyStandard (Some t) None ex = (s', r)" and "rand_ok env" "db_ok (sv_db s)"
  shows "db_ok (sv_db s')"
proof (cases r)
  case (Inl er)
  with c assms(3) show ?thesis by (auto dest: create_Inl)
next
  case (Inr b)
  obtain v tok where b: "r = Inr (v, tok)" using Inr by (cases b) auto
  from c [unfolded b] obtain x i d where g: "GenerateShareID (ev_id_rnd env) = Inr i"
    and v: "v = \<lparr>ID = i, PayloadKind = PayloadText, PrivacyMode = PrivacyStandard,
      Text = Some t, EncryptedText = None, File = None, CreatedAt = serverNow env,
      UpdatedAt = serverNow env, ExpiresAt = x\<rparr>"
    and tx: "insert_tx env (sv_db s) v (ev_sha env (reveal tok)) = Inr d" and s': "s' = s\<lparr>sv_db := d\<rparr>"
    by (rule create_Inr)
  obtain d1 where d1: "insert_share (share_to_row v (ev_sha env (reveal tok))) (sv_db s) = Some d1"
    "insert_text \<lparr>t_share = id_string (ID v), t_format = Format t, t_content = Content t\<rparr> d1 = Some d"
    by (rule insert_tx_text [OF tx, of t]) (simp_all add: v)
  show ?thesis
    using db_ok_insert_text [OF d1] generated_canonical [OF g assms(2)] assms(3) by (simp add: s' v)
qed

lemma db_ok_create_enc:
  assumes c: "create env s PrivacyEncrypted None (Some t) ex = (s', r)" and "rand_ok env" "db_ok (sv_db s)"
  shows "db_ok (sv_db s')"
proof (cases r)
  case (Inl er)
  with c assms(3) show ?thesis by (auto dest: create_Inl)
next
  case (Inr b)
  obtain v tok where b: "r = Inr (v, tok)" using Inr by (cases b) auto
  from c [unfolded b] obtain x i d where g: "GenerateShareID (ev_id_rnd env) = Inr i"
    and v: "v = \<lparr>ID = i, PayloadKind = PayloadText, PrivacyMode = PrivacyEncrypted,
      Text = None, EncryptedText = Some t, File = None, CreatedAt = serverNow env,
      UpdatedAt = serverNow env, ExpiresAt = x\<rparr>"
    and tx: "insert_tx env (sv_db s) v (ev_sha env (reveal tok)) = Inr d" and s': "s' = s\<lparr>sv_db := d\<rparr>"
    by (rule create_Inr)
  obtain d1 where d1: "insert_share (share_to_row v (ev_sha env (reveal tok))) (sv_db s) = Some d1"
    "insert_enc \<lparr>e_share = id_string (ID v), e_protocol = Protocol t, e_nonce = Nonce t,
       e_ciphertext = Ciphertext t\<rparr> d1 = Some d"
    by (rule insert_tx_enc [OF tx, of t]) (simp_all add: v)
  show ?thesis
    using db_ok_insert_enc [OF d1] generated_canonical [OF g assms(2)] assms(3) by (simp add: s' v)
qed

lemma db_ok_Create [preserves]:
  "rand_ok env \<Longrightarrow> db_ok (sv_db s) \<Longrightarrow> db_ok (sv_db (fst (Create env s t ex)))"
  by (auto simp: Create_def split: option.splits)
     (metis db_ok_create_text prod.collapse)

lemma db_ok_CreateEncrypted [preserves]:
  "rand_ok env \<Longrightarrow> db_ok (sv_db s) \<Longrightarrow> db_ok (sv_db (fst (CreateEncrypted env s t ex)))"
  by (auto simp: CreateEncrypted_def split: option.splits)
     (metis db_ok_create_enc prod.collapse)

section \<open>Updating\<close>

lemma requireOneRow_None: "requireOneRow env n op = None \<Longrightarrow> n = 1"
  by (auto simp: requireOneRow_def split: if_splits)

lemma Update_Inr:
  assumes "Update env s i c pt = (s', Inr v)"
  obtains a d1 x d2 where
    "loadAuthorization env (sv_db s) i (serverNow env) = Inr a"
    "VerifyOwnerToken (ev_sha env) c (au_verifier a)"
    "update_payload env (sv_db s) i a pt = Inr d1"
    "if ExpirationSet pt then \<exists>y. validateUpdatedExpiration (sv_retention s) (PatchExpiresAt pt)
         (au_created a) (serverNow env) = Inr y \<and> x = Some (nullableMillis y) else x = None"
    "d2 = fst (update_share_times (id_string i) (unix_milli (serverNow env)) x d1)"
    "loadActive env d2 i (serverNow env) = Inr v" "s' = s\<lparr>sv_db := d2\<rparr>"
  using assms
  by (auto simp: Update_def Let_def split: if_splits option.splits sum.splits prod.splits)

lemma Update_Inl: "Update env s i c pt = (s', Inl e) \<Longrightarrow> s' = s"
  by (auto simp: Update_def Let_def split: if_splits option.splits sum.splits prod.splits)

lemma update_payload_cases:
  assumes "update_payload env d i a pt = Inr d1"
  obtains (same) "d1 = d" "PatchText pt = None" "PatchEncryptedText pt = None"
  | (plain) t where "PatchText pt = Some t" "PatchEncryptedText pt = None"
      "au_kind a = PayloadText" "au_privacy a = PrivacyStandard"
      "validateText t = None" "update_text (id_string i) (Format t) (Content t) d = Some (d1, 1)"
  | (enc) c where "PatchEncryptedText pt = Some c" "PatchText pt = None"
      "au_kind a = PayloadText" "au_privacy a = PrivacyEncrypted"
      "validateEncryptedText c = None"
      "update_enc (id_string i) (Protocol c) (Nonce c) (Ciphertext c) d = Some (d1, 1)"
  using assms
  by (cases "au_kind a")
     (auto simp: update_payload_def updateStandardText_def updateEncryptedText_def
      split: if_splits privacy_mode.splits option.splits dest!: requireOneRow_None)

lemma db_ok_Update [preserves]:
  assumes "db_ok (sv_db s)"
  shows "db_ok (sv_db (fst (Update env s i c pt)))"
proof (cases "Update env s i c pt")
  case (Pair s' r)
  show ?thesis
  proof (cases r)
    case (Inl e)
    with Pair assms Update_Inl show ?thesis by fastforce
  next
    case (Inr v)
    with Pair obtain a d1 x where p: "update_payload env (sv_db s) i a pt = Inr d1"
      and s': "s' = s\<lparr>sv_db := fst (update_share_times (id_string i) (unix_milli (serverNow env)) x d1)\<rparr>"
      by (auto elim: Update_Inr)
    have "db_ok d1" using p assms
      by (cases rule: update_payload_cases) (auto dest: db_ok_update_text db_ok_update_enc)
    then show ?thesis using Pair s' by (simp add: db_ok_update_share_times)
  qed
qed

text \<open>What an accepted patch makes of the Share, in the abstract store.\<close>

definition patched :: "patch \<Rightarrow> time \<Rightarrow> share \<Rightarrow> share" where
  "patched pt now v =
     v\<lparr>Text := (case PatchText pt of None \<Rightarrow> Text v | Some t \<Rightarrow> Some t),
       EncryptedText := (case PatchEncryptedText pt of None \<Rightarrow> EncryptedText v | Some c \<Rightarrow> Some c),
       UpdatedAt := now,
       ExpiresAt := (if ExpirationSet pt then map_option truncate_ms (PatchExpiresAt pt) else ExpiresAt v)\<rparr>"

lemma validateUpdatedExpiration_Inr:
  "validateUpdatedExpiration policy value created now = Inr y \<Longrightarrow> y = map_option truncate_ms value"
  by (auto simp: validateUpdatedExpiration_def Let_def split: option.splits if_splits)

lemma Update_refines:
  assumes u: "Update env s i c pt = (s', Inr v)" and ok: "db_ok (sv_db s)"
  obtains v0 where "abs_db (sv_db s) (id_string i) = Some (v0, ev_sha env c)"
    "\<not> IsExpired (ExpiresAt v0) (serverNow env)"
    "v = patched pt (serverNow env) v0"
    "abs_db (sv_db s') = (abs_db (sv_db s))(id_string i \<mapsto> (v, ev_sha env c))"
proof -
  from u obtain a d1 x d2 where
    a: "loadAuthorization env (sv_db s) i (serverNow env) = Inr a"
    and tok: "VerifyOwnerToken (ev_sha env) c (au_verifier a)"
    and p: "update_payload env (sv_db s) i a pt = Inr d1"
    and x: "if ExpirationSet pt then \<exists>y. validateUpdatedExpiration (sv_retention s) (PatchExpiresAt pt)
         (au_created a) (serverNow env) = Inr y \<and> x = Some (nullableMillis y) else x = None"
    and d2: "d2 = fst (update_share_times (id_string i) (unix_milli (serverNow env)) x d1)"
    and l: "loadActive env d2 i (serverNow env) = Inr v" and s': "s' = s\<lparr>sv_db := d2\<rparr>"
    by (rule Update_Inr)
  have w: "au_verifier a = ev_sha env c" using tok by (simp add: VerifyOwnerToken_iff)
  from a obtain r where r: "row_of r_id (id_string i) (shares (sv_db s)) = Some r"
    and live: "\<not> isExpired (r_expires r) (serverNow env)" and rw: "r_verifier r = ev_sha env c"
    using w by (auto elim: loadAuthorization_Inr)
  let ?v0 = "abs_share (sv_db s) r"
  have v0: "abs_db (sv_db s) (id_string i) = Some (?v0, ev_sha env c)"
    using r rw by (simp add: abs_db_def)
  have "abs_db d1 = (abs_db (sv_db s))(id_string i \<mapsto>
     (?v0\<lparr>Text := (case PatchText pt of None \<Rightarrow> Text ?v0 | Some t \<Rightarrow> Some t),
          EncryptedText := (case PatchEncryptedText pt of None \<Rightarrow> EncryptedText ?v0 | Some c \<Rightarrow> Some c)\<rparr>,
      ev_sha env c))"
    using p
  proof (cases rule: update_payload_cases)
    case same
    then show ?thesis using v0 by (auto simp: fun_eq_iff)
  next
    case (plain t)
    then show ?thesis using abs_update_text [OF plain(6)] v0 by simp
  next
    case (enc e)
    then show ?thesis using abs_update_enc [OF enc(6)] v0 by simp
  qed
  then have m: "abs_db d2 = (abs_db (sv_db s))(id_string i \<mapsto> (patched pt (serverNow env) ?v0, ev_sha env c))"
    using x
    by (auto simp: d2 abs_update_share_times patched_def from_milli_unix_milli
        dest!: validateUpdatedExpiration_Inr split: if_splits)
  have "db_ok (sv_db s')" using db_ok_Update [OF ok, of env i c pt] u by simp
  then have "loadActive env d2 i (serverNow env) = spec_get (abs_db d2) (id_string i) (serverNow env)"
    using l by (intro loadActive_refines) (auto simp: s' loadActive_def)
  then have "v = patched pt (serverNow env) ?v0" using l m by (auto simp: spec_get_def split: if_splits)
  then show thesis
    using that [of ?v0] v0 m s' live by (simp add: abs_share_def isExpired_def)
qed

end
