(* ===== verification/ShareFiles.thy ===== *)
theory ShareFiles
  imports ShareLaws
begin

text \<open>
  Deletion and File Shares of \<open>internal/share/service.go\<close>: the tables and the object store
  change together, so that every File row keeps its object, whatever fails on the way.
\<close>

section \<open>Rows and objects\<close>

definition objects_ok :: "db \<Rightarrow> fs option \<Rightarrow> bool" where
  "objects_ok d store \<longleftrightarrow>
     (case store of None \<Rightarrow> files d = [] | Some fs \<Rightarrow> \<forall>f\<in>set (files d). store_present fs (f_key f))"

definition service_ok :: "service \<Rightarrow> bool" where
  "service_ok s \<longleftrightarrow> db_ok (sv_db s) \<and> objects_ok (sv_db s) (sv_store s)"

text \<open>The files that are left were there before, with the same objects.\<close>

definition objects_kept :: "db \<Rightarrow> fs \<Rightarrow> db \<Rightarrow> fs \<Rightarrow> bool" where
  "objects_kept d fs d' fs' \<longleftrightarrow>
     (\<forall>f\<in>set (files d'). f \<in> set (files d) \<and> store_object fs' (f_key f) = store_object fs (f_key f))"

lemma objects_kept_refl: "objects_kept d fs d fs"
  by (simp add: objects_kept_def)

lemma objects_kept_trans: "objects_kept d fs d1 fs1 \<Longrightarrow> objects_kept d1 fs1 d' fs' \<Longrightarrow> objects_kept d fs d' fs'"
  by (auto simp: objects_kept_def)

lemma objects_kept_ok: "objects_kept d fs d' fs' \<Longrightarrow> objects_ok d (Some fs) \<Longrightarrow> objects_ok d' (Some fs')"
  by (auto simp: objects_kept_def objects_ok_def store_present_iff)

lemma objects_ok_cong: "files d = files d' \<Longrightarrow> objects_ok d store = objects_ok d' store"
  by (simp add: objects_ok_def split: option.split)

lemma service_ok_frame:
  "service_ok s \<Longrightarrow> db_ok (sv_db s') \<Longrightarrow> files (sv_db s') = files (sv_db s) \<Longrightarrow> sv_store s' = sv_store s
     \<Longrightarrow> service_ok s'"
  using objects_ok_cong [of "sv_db s'" "sv_db s" "sv_store s"] by (simp add: service_ok_def)

lemma service_okD: "service_ok s \<Longrightarrow> db_ok (sv_db s)" "service_ok s \<Longrightarrow> objects_ok (sv_db s) (sv_store s)"
  by (simp_all add: service_ok_def)

section \<open>Deleting\<close>

lemma Delete_cases:
  assumes "Delete env s i c = (s', r)"
  obtains (refused) e where "s' = s" "r = Some e" "errors_as_cleanup e = None"
  | (deleted) a fs' key where "loadAuthorization env (sv_db s) i (serverNow env) = Inr a"
      "VerifyOwnerToken (ev_sha env) c (au_verifier a)"
      "s' = s\<lparr>sv_db := fst (delete_share (id_string i) (sv_db s)), sv_store := fs'\<rparr>"
      "r = None \<or> (\<exists>e. r = Some (CleanupError key e))"
      "if au_kind a = PayloadFile
         then (\<exists>f. row_of f_share (id_string i) (files (sv_db s)) = Some f \<and> key = f_key f) else key = []"
      "fs' = (if key = [] then sv_store s
              else map_option (\<lambda>fs. fst (store_delete (ev_io env 0) fs key)) (sv_store s))"
      "r = None \<Longrightarrow> key \<noteq> [] \<Longrightarrow> \<exists>fs. sv_store s = Some fs \<and> snd (store_delete (ev_io env 0) fs key) = None"
proof -
  have noclean: "errors_as_cleanup e = None"
    if "loadAuthorization env (sv_db s) i (serverNow env) = Inl e" for e
    using that by (auto simp: loadAuthorization_def ParsePayloadKind_def ParsePrivacyMode_def
        split: if_splits option.splits sum.splits)
  have norow: "errors_as_cleanup e = None" if "requireOneRow env n ''delete Share'' = Some e" for n e
    using that by (auto simp: requireOneRow_def split: if_splits)
  show thesis
  proof (cases "ev_db env AtBegin")
    case True
    with assms have "\<exists>e. s' = s \<and> r = Some e \<and> errors_as_cleanup e = None"
      by (auto simp: Delete_def)
    then show ?thesis using refused by blast
  next
    case b: False
    show ?thesis
    proof (cases "loadAuthorization env (sv_db s) i (serverNow env)")
      case (Inl e)
      with assms b have "s' = s \<and> r = Some e" by (simp add: Delete_def Let_def)
      with noclean [OF Inl] show ?thesis using refused by blast
    next
      case a: (Inr a)
      show ?thesis
      proof (cases "VerifyOwnerToken (ev_sha env) c (au_verifier a)")
        case False
        with assms a b have "\<exists>e. s' = s \<and> r = Some e \<and> errors_as_cleanup e = None"
          by (auto simp: Delete_def Let_def)
        then show ?thesis using refused by blast
      next
        case v: True
        obtain d1 n where d: "delete_share (id_string i) (sv_db s) = (d1, n)" by fastforce
        let ?row = "row_of f_share (id_string i) (files (sv_db s))"
        show ?thesis
        proof (cases "au_kind a = PayloadFile \<and> (ev_db env AtSelectKey \<or> ?row = None)
            \<or> ev_db env AtDelete \<or> requireOneRow env n ''delete Share'' \<noteq> None \<or> ev_db env AtCommit")
          case True
          with assms a b v d have "\<exists>e. s' = s \<and> r = Some e \<and> errors_as_cleanup e = None"
            by (cases "requireOneRow env n ''delete Share''")
               (auto simp: Delete_def Let_def norow split: if_splits option.splits, (metis norow)+)
          then show ?thesis using refused by blast
        next
          case go: False
          let ?key = "if au_kind a = PayloadFile then f_key (the ?row) else []"
          show ?thesis
            by (rule deleted [OF a v, of "sv_store s'" ?key])
               (use assms a b v d go in \<open>auto simp: Delete_def split: if_splits option.splits prod.splits\<close>)
        qed
      qed
    qed
  qed
qed

lemma delete_share_frame:
  "f \<in> set (files (fst (delete_share i d))) \<Longrightarrow> f \<in> set (files d) \<and> f_share f \<noteq> i \<or> count_rows r_id i (shares d) = 0 \<and> f \<in> set (files d)"
  by (auto simp: delete_share_def split: if_splits)

lemma schema_key_unique:
  assumes "schema_ok d" "f \<in> set (files d)" "g \<in> set (files d)" "f_key f = f_key g"
  shows "f = g"
  using assms by (auto simp: schema_ok_def distinct_map dest: inj_onD)

lemma file_key_nonempty: "schema_ok d \<Longrightarrow> f \<in> set (files d) \<Longrightarrow> f_key f \<noteq> []"
  by (auto simp: schema_ok_def file_row_ok_def)

lemma delete_share_present:
  assumes "schema_ok d" "row_of r_id i (shares d) \<noteq> None" "f \<in> set (files (fst (delete_share i d)))"
    and "g \<in> set (files d)" "f_share g = i"
  shows "f_key f \<noteq> f_key g \<and> f \<in> set (files d)"
proof -
  have "count_rows r_id i (shares d) \<noteq> 0"
    using assms(2) count_rows_0 [of r_id i "shares d"] by (cases "count_rows r_id i (shares d)") auto
  then have f: "f \<in> set (files d)" "f_share f \<noteq> i"
    using assms(3) by (auto simp: delete_share_def)
  with assms schema_key_unique [OF assms(1) f(1) assms(4)] show ?thesis by auto
qed

lemma service_ok_Delete [preserves]:
  assumes ok: "service_ok s"
  shows "service_ok (fst (Delete env s i c))"
proof (cases "Delete env s i c")
  case (Pair s' r)
  note d = service_okD(1) [OF ok] and o = service_okD(2) [OF ok]
  from Pair show ?thesis
  proof (cases rule: Delete_cases)
    case (refused e)
    with Pair ok show ?thesis by simp
  next
    case (deleted a fs' key)
    from deleted(1) obtain r0 where r0: "row_of r_id (id_string i) (shares (sv_db s)) = Some r0"
      by (rule loadAuthorization_Inr)
    have db: "db_ok (sv_db s')" using deleted(3) d by (simp add: db_ok_delete_share)
    have "objects_ok (sv_db s') (sv_store s')"
    proof (cases "sv_store s")
      case None
      with o have "files (sv_db s) = []" by (simp add: objects_ok_def)
      then show ?thesis using deleted(3,6) None
        by (auto simp: objects_ok_def delete_share_def delete_rows_def)
    next
      case (Some fs)
      have "store_present (the fs') (f_key f)" if f: "f \<in> set (files (sv_db s'))" for f
      proof -
        have f0: "f \<in> set (files (fst (delete_share (id_string i) (sv_db s))))"
          using f deleted(3) by simp
        then have "f \<in> set (files (sv_db s))" using delete_share_frame by blast
        then have p: "store_present fs (f_key f)" using o Some by (auto simp: objects_ok_def)
        show ?thesis
        proof (cases "key = []")
          case True
          with p Some deleted(6) show ?thesis by simp
        next
          case False
          then obtain g where g: "row_of f_share (id_string i) (files (sv_db s)) = Some g" "key = f_key g"
            using deleted(5) by (auto split: if_splits)
          then have "f_key f \<noteq> key"
            using delete_share_present [OF db_ok_schema [OF d] _ f0, of g] r0 by (auto dest: row_of_SomeD)
          with p Some deleted(6) False show ?thesis by (simp add: store_delete_other)
        qed
      qed
      moreover have "fs' = Some (the fs')" using deleted(6) Some by auto
      ultimately show ?thesis using deleted(3) by (cases fs') (auto simp: objects_ok_def)
    qed
    with db Pair show ?thesis by (simp add: service_ok_def)
  qed
qed

lemma Delete_abs:
  assumes "Delete env s i c = (s', r)" "schema_ok (sv_db s)"
  shows "abs_db (sv_db s') = abs_db (sv_db s)
    \<or> (abs_db (sv_db s') = (abs_db (sv_db s))(id_string i := None) \<and> owner_accepts c
       \<and> (\<exists>v. abs_db (sv_db s) (id_string i) = Some (v, ev_sha env c) \<and> \<not> IsExpired (ExpiresAt v) (serverNow env)))"
  using assms(1)
proof (cases rule: Delete_cases)
  case (deleted a fs' key)
  from deleted(1) obtain r0 where "row_of r_id (id_string i) (shares (sv_db s)) = Some r0"
    "\<not> isExpired (r_expires r0) (serverNow env)" "au_verifier a = r_verifier r0"
    by (rule loadAuthorization_Inr)
  then show ?thesis
    using deleted(2,3) abs_delete_share [OF assms(2)]
    by (auto simp: VerifyOwnerToken_iff abs_db_def isExpired_def abs_share_def)
qed simp

section \<open>File creation\<close>

lemma Commit_keeps:
  "st_key (fst (Commit io st fs)) = st_key st \<and>
   (st_temp (fst (Commit io st fs)) = st_temp st \<or> st_temp (fst (Commit io st fs)) = [])"
  by (simp add: Commit_def Let_def commit_link_keeps split: sum.splits)

lemma store_present_abort_other:
  assumes "st_temp st = [] \<or> (\<exists>x. st_temp st = ''.stage-'' @ x)"
  shows "store_present (fst (snd (Abort io st fs))) k = store_present fs k"
  using assms by (rule Abort_present)

lemma Abort_clears: "Abort io st fs = (st', fs', e) \<Longrightarrow> st_temp st' = []"
  by (auto simp: Abort_def split: if_splits prod.splits)

lemma uncommitted_clears: "uncommitted env s st fs e = (s', st', r) \<Longrightarrow> st_temp st' = []"
  by (auto simp: uncommitted_def dest: Abort_clears split: prod.splits)

lemma uncommitted_effect:
  assumes "uncommitted env s st fs e = (s', st', r)"
    and "st_temp st = [] \<or> (\<exists>x. st_temp st = ''.stage-'' @ x)"
  shows "sv_db s' = sv_db s" "sv_retention s' = sv_retention s" "\<exists>e'. r = Inl e' \<and> (e' = e \<or> (\<exists>c. e' = Joined e c))"
    and "\<exists>fs'. sv_store s' = Some fs' \<and> (\<forall>k. k \<noteq> st_key st \<longrightarrow> store_present fs' k = store_present fs k)
           \<and> (snd (store_delete (ev_io env 1) fs (st_key st)) = None \<longrightarrow> \<not> store_present fs' (st_key st))"
proof -
  obtain fs1 ce where d: "store_delete (ev_io env 1) fs (st_key st) = (fs1, ce)" by fastforce
  obtain st2 fs2 ae where a: "Abort (ev_io env 2) st fs1 = (st2, fs2, ae)" by (metis prod_cases3)
  have p: "store_present fs2 k = store_present fs1 k" for k
    using store_present_abort_other [OF assms(2), of "ev_io env 2" fs1 k] a by simp
  from assms(1) d a have s': "s' = s\<lparr>sv_store := Some fs2\<rparr>"
    and r: "r = Inl (case ce of None \<Rightarrow> e | Some c \<Rightarrow> Joined e (Wrapped ''remove uncommitted File object'' c))"
    by (auto simp: uncommitted_def)
  show "sv_db s' = sv_db s" "sv_retention s' = sv_retention s" by (simp_all add: s')
  show "\<exists>e'. r = Inl e' \<and> (e' = e \<or> (\<exists>c. e' = Joined e c))" by (cases ce) (auto simp: r)
  show "\<exists>fs'. sv_store s' = Some fs' \<and> (\<forall>k. k \<noteq> st_key st \<longrightarrow> store_present fs' k = store_present fs k)
           \<and> (snd (store_delete (ev_io env 1) fs (st_key st)) = None \<longrightarrow> \<not> store_present fs' (st_key st))"
    using p d store_delete_other [of _ "st_key st" "ev_io env 1" fs]
      store_delete_gone [of "ev_io env 1" fs "st_key st"]
    by (intro exI [of _ fs2]) (auto simp: s')
qed

definition file_share :: "env \<Rightarrow> share_id \<Rightarrow> string \<Rightarrow> staged \<Rightarrow> time option \<Rightarrow> share" where
  "file_share env i filename st x =
     \<lparr>ID = i, PayloadKind = PayloadFile, PrivacyMode = PrivacyStandard, Text = None, EncryptedText = None,
      File = Some \<lparr>StorageKey = st_key st, Filename = filename, Size = int (st_size st),
        MediaType = ev_detect env (st_sniff st), SHA256 = st_digest st\<rparr>,
      CreatedAt = serverNow env, UpdatedAt = serverNow env, ExpiresAt = x\<rparr>"

definition file_payload :: "env \<Rightarrow> share_id \<Rightarrow> string \<Rightarrow> staged \<Rightarrow> file_row" where
  "file_payload env i filename st =
     \<lparr>f_share = id_string i, f_key = st_key st, f_filename = filename, f_size = int (st_size st),
      f_media = ev_detect env (st_sniff st), f_sha = st_digest st\<rparr>"

lemma create_file_cases:
  assumes c: "create_file env s fs filename st ex = (s', st', r)"
  obtains (early) e where "r = Inl e" "s' = s\<lparr>sv_store := Some (fst (snd (Abort (ev_io env 2) st fs)))\<rparr>"
      "(\<exists>e. normalizeExpiration (sv_retention s) ex (serverNow env) = Inl e)
       \<or> (\<exists>e. GenerateShareID (ev_id_rnd env) = Inl e) \<or> (\<exists>e. GenerateOwnerToken (ev_token_rnd env) = Inl e)"
      "st_temp st' = []"
  | (failed) st1 fs1 e where "uncommitted env s st1 fs1 e = (s', st', r)"
      "st1 = st \<and> fs1 = fs \<or> (\<exists>ce. Commit (ev_io env 0) st fs = (st1, fs1, ce))"
  | (made) x i tok d1 d2 st1 fs1 where
      "normalizeExpiration (sv_retention s) ex (serverNow env) = Inr x"
      "GenerateShareID (ev_id_rnd env) = Inr i" "GenerateOwnerToken (ev_token_rnd env) = Inr tok"
      "insert_share (share_to_row (file_share env i filename st x) (ev_sha env (reveal tok))) (sv_db s) = Some d1"
      "Commit (ev_io env 0) st fs = (st1, fs1, None)"
      "insert_file (file_payload env i filename st) d1 = Some d2"
      "r = Inr (file_share env i filename st x, tok)"
      "s' = s\<lparr>sv_db := d2, sv_store := Some (fst (snd (Abort (ev_io env 2) st1 fs1)))\<rparr>"
      "st_temp st' = []"
proof -
  obtain ab1 ab2 ab3 where ab: "Abort (ev_io env 2) st fs = (ab1, ab2, ab3)" by (metis prod_cases3)
  have e: "\<exists>e. r = Inl e \<and> s' = s\<lparr>sv_store := Some (fst (snd (Abort (ev_io env 2) st fs)))\<rparr> \<and> st_temp st' = []"
    if "(\<exists>e. normalizeExpiration (sv_retention s) ex (serverNow env) = Inl e)
      \<or> (\<exists>e. GenerateShareID (ev_id_rnd env) = Inl e) \<or> (\<exists>e. GenerateOwnerToken (ev_token_rnd env) = Inl e)"
    using that c ab Abort_clears [OF ab] by (auto simp: create_file_def Let_def split: sum.splits)
  show thesis
  proof (cases "(\<exists>e. normalizeExpiration (sv_retention s) ex (serverNow env) = Inl e)
      \<or> (\<exists>e. GenerateShareID (ev_id_rnd env) = Inl e) \<or> (\<exists>e. GenerateOwnerToken (ev_token_rnd env) = Inl e)")
    case True
    with e obtain er where "r = Inl er"
      "s' = s\<lparr>sv_store := Some (fst (snd (Abort (ev_io env 2) st fs)))\<rparr>" "st_temp st' = []" by blast
    then show ?thesis using early True by blast
  next
    case False
    then obtain x i tok where g: "normalizeExpiration (sv_retention s) ex (serverNow env) = Inr x"
      "GenerateShareID (ev_id_rnd env) = Inr i" "GenerateOwnerToken (ev_token_rnd env) = Inr tok"
      by (metis obj_sumE)
    obtain st1 fs1 ce where k: "Commit (ev_io env 0) st fs = (st1, fs1, ce)" by (metis prod_cases3)
    let ?v = "file_share env i filename st x"
    let ?body = "create_file env s fs filename st ex"
    show ?thesis
    proof (cases "ev_db env AtBegin \<or> (\<exists>e. insertMetadata env (sv_db s) ?v (owner_verifier (ev_sha env) tok) = Inl e)")
      case True
      then have "\<exists>e. ?body = uncommitted env s st fs e"
        using g unfolding create_file_def by (auto simp: Let_def file_share_def)
      then obtain e where "?body = uncommitted env s st fs e" by blast
      then show ?thesis using failed [of st fs e] c by simp
    next
      case meta: False
      then obtain d1 where d1: "insertMetadata env (sv_db s) ?v (owner_verifier (ev_sha env) tok) = Inr d1"
        by (metis obj_sumE)
      then have ins: "insert_share (share_to_row ?v (ev_sha env (reveal tok))) (sv_db s) = Some d1"
        by (auto simp: insertMetadata_def owner_verifier_def split: if_splits option.splits)
      show ?thesis
      proof (cases "ce = None \<and> \<not> ev_db env AtInsertPayload
          \<and> insert_file (file_payload env i filename st) d1 \<noteq> None \<and> \<not> ev_db env AtCommit")
        case False
        then have "\<exists>e. ?body = uncommitted env s st1 fs1 e"
          using g meta d1 k unfolding create_file_def
          by (cases ce) (auto simp: Let_def file_share_def [symmetric] file_payload_def split: option.splits)
        then show ?thesis using failed c k by auto
      next
        case True
        then obtain d2 where d2: "insert_file (file_payload env i filename st) d1 = Some d2" by blast
        obtain a1 a2 a3 where a: "Abort (ev_io env 2) st1 fs1 = (a1, a2, a3)" by (metis prod_cases3)
        have "?body = (s\<lparr>sv_db := d2, sv_store := Some a2\<rparr>, a1, Inr (?v, tok))"
          using g meta d1 k d2 True a unfolding create_file_def
          by (simp add: Let_def file_share_def file_payload_def)
        then show ?thesis
          using made [OF g ins _ d2] k True c a Abort_clears [OF a] by auto
      qed
    qed
  qed
qed

lemma staged_ok_temp: "staged_ok sha limit st fs \<Longrightarrow> st_temp st = [] \<or> (\<exists>x. st_temp st = ''.stage-'' @ x)"
  by (auto simp: staged_ok_def)

text \<open>
  The object key of a new upload is fresh: \<open>generateKey\<close> draws it from 128 random bits.  The
  hypothesis is needed, because a failing \<open>CreateFile\<close> deletes the object at its key.
\<close>

lemma service_ok_create_file:
  assumes ok: "service_ok s" and store: "sv_store s = Some fs"
    and st: "staged_ok (ev_sha env) MaxFileBytes st fs"
    and fresh: "st_key st \<notin> keys_of f_key (files (sv_db s))" and rnd: "rand_ok env"
    and c: "create_file env s fs filename st ex = (s', st', r)"
  shows "service_ok s'"
proof -
  note d = service_okD(1) [OF ok] and o = service_okD(2) [OF ok]
  note temp = staged_ok_temp [OF st]
  have p: "store_present fs (f_key f)" "f_key f \<noteq> st_key st" if "f \<in> set (files (sv_db s))" for f
    using o store fresh that by (auto simp: objects_ok_def in_keys_of)
  from c show ?thesis
  proof (cases rule: create_file_cases)
    case (early e)
    then show ?thesis using d p Abort_present [OF temp] by (simp add: service_ok_def objects_ok_def)
  next
    case (failed st1 fs1 e)
    have k1: "st_key st1 = st_key st" and t1: "st_temp st1 = [] \<or> (\<exists>x. st_temp st1 = ''.stage-'' @ x)"
      using failed(2) Commit_keeps [of "ev_io env 0" st fs] temp by auto
    have p1: "store_present fs1 k = store_present fs k" if "k \<noteq> st_key st" for k
      using failed(2) Commit_other [OF temp that, of "ev_io env 0" fs] by auto
    note un = uncommitted_effect [OF failed(1) t1]
    obtain fs' where fs': "sv_store s' = Some fs'"
      "\<And>k. k \<noteq> st_key st1 \<Longrightarrow> store_present fs' k = store_present fs1 k"
      using un(4) by blast
    then show ?thesis using un(1) d p p1 k1 by (simp add: service_ok_def objects_ok_def)
  next
    case (made x i tok d1 d2 st1 fs1)
    have db: "db_ok d2"
      using db_ok_insert_file [OF made(4,6)] generated_canonical [OF made(2) rnd] d
      by (simp add: file_payload_def file_share_def)
    have files: "files d2 = files (sv_db s) @ [file_payload env i filename st]"
      using made(4,6) by (auto simp: insert_share_def insert_file_def split: if_splits)
    note cs = Commit_success [OF made(5) st]
    have ab: "fst (snd (Abort (ev_io env 2) st1 fs1)) = fs1" using cs(2) by (simp add: Abort_fs)
    have "store_present fs1 (f_key f)" if "f \<in> set (files d2)" for f
      using that p cs(5) Commit_other [OF temp, of _ "ev_io env 0" fs] made(5)
      by (auto simp: files file_payload_def)
    then show ?thesis using db ab made(8) by (simp add: service_ok_def objects_ok_def)
  qed
qed


section \<open>Every operation keeps the service consistent\<close>

lemma create_files:
  "create env s p t e ex = (s', r) \<Longrightarrow> files (sv_db s') = files (sv_db s) \<and> sv_store s' = sv_store s"
  by (auto simp: create_def Let_def insert_tx_def insertMetadata_def insert_share_def insert_text_def
      insert_enc_def split: sum.splits if_splits option.splits privacy_mode.splits)

lemma service_ok_Create [preserves]:
  assumes "rand_ok env" "service_ok s"
  shows "service_ok (fst (Create env s t ex))"
proof -
  obtain s' r where c: "create env s PrivacyStandard (Some t) None ex = (s', r)" by fastforce
  have "files (sv_db (fst (Create env s t ex))) = files (sv_db s) \<and> sv_store (fst (Create env s t ex)) = sv_store s"
    using create_files [OF c] c by (simp add: Create_def split: option.split)
  then show ?thesis
    using service_ok_frame assms db_ok_Create [of env s t ex] by (auto simp: service_ok_def)
qed

lemma service_ok_CreateEncrypted [preserves]:
  assumes "rand_ok env" "service_ok s"
  shows "service_ok (fst (CreateEncrypted env s c ex))"
proof -
  obtain s' r where k: "create env s PrivacyEncrypted None (Some c) ex = (s', r)" by fastforce
  have "files (sv_db (fst (CreateEncrypted env s c ex))) = files (sv_db s)
      \<and> sv_store (fst (CreateEncrypted env s c ex)) = sv_store s"
    using create_files [OF k] k by (simp add: CreateEncrypted_def split: option.split)
  then show ?thesis
    using service_ok_frame assms db_ok_CreateEncrypted [of env s c ex] by (auto simp: service_ok_def)
qed

lemma update_payload_files: "update_payload env d i a pt = Inr d1 \<Longrightarrow> files d1 = files d"
  by (erule update_payload_cases) (auto dest: keys_update_text keys_update_enc)

lemma service_ok_Update [preserves]:
  assumes ok: "service_ok s"
  shows "service_ok (fst (Update env s i c pt))"
proof (cases "Update env s i c pt")
  case (Pair s' r)
  have "files (sv_db s') = files (sv_db s) \<and> sv_store s' = sv_store s"
  proof (cases r)
    case (Inl e)
    with Pair show ?thesis by (auto dest: Update_Inl)
  next
    case (Inr v)
    with Pair obtain a d1 x where "update_payload env (sv_db s) i a pt = Inr d1"
      "s' = s\<lparr>sv_db := fst (update_share_times (id_string i) (unix_milli (serverNow env)) x d1)\<rparr>"
      by (auto elim: Update_Inr)
    then show ?thesis by (auto simp: update_share_times_def dest: update_payload_files)
  qed
  then show ?thesis
    using service_ok_frame [OF ok] db_ok_Update [OF service_okD(1) [OF ok], of env i c pt] Pair by simp
qed

lemma service_ok_StageFile [preserves]:
  assumes ok: "service_ok s"
  shows "service_ok (fst (StageFile env rnd sufs source s))"
proof (cases "sv_store s")
  case None
  with ok show ?thesis by (simp add: StageFile_def)
next
  case (Some fs)
  then have "\<forall>k. store_present (fst (Stage (ev_io env 0) (ev_now env) (ev_sha env) rnd sufs source MaxFileBytes fs)) k
      = store_present fs k" by (simp add: Stage_present)
  with ok Some show ?thesis
    by (auto simp: StageFile_def service_ok_def objects_ok_def split: prod.splits)
qed

lemma service_ok_CreateFile [preserves]:
  assumes "service_ok s" "sv_store s = Some fs" "staged_ok (ev_sha env) MaxFileBytes st fs"
    and "st_key st \<notin> keys_of f_key (files (sv_db s))" "rand_ok env"
  shows "service_ok (fst (CreateFile env s filename (Some st) ex))"
  using service_ok_create_file [OF assms(1-5)] assms(2)
  by (auto simp: CreateFile_def split: prod.splits)

section \<open>What a created File Share is\<close>

lemma create_file_refines:
  assumes c: "create_file env s fs filename st ex = (s', st', Inr (v, tok))" and ok: "db_ok (sv_db s)"
    and st: "staged_ok (ev_sha env) MaxFileBytes st fs"
  shows "abs_db (sv_db s') = (abs_db (sv_db s))(id_string (ID v) \<mapsto> (stored v, ev_sha env (reveal tok)))
    \<and> abs_db (sv_db s) (id_string (ID v)) = None
    \<and> File v = Some \<lparr>StorageKey = st_key st, Filename = filename, Size = int (st_size st),
           MediaType = ev_detect env (st_sniff st), SHA256 = st_digest st\<rparr>
    \<and> (\<exists>fs' rel. sv_store s' = Some fs' \<and> relative (st_key st) = Inr rel
           \<and> lstat fs' rel = lstat fs (st_temp st))"
  using c
proof (cases rule: create_file_cases)
  case (failed st1 fs1 e)
  have "st_temp st1 = [] \<or> (\<exists>x. st_temp st1 = ''.stage-'' @ x)"
    using failed(2) Commit_keeps [of "ev_io env 0" st fs] staged_ok_temp [OF st] by auto
  from uncommitted_effect(3) [OF failed(1) this] show ?thesis by blast
next
  case (made x i tok' d1 d2 st1 fs1)
  then have v: "v = file_share env i filename st x" "tok' = tok" by auto
  have a: "abs_db d2 = (abs_db (sv_db s))(id_string i \<mapsto> (stored v, ev_sha env (reveal tok)))"
    using abs_insert_file [OF made(4,6) _ db_ok_schema [OF ok]] v
    by (simp add: file_payload_def file_share_def stored_def from_milli_unix_milli)
  have n: "abs_db (sv_db s) (id_string i) = None"
    using insert_share_row(2) [OF made(4)] by (simp add: abs_db_def file_share_def)
  obtain rel where rel: "relative (st_key st) = Inr rel"
    using st by (auto simp: staged_ok_def relative_def)
  note cs = Commit_success [OF made(5) st]
  have "fst (snd (Abort (ev_io env 2) st1 fs1)) = fs1" using cs(2) by (simp add: Abort_fs)
  then show ?thesis
    using made(8) a n v rel cs(6) [OF rel] by (simp add: file_share_def)
qed auto


lemma create_file_fresh:
  assumes "create_file env s fs filename st ex = (s', st', Inr (v, tok))"
    and "st_temp st = [] \<or> (\<exists>x. st_temp st = ''.stage-'' @ x)"
  shows "st_key st \<notin> keys_of f_key (files (sv_db s))"
  using assms(1)
proof (cases rule: create_file_cases)
  case (failed st1 fs1 e)
  have "st_temp st1 = [] \<or> (\<exists>x. st_temp st1 = ''.stage-'' @ x)"
    using failed(2) Commit_keeps [of "ev_io env 0" st fs] assms(2) by auto
  from uncommitted_effect(3) [OF failed(1) this] show ?thesis by blast
next
  case (made x i tok' d1 d2 st1 fs1)
  then show ?thesis by (auto simp: insert_file_def insert_share_def file_payload_def split: if_splits)
qed auto

section \<open>A failing creation\<close>

lemma uncommitted_tables: "uncommitted env s st fs e = (s', st', r) \<Longrightarrow> sv_db s' = sv_db s \<and> (\<exists>e'. r = Inl e')"
  by (auto simp: uncommitted_def split: prod.splits)

lemma create_file_failed:
  assumes "create_file env s fs filename st ex = (s', st', Inl e)"
  shows "sv_db s' = sv_db s"
  using assms by (cases rule: create_file_cases) (auto dest: uncommitted_tables)

text \<open>\<open>Commit\<close> refuses to overwrite an object, and leaves it as it is.\<close>

lemma Commit_existing:
  assumes "relative (st_key st) = Inr rel" "lstat fs rel \<noteq> None" "\<not> st_committed st"
    and "Commit io st fs = (st', fs', e)"
  shows "lstat fs' rel = lstat fs rel \<and> e \<noteq> None"
  using assms shard_foreign [OF assms(1), of "st_key st"]
  by (auto simp: Commit_def Let_def commit_link_def split: if_splits)

lemma store_delete_regular:
  assumes "relative k = Inr rel" "lstat fs rel = Some n" "is_regular n" "\<And>op. \<not> io op"
  shows "snd (store_delete io fs k) = None"
  using assms by (simp add: store_delete_def fs_unlink_def)

lemma create_file_collision:
  assumes c: "create_file env s fs filename st ex = (s', st', r)" and st: "staged_ok (ev_sha env) MaxFileBytes st fs"
    and p: "store_present fs (st_key st)" and io: "\<And>n op. \<not> ev_io env n op"
    and go: "normalizeExpiration (sv_retention s) ex (serverNow env) = Inr x"
      "GenerateShareID (ev_id_rnd env) = Inr i" "GenerateOwnerToken (ev_token_rnd env) = Inr tok"
  shows "\<exists>e fs'. r = Inl e \<and> sv_db s' = sv_db s \<and> sv_store s' = Some fs' \<and> \<not> store_present fs' (st_key st)"
  using c
proof (cases rule: create_file_cases)
  case (early e)
  with go show ?thesis by auto
next
  case (made x i tok d1 d2 st1 fs1)
  then show ?thesis using Commit_success(4) [OF made(5) st] p by blast
next
  case (failed st1 fs1 e)
  obtain rel where rel: "relative (st_key st) = Inr rel" and n: "\<exists>n. lstat fs rel = Some n \<and> is_regular n"
    using p by (auto simp: store_present_def split: sum.splits option.splits)
  have nc: "\<not> st_committed st" using st by (simp add: staged_ok_def)
  have key: "st_key st1 = st_key st" and temp: "st_temp st1 = [] \<or> (\<exists>x. st_temp st1 = ''.stage-'' @ x)"
    using failed(2) Commit_keeps [of "ev_io env 0" st fs] staged_ok_temp [OF st] by auto
  have "lstat fs1 rel = lstat fs rel" using failed(2) Commit_existing [OF rel _ nc, of fs] n by fastforce
  then have "snd (store_delete (ev_io env 1) fs1 (st_key st1)) = None"
    using n rel key io by (auto intro: store_delete_regular)
  with uncommitted_effect [OF failed(1) temp] key show ?thesis by auto
qed

end
