(* ===== verification/ShareRetention.thy ===== *)
theory ShareRetention
  imports ShareFiles
begin

text \<open>
  The public retention policy of \<open>internal/share/service.go\<close>: while it is in force every
  stored Share expires, at most \<open>MaxTTL\<close> after its creation, whatever its owner patches.
\<close>

definition policy_ok :: "retention_policy \<Rightarrow> bool" where
  "policy_ok policy \<longleftrightarrow> 0 < DefaultTTL policy \<and> DefaultTTL policy \<le> MaxTTL policy"

definition bounded_row :: "retention_policy \<Rightarrow> share_row \<Rightarrow> bool" where
  "bounded_row policy r \<longleftrightarrow>
     (case r_expires r of None \<Rightarrow> False
      | Some e \<Rightarrow> from_milli e \<le> from_milli (r_created r) + MaxTTL policy)"

lemma bounded_row_updated [simp]: "bounded_row policy (r\<lparr>r_updated := u\<rparr>) = bounded_row policy r"
  by (simp add: bounded_row_def split: option.split)

definition retention_ok :: "service \<Rightarrow> bool" where
  "retention_ok s \<longleftrightarrow> Public (sv_retention s) \<longrightarrow>
     policy_ok (sv_retention s) \<and> (\<forall>r\<in>set (shares (sv_db s)). bounded_row (sv_retention s) r)"

lemma retention_ok_fresh: "policy_ok policy \<Longrightarrow> retention_ok \<lparr>sv_db = empty_db, sv_store = st, sv_retention = policy\<rparr>"
  by (simp add: retention_ok_def empty_db_def)

lemma normalizeExpiration_public:
  assumes "normalizeExpiration policy value now = Inr x" "Public policy" "policy_ok policy"
  obtains t where "x = Some t" "t \<le> now + MaxTTL policy"
  using assms
  by (auto simp: normalizeExpiration_def validateUpdatedExpiration_def policy_ok_def Let_def
      split: option.splits if_splits)

lemma validateUpdatedExpiration_public:
  assumes "validateUpdatedExpiration policy value created now = Inr x" "Public policy"
  obtains t where "x = Some t" "t \<le> created + MaxTTL policy" "now < t" "truncate_ms t = t"
  using assms
  by (auto simp: validateUpdatedExpiration_def Let_def split: option.splits if_splits)

lemma bounded_new:
  assumes "normalizeExpiration policy value (serverNow env) = Inr (ExpiresAt v)" "Public policy" "policy_ok policy"
    and "CreatedAt v = serverNow env"
  shows "bounded_row policy (share_to_row v w)"
proof -
  obtain t where t: "ExpiresAt v = Some t" "t \<le> serverNow env + MaxTTL policy"
    by (rule normalizeExpiration_public [OF assms(1-3)])
  have "truncate_ms t \<le> t" by simp
  with t(2) have "truncate_ms t \<le> serverNow env + MaxTTL policy" by linarith
  then show ?thesis
    using t(1) assms(4) by (simp add: bounded_row_def share_to_row_def nullableMillis_def from_milli_unix_milli)
qed

lemma retention_keep:
  assumes "retention_ok s" "sv_retention s' = sv_retention s"
    and "\<And>r. r \<in> set (shares (sv_db s')) \<Longrightarrow> Public (sv_retention s) \<Longrightarrow> policy_ok (sv_retention s)
           \<Longrightarrow> r \<in> set (shares (sv_db s)) \<or> bounded_row (sv_retention s) r"
  shows "retention_ok s'"
  using assms by (auto simp: retention_ok_def)

lemma insert_share_rows:
  "insert_share r d = Some d1 \<Longrightarrow> set (shares d1) = insert r (set (shares d))"
  by (auto simp: insert_share_def split: if_splits)

lemma payload_keeps_shares:
  "insert_text t d = Some d' \<Longrightarrow> shares d' = shares d"
  "insert_enc c d = Some d' \<Longrightarrow> shares d' = shares d"
  "insert_file f d = Some d' \<Longrightarrow> shares d' = shares d"
  by (auto simp: insert_text_def insert_enc_def insert_file_def split: if_splits)

lemma insert_tx_inserts:
  assumes "insert_tx env d v w = Inr d2"
  obtains d1 where "insert_share (share_to_row v w) d = Some d1" "shares d2 = shares d1"
proof -
  obtain d1 where d1: "insertMetadata env d v w = Inr d1"
    using assms by (cases "insertMetadata env d v w") (auto simp: insert_tx_def split: if_splits)
  then have i: "insert_share (share_to_row v w) d = Some d1"
    by (auto simp: insertMetadata_def split: if_splits option.splits)
  have "shares d2 = shares d1"
    using assms d1
    by (cases "PrivacyMode v"; cases "Text v"; cases "EncryptedText v")
       (auto simp: insert_tx_def dest: payload_keeps_shares split: if_splits option.splits)
  with i show thesis by (rule that)
qed

lemma insert_tx_rows:
  "insert_tx env d v w = Inr d2 \<Longrightarrow> set (shares d2) = insert (share_to_row v w) (set (shares d))"
  by (erule insert_tx_inserts) (simp add: insert_share_rows)

lemma retention_create:
  assumes c: "create env s p t e ex = (s', r)" and ok: "retention_ok s"
  shows "retention_ok s'"
proof (cases r)
  case (Inl er)
  with c ok show ?thesis by (auto dest: create_Inl)
next
  case (Inr b)
  obtain v tok where b: "r = Inr (v, tok)" using Inr by (cases b) auto
  from c [unfolded b] obtain x i d where n: "normalizeExpiration (sv_retention s) ex (serverNow env) = Inr x"
    and v: "v = \<lparr>ID = i, PayloadKind = PayloadText, PrivacyMode = p, Text = t, EncryptedText = e, File = None,
          CreatedAt = serverNow env, UpdatedAt = serverNow env, ExpiresAt = x\<rparr>"
    and tx: "insert_tx env (sv_db s) v (ev_sha env (reveal tok)) = Inr d" and s': "s' = s\<lparr>sv_db := d\<rparr>"
    by (rule create_Inr)
  show ?thesis
    using bounded_new [of "sv_retention s" ex env v] n
    by (intro retention_keep [OF ok]) (auto simp: s' insert_tx_rows [OF tx] v)
qed

lemma retention_Create [preserves]: "retention_ok s \<Longrightarrow> retention_ok (fst (Create env s t ex))"
  by (auto simp: Create_def split: option.splits) (metis retention_create prod.collapse)

lemma retention_CreateEncrypted [preserves]: "retention_ok s \<Longrightarrow> retention_ok (fst (CreateEncrypted env s t ex))"
  by (auto simp: CreateEncrypted_def split: option.splits) (metis retention_create prod.collapse)

lemma retention_Delete [preserves]:
  assumes ok: "retention_ok s"
  shows "retention_ok (fst (Delete env s i c))"
proof (cases "Delete env s i c")
  case (Pair s' r)
  then show ?thesis
  proof (cases rule: Delete_cases)
    case (deleted a fs' key)
    then have "set (shares (sv_db s')) \<subseteq> set (shares (sv_db s))"
      by (auto simp: delete_share_def)
    then show ?thesis using Pair deleted(3) by (intro retention_keep [OF ok]) auto
  qed (use Pair ok in simp)
qed

lemma update_payload_shares: "update_payload env d i a pt = Inr d1 \<Longrightarrow> shares d1 = shares d"
  by (erule update_payload_cases) (auto dest: keys_update_text keys_update_enc)

lemma retention_Update [preserves]:
  assumes ok: "retention_ok s" and sch: "schema_ok (sv_db s)"
  shows "retention_ok (fst (Update env s i c pt))"
proof (cases "Update env s i c pt")
  case (Pair s' r)
  show ?thesis
  proof (cases r)
    case (Inl e)
    with Pair ok show ?thesis by (auto dest: Update_Inl)
  next
    case (Inr v)
    with Pair obtain a d1 x where a: "loadAuthorization env (sv_db s) i (serverNow env) = Inr a"
      and p: "update_payload env (sv_db s) i a pt = Inr d1"
      and x: "if ExpirationSet pt then \<exists>y. validateUpdatedExpiration (sv_retention s) (PatchExpiresAt pt)
         (au_created a) (serverNow env) = Inr y \<and> x = Some (nullableMillis y) else x = None"
      and s': "s' = s\<lparr>sv_db := fst (update_share_times (id_string i) (unix_milli (serverNow env)) x d1)\<rparr>"
      by (auto elim: Update_Inr)
    obtain r0 where r0: "row_of r_id (id_string i) (shares (sv_db s)) = Some r0"
      "au_created a = from_milli (r_created r0)" using a by (rule loadAuthorization_Inr)
    have "bounded_row (sv_retention s) q"
      if q: "q \<in> set (shares (sv_db s'))" and pub: "Public (sv_retention s)" for q
    proof -
      have all: "bounded_row (sv_retention s) q0" if "q0 \<in> set (shares (sv_db s))" for q0
        using ok pub that by (simp add: retention_ok_def)
      consider "q \<in> set (shares (sv_db s))"
        | q0 where "q0 \<in> set (shares (sv_db s))" "r_id q0 = id_string i"
            "q = (case x of None \<Rightarrow> q0\<lparr>r_updated := unix_milli (serverNow env)\<rparr>
                 | Some e \<Rightarrow> q0\<lparr>r_updated := unix_milli (serverNow env), r_expires := e\<rparr>)"
        using q update_payload_shares [OF p]
        by (auto simp: s' update_share_times_def dest!: in_update_rows)
      then show ?thesis
      proof cases
        case 1
        then show ?thesis by (rule all)
      next
        case (2 q0)
        then have "q0 = r0" using sch r0(1) row_of_distinct [of r_id "shares (sv_db s)" "id_string i" q0]
          by (auto simp: schema_ok_def)
        show ?thesis
        proof (cases "ExpirationSet pt")
          case False
          with x 2 all [of q0] show ?thesis by simp
        next
          case True
          with x obtain y where y: "validateUpdatedExpiration (sv_retention s) (PatchExpiresAt pt)
             (au_created a) (serverNow env) = Inr y" and xy: "x = Some (nullableMillis y)" by auto
          obtain t where "y = Some t" "t \<le> au_created a + MaxTTL (sv_retention s)" "truncate_ms t = t"
            by (rule validateUpdatedExpiration_public [OF y pub])
          then show ?thesis using 2(3) xy r0(2) \<open>q0 = r0\<close>
            by (simp add: bounded_row_def nullableMillis_def from_milli_unix_milli)
        qed
      qed
    qed
    then show ?thesis using Pair s' by (intro retention_keep [OF ok]) auto
  qed
qed

lemma retention_create_file:
  assumes c: "create_file env s fs filename st ex = (s', st', r)" and ok: "retention_ok s"
    and st: "staged_ok (ev_sha env) MaxFileBytes st fs"
  shows "retention_ok s'"
  using c
proof (cases rule: create_file_cases)
  case (early e)
  then show ?thesis by (intro retention_keep [OF ok]) auto
next
  case (failed st1 fs1 e)
  have "st_temp st1 = [] \<or> (\<exists>x. st_temp st1 = ''.stage-'' @ x)"
    using failed(2) Commit_keeps [of "ev_io env 0" st fs] staged_ok_temp [OF st] by auto
  from uncommitted_effect(1,2) [OF failed(1) this] show ?thesis
    by (intro retention_keep [OF ok]) auto
next
  case (made x i tok d1 d2 st1 fs1)
  have "set (shares d2) = insert (share_to_row (file_share env i filename st x) (ev_sha env (reveal tok)))
      (set (shares (sv_db s)))"
    using insert_share_rows [OF made(4)] payload_keeps_shares(3) [OF made(6)] by simp
  then show ?thesis
    using made(1,8) bounded_new [of "sv_retention s" ex env "file_share env i filename st x"]
    by (intro retention_keep [OF ok]) (auto simp: file_share_def)
qed

end
