(* ===== verification/ShareAdmin.thy ===== *)
theory ShareAdmin
  imports ShareRetention
begin

text \<open>
  The governance operations of \<open>internal/share/admin.go\<close>: a metadata-only listing with cursor
  paging, reading and deleting any Share, and the summary.  The query is run on the lists of
  rows: WHERE is a filter, ORDER BY a sort on \<open>(created_at, id)\<close>, LIMIT a \<open>take\<close>.
\<close>

section \<open>Data\<close>

record admin_filter =
  af_PayloadKind :: string
  af_PrivacyMode :: string
  af_Lifecycle :: string
  af_Sort :: string
  af_Cursor :: string
  af_Limit :: int
  af_ExactID :: string

record admin_summary =
  Active :: nat
  Expired :: nat
  TextCount :: nat
  FileCount :: nat
  EncryptedCount :: nat
  FileBytes :: int

record admin_item =
  ai_ID :: share_id
  ai_PayloadKind :: payload_kind
  ai_PrivacyMode :: privacy_mode
  ai_CreatedAt :: time
  ai_UpdatedAt :: time
  ai_ExpiresAt :: "time option"
  ai_PayloadBytes :: int
  ai_FileFilename :: string
  ai_FileMediaType :: string

section \<open>Cursors\<close>

definition encodeAdminCursor :: "int \<Rightarrow> string \<Rightarrow> string" where
  "encodeAdminCursor createdAt i = b64_encode (format_int createdAt @ ''|'' @ i)"

definition decodeAdminCursor :: "string \<Rightarrow> err + int \<times> string" where
  "decodeAdminCursor cursor =
     (if cursor = [] then Inr (0, [])
      else case b64_decode cursor of
        None \<Rightarrow> Inl (Message ''invalid admin cursor'')
      | Some decoded \<Rightarrow>
          (case split_first (CHR ''|'') decoded of
             [a, b] \<Rightarrow>
               (case parse_int64 a of
                  None \<Rightarrow> Inl (Message ''invalid admin cursor'')
                | Some createdAt \<Rightarrow>
                    (case ParseShareID b of
                       Inl e \<Rightarrow> Inl (Message ''invalid admin cursor'')
                     | Inr i \<Rightarrow> Inr (createdAt, b)))
           | _ \<Rightarrow> Inl (Message ''invalid admin cursor'')))"

definition int64 :: "int \<Rightarrow> bool" where
  "int64 i \<longleftrightarrow> - (2 ^ 63) \<le> i \<and> i < 2 ^ 63"

lemma encode_cursor_nonempty: "encodeAdminCursor c i \<noteq> []"
proof
  assume "encodeAdminCursor c i = []"
  then have "b64_encode (format_int c @ ''|'' @ i) = b64_encode []" by (simp add: encodeAdminCursor_def)
  then show False by (simp only: b64.encode_inject) simp
qed

lemma decode_encode_cursor:
  "int64 c \<Longrightarrow> canonical_id i \<Longrightarrow> decodeAdminCursor (encodeAdminCursor c i) = Inr (c, i)"
  using split_first_no_sep [OF format_int_no_bar, of c i] parse_format_int [of c] encode_cursor_nonempty [of c i]
  by (simp add: decodeAdminCursor_def encodeAdminCursor_def b64_decode_encode canonical_id_def int64_def)

section \<open>Listing\<close>

text \<open>The CASE expression \<open>payload_bytes\<close> of the query; an absent payload row is NULL.\<close>

definition payload_bytes :: "db \<Rightarrow> share_row \<Rightarrow> int option" where
  "payload_bytes d r =
     (if r_kind r = ''TEXT'' \<and> r_privacy r = ''STANDARD''
      then map_option (\<lambda>t. int (length (t_content t))) (row_of t_share (r_id r) (texts d))
      else if r_kind r = ''TEXT'' \<and> r_privacy r = ''ENCRYPTED''
      then map_option (\<lambda>e. int (length (e_ciphertext e))) (row_of e_share (r_id r) (encs d))
      else if r_kind r = ''FILE''
      then map_option f_size (row_of f_share (r_id r) (files d))
      else None)"

definition scanAdminListItem :: "db \<Rightarrow> share_row \<Rightarrow> err + admin_item" where
  "scanAdminListItem d r =
     (let file = row_of f_share (r_id r) (files d)
      in case ParseShareID (r_id r) of
           Inl e \<Rightarrow> Inl (Wrapped ''admin list Share ID'' e)
         | Inr i \<Rightarrow>
           (case ParsePayloadKind (r_kind r) of
              Inl e \<Rightarrow> Inl (Wrapped ''admin list payload kind'' e)
            | Inr kind \<Rightarrow>
              (case ParsePrivacyMode (r_privacy r) of
                 Inl e \<Rightarrow> Inl (Wrapped ''admin list privacy mode'' e)
               | Inr privacy \<Rightarrow>
                 (case payload_bytes d r of
                    None \<Rightarrow> Inl ErrPayloadMismatch
                  | Some n \<Rightarrow>
                    if n < 0 then Inl ErrPayloadMismatch
                    else
                      (let item = \<lparr>ai_ID = i, ai_PayloadKind = kind, ai_PrivacyMode = privacy,
                             ai_CreatedAt = from_milli (r_created r), ai_UpdatedAt = from_milli (r_updated r),
                             ai_ExpiresAt = expirationTime (r_expires r), ai_PayloadBytes = n,
                             ai_FileFilename = [], ai_FileMediaType = []\<rparr>
                       in case kind of
                            PayloadText \<Rightarrow> if file \<noteq> None then Inl ErrPayloadMismatch else Inr item
                          | PayloadFile \<Rightarrow>
                              (case file of
                                 None \<Rightarrow> Inl ErrPayloadMismatch
                               | Some f \<Rightarrow>
                                   if privacy \<noteq> PrivacyStandard then Inl ErrPayloadMismatch
                                   else Inr (item\<lparr>ai_FileFilename := f_filename f,
                                                 ai_FileMediaType := f_media f\<rparr>)))))))"

text \<open>The WHERE clauses other than the cursor's; \<open>now\<close> is in milliseconds.\<close>

definition admin_matches :: "admin_filter \<Rightarrow> int \<Rightarrow> share_row \<Rightarrow> bool" where
  "admin_matches flt now r \<longleftrightarrow>
     (af_ExactID flt = [] \<or> r_id r = af_ExactID flt)
     \<and> (af_PayloadKind flt = [] \<or> r_kind r = af_PayloadKind flt)
     \<and> (af_PrivacyMode flt = [] \<or> r_privacy r = af_PrivacyMode flt)
     \<and> (if af_Lifecycle flt = ''active''
        then (case r_expires r of None \<Rightarrow> True | Some e \<Rightarrow> e > now)
        else if af_Lifecycle flt = ''expired''
        then (case r_expires r of None \<Rightarrow> False | Some e \<Rightarrow> e \<le> now)
        else True)"

text \<open>The cursor's clause: the comparison is \<open>>\<close> for the ascending order, \<open><\<close> otherwise.\<close>

definition beyond :: "bool \<Rightarrow> int \<Rightarrow> string \<Rightarrow> share_row \<Rightarrow> bool" where
  "beyond asc c i r \<longleftrightarrow>
     (if asc then r_created r > c \<or> (r_created r = c \<and> r_id r > i)
      else r_created r < c \<or> (r_created r = c \<and> r_id r < i))"

text \<open>\<open>ORDER BY created_at, id\<close>: a row's place in the listing, in the order of the query.\<close>

datatype list_position = ListPosition (lp_created: int) (lp_id: string)

instantiation list_position :: linorder
begin

definition less_eq_list_position :: "list_position \<Rightarrow> list_position \<Rightarrow> bool" where
  "a \<le> b \<longleftrightarrow> lp_created a < lp_created b \<or> lp_created a = lp_created b \<and> lp_id a \<le> lp_id b"

definition less_list_position :: "list_position \<Rightarrow> list_position \<Rightarrow> bool" where
  "a < b \<longleftrightarrow> lp_created a < lp_created b \<or> lp_created a = lp_created b \<and> lp_id a < lp_id b"

instance
  by standard (auto simp: less_eq_list_position_def less_list_position_def list_position.expand)

end

definition row_key :: "share_row \<Rightarrow> list_position" where
  "row_key r = ListPosition (r_created r) (r_id r)"

definition admin_order :: "bool \<Rightarrow> share_row list \<Rightarrow> share_row list" where
  "admin_order asc rows = (if asc then sort_key row_key rows else rev (sort_key row_key rows))"

text \<open>The \<open>rows.Next\<close> loop: stop with \<open>hasMore\<close> when a row follows a full page.\<close>

fun scan_page :: "db \<Rightarrow> nat \<Rightarrow> share_row list \<Rightarrow> admin_item list \<Rightarrow> err + admin_item list \<times> bool" where
  "scan_page d limit [] vals = Inr (vals, False)"
| "scan_page d limit (r # rs) vals =
     (if length vals = limit then Inr (vals, True)
      else case scanAdminListItem d r of
        Inl e \<Rightarrow> Inl e
      | Inr item \<Rightarrow> scan_page d limit rs (vals @ [item]))"

definition page_limit :: "int \<Rightarrow> nat" where
  "page_limit n = (let m = (if n \<le> 0 then 50 else n) in nat (if m > 100 then 100 else m))"

definition sort_ascending :: "string \<Rightarrow> err + bool" where
  "sort_ascending s =
     (if equal_fold s ''oldest'' then Inr True
      else if s \<noteq> [] \<and> \<not> equal_fold s ''newest'' then Inl (Message ''invalid sort'')
      else Inr False)"

definition AdminList :: "env \<Rightarrow> service \<Rightarrow> admin_filter \<Rightarrow> err + admin_item list \<times> string" where
  "AdminList env s flt =
     (let limit = page_limit (af_Limit flt); now = unix_milli (serverNow env); d = sv_db s
      in if af_Lifecycle flt \<notin> {''active'', ''expired'', []}
         then Inl (Message ''invalid lifecycle flt'')
         else case sort_ascending (af_Sort flt) of
           Inl e \<Rightarrow> Inl e
         | Inr asc \<Rightarrow>
           (case decodeAdminCursor (af_Cursor flt) of
              Inl e \<Rightarrow> Inl e
            | Inr (c, i) \<Rightarrow>
                if ev_db env AtQuery then Inl (Wrapped ''admin list shares'' (Message ''sql''))
                else
                  (let rows = take (limit + 1) (admin_order asc
                          [r \<leftarrow> shares d. admin_matches flt now r
                             \<and> (af_Cursor flt = [] \<or> beyond asc c i r)])
                   in case scan_page d limit rows [] of
                        Inl e \<Rightarrow> Inl e
                      | Inr (vals, hasMore) \<Rightarrow>
                          Inr (vals, if hasMore \<and> vals \<noteq> []
                                     then encodeAdminCursor (unix_milli (ai_CreatedAt (last vals)))
                                            (id_string (ai_ID (last vals)))
                                     else []))))"

section \<open>Reading, summary, deletion\<close>

definition AdminGet :: "env \<Rightarrow> service \<Rightarrow> share_id \<Rightarrow> err + share" where
  "AdminGet env s i = loadActive env (sv_db s) i zero_time"

definition count_where :: "('r \<Rightarrow> bool) \<Rightarrow> 'r list \<Rightarrow> nat" where
  "count_where P rows = length (filter P rows)"

definition AdminSummary :: "env \<Rightarrow> service \<Rightarrow> err + admin_summary" where
  "AdminSummary env s =
     (let now = unix_milli (serverNow env); rows = shares (sv_db s)
      in if ev_db env AtQuery then Inl (Wrapped ''admin summary'' (Message ''sql''))
         else if ev_db env AtSelectKey then Inl (Wrapped ''admin file bytes'' (Message ''sql''))
         else Inr \<lparr>
           Active = count_where (\<lambda>r. case r_expires r of None \<Rightarrow> True | Some e \<Rightarrow> e > now) rows,
           Expired = count_where (\<lambda>r. case r_expires r of None \<Rightarrow> False | Some e \<Rightarrow> e \<le> now) rows,
           TextCount = count_where (\<lambda>r. r_kind r = ''TEXT'') rows,
           FileCount = count_where (\<lambda>r. r_kind r = ''FILE'') rows,
           EncryptedCount = count_where (\<lambda>r. r_privacy r = ''ENCRYPTED'') rows,
           FileBytes = sum_list (map f_size (files (sv_db s)))\<rparr>)"

definition AdminDelete :: "env \<Rightarrow> service \<Rightarrow> share_id \<Rightarrow> service \<times> err option" where
  "AdminDelete env s i =
     (if ev_db env AtBegin then (s, Some (Wrapped ''begin admin delete'' (Message ''sql'')))
      else if ev_db env AtSelectKey then (s, Some (Wrapped ''load admin delete target'' (Message ''sql'')))
      else case row_of r_id (id_string i) (shares (sv_db s)) of
        None \<Rightarrow> (s, Some ErrNotFound)
      | Some r \<Rightarrow>
        (let storageKey = map_option f_key (row_of f_share (r_id r) (files (sv_db s)))
         in if ev_db env AtDelete then (s, Some (Wrapped ''admin delete Share'' (Message ''sql'')))
            else case delete_share (id_string i) (sv_db s) of
              (d1, n) \<Rightarrow>
                (case requireOneRow env n ''admin delete Share'' of
                   Some e \<Rightarrow> (s, Some e)
                 | None \<Rightarrow>
                     if ev_db env AtCommit then (s, Some (Wrapped ''commit admin delete'' (Message ''sql'')))
                     else (case storageKey of
                       None \<Rightarrow> (s\<lparr>sv_db := d1\<rparr>, None)
                     | Some key \<Rightarrow>
                         if key = [] then (s\<lparr>sv_db := d1\<rparr>, None)
                         else (case sv_store s of
                           None \<Rightarrow> (s\<lparr>sv_db := d1\<rparr>,
                                    Some (CleanupError key (Message ''object storage is unavailable'')))
                         | Some fs \<Rightarrow>
                             (case store_delete (ev_io env 0) fs key of
                                (fs1, ce) \<Rightarrow>
                                  (s\<lparr>sv_db := d1, sv_store := Some fs1\<rparr>,
                                   case ce of None \<Rightarrow> None | Some e \<Rightarrow> Some (CleanupError key e))))))))"


section \<open>A listed row is the metadata of the stored Share\<close>

definition listed :: "share \<Rightarrow> admin_item" where
  "listed v =
     \<lparr>ai_ID = ID v, ai_PayloadKind = PayloadKind v, ai_PrivacyMode = PrivacyMode v,
      ai_CreatedAt = CreatedAt v, ai_UpdatedAt = UpdatedAt v, ai_ExpiresAt = ExpiresAt v,
      ai_PayloadBytes =
        (case (Text v, EncryptedText v, File v) of
           (Some t, _) \<Rightarrow> int (length (Content t))
         | (None, Some e, _) \<Rightarrow> int (length (Ciphertext e))
         | (None, None, Some f) \<Rightarrow> Size f
         | _ \<Rightarrow> 0),
      ai_FileFilename = (case File v of None \<Rightarrow> [] | Some f \<Rightarrow> Filename f),
      ai_FileMediaType = (case File v of None \<Rightarrow> [] | Some f \<Rightarrow> MediaType f)\<rparr>"

lemma scan_listed:
  assumes ok: "db_ok d" and r: "r \<in> set (shares d)"
  shows "scanAdminListItem d r = Inr (listed (abs_share d r))"
proof -
  note sch = db_ok_schema [OF ok]
  have row: "row_of r_id (r_id r) (shares d) = Some r"
    using sch r row_of_distinct [of r_id "shares d" "r_id r" r] by (simp add: schema_ok_def)
  note props = db_ok_row [OF ok row]
  consider (std) "r_kind r = ''TEXT''" "r_privacy r = ''STANDARD''"
    | (enc) "r_kind r = ''TEXT''" "r_privacy r = ''ENCRYPTED''"
    | (attached) "r_kind r = ''FILE''" "r_privacy r = ''STANDARD''"
    using props(1) by (auto simp: share_row_ok_def)
  then show ?thesis
  proof cases
    case std
    obtain t where t: "row_of t_share (r_id r) (texts d) = Some t"
      using row_of_in_keys props(3) std by (fastforce simp: has_payload_def)
    with std props(4) show ?thesis
      using schema_no_file [OF sch row] schema_no_enc [OF sch row]
      by (simp add: scanAdminListItem_def payload_bytes_def listed_def abs_share_def Let_def)
  next
    case enc
    obtain e where e: "row_of e_share (r_id r) (encs d) = Some e"
      using row_of_in_keys props(3) enc by (fastforce simp: has_payload_def)
    with enc props(4) show ?thesis
      using schema_no_file [OF sch row] schema_no_text [OF sch row]
      by (simp add: scanAdminListItem_def payload_bytes_def listed_def abs_share_def Let_def)
  next
    case attached
    obtain f where f: "row_of f_share (r_id r) (files d) = Some f"
      using row_of_in_keys props(3) attached by (fastforce simp: has_payload_def)
    with attached props(4) show ?thesis
      using schema_no_text [OF sch row] schema_no_enc [OF sch row] schema_file_row [OF sch f]
      by (simp add: scanAdminListItem_def payload_bytes_def listed_def abs_share_def Let_def file_row_ok_def)
  qed
qed

lemma scan_page_ok:
  assumes "\<And>r. r \<in> set rows \<Longrightarrow> scanAdminListItem d r = Inr (g r)" "length vals \<le> limit"
  shows "scan_page d limit rows vals =
    (if length vals + length rows \<le> limit then Inr (vals @ map g rows, False)
     else Inr (vals @ map g (take (limit - length vals) rows), True))"
  using assms
proof (induction rows arbitrary: vals)
  case (Cons r rs)
  show ?case
  proof (cases "length vals = limit")
    case False
    then have "limit - length vals = Suc (limit - length (vals @ [g r]))" using Cons.prems(2) by simp
    with False Cons show ?thesis by simp
  qed simp
qed simp

section \<open>Paging\<close>

lemma beyond_key: "beyond asc (r_created a) (r_id a) b \<longleftrightarrow> (if asc then row_key a < row_key b else row_key b < row_key a)"
  by (auto simp: beyond_def row_key_def less_list_position_def)

lemma sort_key_strict:
  assumes "distinct (map r_id rows)"
  shows "sorted_wrt (\<lambda>a b. row_key a < row_key b) (sort_key row_key rows)"
proof -
  have "inj_on row_key (set rows)"
    using assms by (auto simp: inj_on_def row_key_def distinct_map)
  then have "distinct (map row_key (sort_key row_key rows))"
    using assms by (simp add: distinct_map)
  then have "sorted_wrt (<) (map row_key (sort_key row_key rows))"
    using strict_sorted_iff [of "map row_key (sort_key row_key rows)"] by simp
  then show ?thesis by (simp add: sorted_wrt_map)
qed

lemma admin_order_strict:
  assumes "distinct (map r_id rows)"
  shows "sorted_wrt (\<lambda>a b. beyond asc (r_created a) (r_id a) b) (admin_order asc rows)"
  using sort_key_strict [OF assms] by (simp add: beyond_key admin_order_def sorted_wrt_rev)

lemma filter_admin_order: "filter P (admin_order asc rows) = admin_order asc (filter P rows)"
  by (simp add: admin_order_def filter_sort rev_filter [symmetric])

lemma set_admin_order [simp]: "set (admin_order asc rows) = set rows"
  by (simp add: admin_order_def)

lemma length_admin_order [simp]: "length (admin_order asc rows) = length rows"
  by (simp add: admin_order_def)

lemma filter_beyond_drop:
  assumes sorted: "sorted_wrt R xs" and k: "k < length xs"
    and irr: "\<And>a. \<not> R a a" and asym: "\<And>a b. R a b \<Longrightarrow> \<not> R b a"
  shows "filter (R (xs ! k)) xs = drop (Suc k) xs"
proof -
  have s: "xs = take k xs @ xs ! k # drop (Suc k) xs" using k by (simp add: id_take_nth_drop)
  have "sorted_wrt R (take k xs @ xs ! k # drop (Suc k) xs)" using sorted s by simp
  then have "\<forall>a\<in>set (take k xs). R a (xs ! k)" "\<forall>b\<in>set (drop (Suc k) xs). R (xs ! k) b"
    by (auto simp: sorted_wrt_append)
  then have "filter (R (xs ! k)) (take k xs @ xs ! k # drop (Suc k) xs) = drop (Suc k) xs"
    using irr asym by (auto simp: filter_empty_conv)
  with s show ?thesis by simp
qed

text \<open>All the matching rows of a listing, in its order.\<close>

definition admin_rows :: "env \<Rightarrow> service \<Rightarrow> admin_filter \<Rightarrow> bool \<Rightarrow> share_row list" where
  "admin_rows env s flt asc =
     admin_order asc [r \<leftarrow> shares (sv_db s). admin_matches flt (unix_milli (serverNow env)) r]"

definition cursor_at :: "share_row list \<Rightarrow> nat \<Rightarrow> string" where
  "cursor_at rows p = (if p = 0 then [] else encodeAdminCursor (r_created (rows ! (p - 1))) (r_id (rows ! (p - 1))))"

lemma page_limit_pos: "0 < page_limit n" "page_limit n \<le> 100"
  by (auto simp: page_limit_def Let_def)

lemma admin_matches_cursor [simp]: "admin_matches (flt\<lparr>af_Cursor := c\<rparr>) now r = admin_matches flt now r"
  by (simp add: admin_matches_def)

lemma AdminList_page:
  assumes ok: "db_ok (sv_db s)" and fine: "\<not> ev_db env AtQuery"
    and life: "af_Lifecycle flt \<in> {''active'', ''expired'', []}" and asc: "sort_ascending (af_Sort flt) = Inr asc"
    and times: "\<forall>r\<in>set (shares (sv_db s)). int64 (r_created r)"
    and p: "p = 0 \<or> p < length (admin_rows env s flt asc)"
  defines "rows \<equiv> admin_rows env s flt asc" and "limit \<equiv> page_limit (af_Limit flt)"
  shows "AdminList env s (flt\<lparr>af_Cursor := cursor_at rows p\<rparr>) =
    Inr (map (\<lambda>r. listed (abs_share (sv_db s) r)) (take limit (drop p rows)),
         if p + limit < length rows then cursor_at rows (p + limit) else [])"
proof -
  let ?d = "sv_db s" and ?now = "unix_milli (serverNow env)"
  let ?c = "cursor_at rows p"
  have sub: "set rows \<subseteq> set (shares ?d)" by (auto simp: rows_def admin_rows_def)
  have canon: "canonical_id (r_id r)" if "r \<in> set (shares ?d)" for r
    using ok that by (simp add: db_ok_def)
  have lim: "0 < limit" unfolding limit_def by (rule page_limit_pos)
  have "distinct (map r_id (shares ?d))" using ok by (simp add: db_ok_def schema_ok_def)
  then have strict: "sorted_wrt (\<lambda>a b. beyond asc (r_created a) (r_id a) b) rows"
    unfolding rows_def admin_rows_def by (intro admin_order_strict) (simp add: distinct_map_filter)
  obtain c i where dec: "decodeAdminCursor ?c = Inr (c, i)"
    and sel: "[r \<leftarrow> rows. ?c = [] \<or> beyond asc c i r] = drop p rows"
  proof (cases "p = 0")
    case True
    then show ?thesis using that [of 0 "[]"] by (simp add: cursor_at_def decodeAdminCursor_def)
  next
    case False
    let ?r = "rows ! (p - 1)"
    have "?r \<in> set rows" using p False by (auto simp: rows_def)
    then have r: "?r \<in> set (shares ?d)" using sub by blast
    have "decodeAdminCursor ?c = Inr (r_created ?r, r_id ?r)"
      using decode_encode_cursor [of "r_created ?r" "r_id ?r"] canon [OF r] times r False
      by (simp add: cursor_at_def)
    moreover have "?c \<noteq> []" using False encode_cursor_nonempty by (simp add: cursor_at_def)
    moreover have "filter (beyond asc (r_created ?r) (r_id ?r)) rows = drop (Suc (p - 1)) rows"
      using p False
      by (intro filter_beyond_drop [OF strict]) (auto simp: beyond_key rows_def split: if_splits)
    ultimately show ?thesis using that False by simp
  qed
  have query: "admin_order asc [r \<leftarrow> shares ?d. admin_matches flt ?now r \<and> (?c = [] \<or> beyond asc c i r)] = drop p rows"
    unfolding sel [symmetric] by (simp add: rows_def admin_rows_def filter_admin_order conj_commute)
  let ?g = "\<lambda>r. listed (abs_share ?d r)"
  have scan: "scanAdminListItem ?d r = Inr (?g r)" if "r \<in> set (take (limit + 1) (drop p rows))" for r
    using that sub by (intro scan_listed [OF ok]) (auto dest!: in_set_takeD in_set_dropD)
  have page: "scan_page ?d limit (take (limit + 1) (drop p rows)) [] =
      Inr (map ?g (take limit (drop p rows)), p + limit < length rows)"
    using scan_page_ok [where vals = "[]", OF scan, where limit = limit]
    by (cases "p + limit < length rows") (auto simp: min_def)
  have "last (map ?g (take limit (drop p rows))) = ?g (rows ! (p + limit - 1))"
    if "p + limit < length rows"
    using that lim by (simp add: last_conv_nth)
  moreover have "map ?g (take limit (drop p rows)) \<noteq> []" if "p + limit < length rows"
    using that lim by auto
  moreover have "id_string (ai_ID (?g r)) = r_id r" "unix_milli (ai_CreatedAt (?g r)) = r_created r" for r
    by (simp_all add: listed_def abs_share_def)
  ultimately show ?thesis
    using life asc dec fine query page lim
    by (simp add: AdminList_def Let_def limit_def [symmetric] cursor_at_def)
qed

text \<open>Following the returned cursors, at most \<open>n\<close> further pages.\<close>

fun follow :: "nat \<Rightarrow> env \<Rightarrow> service \<Rightarrow> admin_filter \<Rightarrow> err + admin_item list" where
  "follow n env s flt =
     (case AdminList env s flt of
        Inl e \<Rightarrow> Inl e
      | Inr (vals, next) \<Rightarrow>
          if next = [] then Inr vals
          else (case n of
                  0 \<Rightarrow> Inl (Message ''more pages'')
                | Suc m \<Rightarrow>
                    (case follow m env s (flt\<lparr>af_Cursor := next\<rparr>) of
                       Inl e \<Rightarrow> Inl e
                     | Inr rest \<Rightarrow> Inr (vals @ rest))))"

declare follow.simps [simp del]

lemma follow_all:
  assumes "db_ok (sv_db s)" "\<not> ev_db env AtQuery"
    and "af_Lifecycle flt \<in> {''active'', ''expired'', []}" "sort_ascending (af_Sort flt) = Inr asc"
    and "\<forall>r\<in>set (shares (sv_db s)). int64 (r_created r)"
    and "p = 0 \<or> p < length (admin_rows env s flt asc)" "length (admin_rows env s flt asc) \<le> p + n"
  shows "follow n env s (flt\<lparr>af_Cursor := cursor_at (admin_rows env s flt asc) p\<rparr>) =
    Inr (map (\<lambda>r. listed (abs_share (sv_db s) r)) (drop p (admin_rows env s flt asc)))"
  using assms(6,7)
proof (induction n arbitrary: p)
  case 0
  then show ?case
    using AdminList_page [OF assms(1-5) 0(1)] page_limit_pos(1) [of "af_Limit flt"]
    by (subst follow.simps) simp
next
  case (Suc n)
  let ?rows = "admin_rows env s flt asc" and ?limit = "page_limit (af_Limit flt)"
  note page = AdminList_page [OF assms(1-5) Suc.prems(1)]
  show ?case
  proof (cases "p + ?limit < length ?rows")
    case False
    then show ?thesis using page by (subst follow.simps) simp
  next
    case True
    have l: "0 < ?limit" by (rule page_limit_pos)
    have "cursor_at ?rows (p + ?limit) \<noteq> []"
      using l encode_cursor_nonempty by (simp add: cursor_at_def)
    moreover have "follow n env s (flt\<lparr>af_Cursor := cursor_at ?rows (p + ?limit)\<rparr>) =
        Inr (map (\<lambda>r. listed (abs_share (sv_db s) r)) (drop (p + ?limit) ?rows))"
      using True l Suc.prems by (intro Suc.IH) auto
    moreover have "drop p ?rows = take ?limit (drop p ?rows) @ drop (p + ?limit) ?rows"
      by (metis add.commute append_take_drop_id drop_drop)
    ultimately show ?thesis using True page by (subst follow.simps) (simp flip: map_append)
  qed
qed


section \<open>Reading and deleting any Share\<close>

lemma AdminGet_refines:
  assumes "db_ok (sv_db s)" "\<not> ev_db env AtSelectShare"
  shows "AdminGet env s i = spec_get (abs_db (sv_db s)) (id_string i) zero_time"
  unfolding AdminGet_def using assms by (rule loadActive_refines)

lemma objects_ok_delete_rows: "objects_ok d st \<Longrightarrow> objects_ok (fst (delete_share i d)) st"
  using delete_share_frame [of _ i d]
  by (auto simp: objects_ok_def split: option.splits) (auto simp: delete_share_def delete_rows_def)

lemma objects_ok_delete_object:
  assumes sch: "schema_ok d" and o: "objects_ok d (Some fs)" and r: "row_of r_id i (shares d) \<noteq> None"
    and g: "row_of f_share i (files d) = Some g"
  shows "objects_ok (fst (delete_share i d)) (Some (fst (store_delete io fs (f_key g))))"
proof -
  have "f_key f \<noteq> f_key g \<and> store_present fs (f_key f)"
    if "f \<in> set (files (fst (delete_share i d)))" for f
    using delete_share_present [OF sch r that, of g] row_of_SomeD [OF g] o by (auto simp: objects_ok_def)
  then show ?thesis by (simp add: objects_ok_def store_delete_other)
qed

lemma AdminDelete_cases:
  assumes "AdminDelete env s i = (s', e)"
  obtains (refused) er where "s' = s" "e = Some er" "errors_as_cleanup er = None"
  | (deleted) r where "row_of r_id (id_string i) (shares (sv_db s)) = Some r"
      "sv_db s' = fst (delete_share (id_string i) (sv_db s))" "sv_retention s' = sv_retention s"
      "e = None \<or> (\<exists>k er. e = Some (CleanupError k er))"
      "sv_store s' = sv_store s \<or> (\<exists>fs g. sv_store s = Some fs
         \<and> row_of f_share (id_string i) (files (sv_db s)) = Some g
         \<and> sv_store s' = Some (fst (store_delete (ev_io env 0) fs (f_key g))))"
proof -
  obtain d1 n where d: "delete_share (id_string i) (sv_db s) = (d1, n)" by fastforce
  let ?row = "row_of r_id (id_string i) (shares (sv_db s))"
  have rowerr: "errors_as_cleanup er = None" if "requireOneRow env n ''admin delete Share'' = Some er" for er
    using that by (auto simp: requireOneRow_def split: if_splits)
  show thesis
  proof (cases "ev_db env AtBegin \<or> ev_db env AtSelectKey \<or> ?row = None \<or> ev_db env AtDelete
      \<or> requireOneRow env n ''admin delete Share'' \<noteq> None \<or> ev_db env AtCommit")
    case True
    then have "\<exists>er. s' = s \<and> e = Some er \<and> errors_as_cleanup er = None"
      using assms d rowerr
      by (cases ?row; cases "requireOneRow env n ''admin delete Share''")
         (auto simp: AdminDelete_def Let_def split: if_splits, metis+)
    then show thesis using refused by blast
  next
    case False
    then obtain r where r: "?row = Some r" by auto
    then have k: "r_id r = id_string i" by (auto dest: row_of_SomeD)
    show thesis
      by (rule deleted [OF r])
         (use assms d False r k in \<open>auto simp: AdminDelete_def Let_def split: option.splits if_splits prod.splits\<close>)
  qed
qed

lemma service_ok_AdminDelete [preserves]:
  assumes ok: "service_ok s"
  shows "service_ok (fst (AdminDelete env s i))"
proof (cases "AdminDelete env s i")
  case (Pair s' e)
  note d = service_okD(1) [OF ok] and o = service_okD(2) [OF ok]
  from Pair show ?thesis
  proof (cases rule: AdminDelete_cases)
    case (refused er)
    with Pair ok show ?thesis by simp
  next
    case (deleted r)
    have "objects_ok (sv_db s') (sv_store s')"
      using deleted(5)
    proof
      assume "sv_store s' = sv_store s"
      with o deleted(2) show ?thesis by (simp add: objects_ok_delete_rows)
    next
      assume "\<exists>fs g. sv_store s = Some fs \<and> row_of f_share (id_string i) (files (sv_db s)) = Some g
         \<and> sv_store s' = Some (fst (store_delete (ev_io env 0) fs (f_key g)))"
      with o deleted(1,2) db_ok_schema [OF d] show ?thesis by (auto intro!: objects_ok_delete_object)
    qed
    with Pair deleted(2) d show ?thesis by (simp add: service_ok_def db_ok_delete_share)
  qed
qed

lemma retention_AdminDelete [preserves]:
  assumes ok: "retention_ok s"
  shows "retention_ok (fst (AdminDelete env s i))"
proof (cases "AdminDelete env s i")
  case (Pair s' e)
  then show ?thesis
  proof (cases rule: AdminDelete_cases)
    case (deleted r)
    then show ?thesis using Pair by (intro retention_keep [OF ok]) (auto simp: delete_share_def split: if_splits)
  qed (use Pair ok in simp)
qed

section \<open>The summary counts every Share once\<close>

lemma count_where_split: "count_where P rows + count_where (\<lambda>r. \<not> P r) rows = length rows"
  by (simp add: count_where_def sum_length_filter_compl)

lemma count_where_cong: "(\<And>r. r \<in> set rows \<Longrightarrow> P r = Q r) \<Longrightarrow> count_where P rows = count_where Q rows"
  by (simp add: count_where_def cong: filter_cong)

lemma AdminSummary_totals:
  assumes "AdminSummary env s = Inr m" "schema_ok (sv_db s)"
  shows "Active m + Expired m = length (shares (sv_db s))"
    and "TextCount m + FileCount m = length (shares (sv_db s))"
    and "EncryptedCount m \<le> TextCount m"
proof -
  let ?rows = "shares (sv_db s)" and ?now = "unix_milli (serverNow env)"
  let ?live = "\<lambda>r. case r_expires r of None \<Rightarrow> True | Some e \<Rightarrow> e > ?now"
  have m: "Active m = count_where ?live ?rows"
    "Expired m = count_where (\<lambda>r. case r_expires r of None \<Rightarrow> False | Some e \<Rightarrow> e \<le> ?now) ?rows"
    "TextCount m = count_where (\<lambda>r. r_kind r = ''TEXT'') ?rows"
    "FileCount m = count_where (\<lambda>r. r_kind r = ''FILE'') ?rows"
    "EncryptedCount m = count_where (\<lambda>r. r_privacy r = ''ENCRYPTED'') ?rows"
    using assms(1) by (auto simp: AdminSummary_def Let_def split: if_splits)
  have "count_where (\<lambda>r. case r_expires r of None \<Rightarrow> False | Some e \<Rightarrow> e \<le> ?now) ?rows
      = count_where (\<lambda>r. \<not> ?live r) ?rows"
    by (rule count_where_cong) (auto split: option.split)
  then show "Active m + Expired m = length ?rows" using m count_where_split [of ?live ?rows] by simp
  have kinds: "share_row_ok r" if "r \<in> set ?rows" for r
    using assms(2) that by (simp add: schema_ok_def)
  have "count_where (\<lambda>r. r_kind r = ''FILE'') ?rows = count_where (\<lambda>r. \<not> r_kind r = ''TEXT'') ?rows"
    by (rule count_where_cong) (auto simp: share_row_ok_def dest!: kinds)
  then show "TextCount m + FileCount m = length ?rows"
    using m count_where_split [of "\<lambda>r. r_kind r = ''TEXT''" ?rows] by simp
  have "count_where (\<lambda>r. r_privacy r = ''ENCRYPTED'') ?rows
      = count_where (\<lambda>r. r_kind r = ''TEXT'' \<and> r_privacy r = ''ENCRYPTED'') ?rows"
    by (rule count_where_cong) (auto simp: share_row_ok_def dest!: kinds)
  also have "\<dots> \<le> count_where (\<lambda>r. r_kind r = ''TEXT'') ?rows"
    by (simp add: count_where_def flip: filter_filter)
  finally show "EncryptedCount m \<le> TextCount m" using m by simp
qed

text \<open>The counts over the rows are counts over the abstract store, and so is the sum over the files.\<close>

definition count_shares :: "(share \<Rightarrow> bool) \<Rightarrow> store_map \<Rightarrow> nat" where
  "count_shares P m = card {i. \<exists>v w. m i = Some (v, w) \<and> P v}"

definition share_file_bytes :: "share \<Rightarrow> int" where
  "share_file_bytes v = (case File v of None \<Rightarrow> 0 | Some f \<Rightarrow> Size f)"

lemma count_where_shares:
  assumes "distinct (map r_id (shares d))" "\<And>r. r \<in> set (shares d) \<Longrightarrow> P (abs_share d r) = Q r"
  shows "count_where Q (shares d) = count_shares P (abs_db d)"
proof -
  have "{i. \<exists>v w. abs_db d i = Some (v, w) \<and> P v} = r_id ` set (filter Q (shares d))"
    using assms by (force simp: abs_db_def row_of_distinct)
  moreover have "distinct (map r_id (filter Q (shares d)))" using assms(1) by (rule distinct_map_filter)
  from distinct_card [OF this] have "card (r_id ` set (filter Q (shares d))) = length (filter Q (shares d))" by simp
  ultimately show ?thesis by (simp only: count_shares_def count_where_def)
qed

lemma milli_expired: "IsExpired (expirationTime e) (serverNow env) \<longleftrightarrow> (case e of None \<Rightarrow> False | Some m \<Rightarrow> m \<le> unix_milli (serverNow env))"
proof -
  have "from_milli m \<le> serverNow env \<longleftrightarrow> m \<le> unix_milli (serverNow env)" for m
    by (metis serverNow_def from_milli_unix_milli from_milli_le_iff unix_milli_from_milli)
  then show ?thesis by (simp add: expirationTime_def split: option.split)
qed

lemma file_bytes_sum:
  assumes "schema_ok d"
  shows "sum_list (map f_size (files d)) = (\<Sum>i\<in>dom (abs_db d). share_file_bytes (fst (the (abs_db d i))))"
proof -
  let ?g = "\<lambda>i. share_file_bytes (fst (the (abs_db d i)))"
  have dist: "distinct (map f_share (files d))" "distinct (map r_id (shares d))"
    and typed: "\<forall>f\<in>set (files d). typed_share d (f_share f) ''FILE'' ''STANDARD''"
    using assms by (simp_all add: schema_ok_def)
  have dom: "dom (abs_db d) = r_id ` set (shares d)"
    using dist(2) by (force simp: abs_db_def row_of_distinct dom_def)
  have sub: "f_share ` set (files d) \<subseteq> dom (abs_db d)"
    using typed by (auto simp: typed_share_row abs_db_def)
  have row: "\<exists>r. row_of r_id i (shares d) = Some r" if "i \<in> dom (abs_db d)" for i
    using that by (auto simp: abs_db_def dom_def)
  have g: "?g (f_share f) = f_size f" if "f \<in> set (files d)" for f
  proof -
    have "f_share f \<in> dom (abs_db d)" using sub that by blast
    with row obtain r where r: "row_of r_id (f_share f) (shares d) = Some r" by blast
    then have "r_id r = f_share f" by (auto dest: row_of_SomeD)
    moreover have "row_of f_share (f_share f) (files d) = Some f" using dist(1) that by (simp add: row_of_distinct)
    ultimately show ?thesis using r by (simp add: abs_db_def abs_share_def share_file_bytes_def)
  qed
  have zero: "?g i = 0" if "i \<in> dom (abs_db d)" "i \<notin> f_share ` set (files d)" for i
  proof -
    from row [OF that(1)] obtain r where r: "row_of r_id i (shares d) = Some r" by blast
    then have "r_id r = i" by (auto dest: row_of_SomeD)
    moreover have "row_of f_share i (files d) = None" using that(2) by (auto simp: row_of_None_iff keys_of_def)
    ultimately show ?thesis using r by (simp add: abs_db_def abs_share_def share_file_bytes_def)
  qed
  have "sum_list (map f_size (files d)) = (\<Sum>f\<in>set (files d). f_size f)"
    using dist(1) by (intro sum_list_distinct_conv_sum_set) (simp add: distinct_map)
  also have "\<dots> = (\<Sum>f\<in>set (files d). ?g (f_share f))" using g by simp
  also have "\<dots> = sum ?g (f_share ` set (files d))"
    using dist(1) by (simp add: distinct_map sum.reindex)
  also have "\<dots> = sum ?g (dom (abs_db d))"
    using sub zero by (intro sum.mono_neutral_left) (auto simp: dom)
  finally show ?thesis .
qed

lemma AdminSummary_exact:
  assumes "AdminSummary env s = Inr m" "schema_ok (sv_db s)"
  shows "Active m = count_shares (\<lambda>v. \<not> IsExpired (ExpiresAt v) (serverNow env)) (abs_db (sv_db s))"
    and "Expired m = count_shares (\<lambda>v. IsExpired (ExpiresAt v) (serverNow env)) (abs_db (sv_db s))"
    and "TextCount m = count_shares (\<lambda>v. PayloadKind v = PayloadText) (abs_db (sv_db s))"
    and "FileCount m = count_shares (\<lambda>v. PayloadKind v = PayloadFile) (abs_db (sv_db s))"
    and "EncryptedCount m = count_shares (\<lambda>v. PrivacyMode v = PrivacyEncrypted) (abs_db (sv_db s))"
    and "FileBytes m = (\<Sum>i\<in>dom (abs_db (sv_db s)). share_file_bytes (fst (the (abs_db (sv_db s) i))))"
proof -
  let ?rows = "shares (sv_db s)" and ?now = "unix_milli (serverNow env)"
  have m: "Active m = count_where (\<lambda>r. case r_expires r of None \<Rightarrow> True | Some e \<Rightarrow> e > ?now) ?rows"
    "Expired m = count_where (\<lambda>r. case r_expires r of None \<Rightarrow> False | Some e \<Rightarrow> e \<le> ?now) ?rows"
    "TextCount m = count_where (\<lambda>r. r_kind r = ''TEXT'') ?rows"
    "FileCount m = count_where (\<lambda>r. r_kind r = ''FILE'') ?rows"
    "EncryptedCount m = count_where (\<lambda>r. r_privacy r = ''ENCRYPTED'') ?rows"
    "FileBytes m = sum_list (map f_size (files (sv_db s)))"
    using assms(1) by (auto simp: AdminSummary_def Let_def split: if_splits)
  have dist: "distinct (map r_id ?rows)" and rows: "\<And>r. r \<in> set ?rows \<Longrightarrow> share_row_ok r"
    using assms(2) by (simp_all add: schema_ok_def)
  note c = count_where_shares [OF dist]
  show "Active m = count_shares (\<lambda>v. \<not> IsExpired (ExpiresAt v) (serverNow env)) (abs_db (sv_db s))"
    unfolding m(1) by (rule c) (auto simp: abs_share_def milli_expired split: option.split)
  show "Expired m = count_shares (\<lambda>v. IsExpired (ExpiresAt v) (serverNow env)) (abs_db (sv_db s))"
    unfolding m(2) by (rule c) (auto simp: abs_share_def milli_expired)
  show "TextCount m = count_shares (\<lambda>v. PayloadKind v = PayloadText) (abs_db (sv_db s))"
    unfolding m(3) by (rule c) (auto simp: abs_share_def share_row_ok_def dest!: rows)
  show "FileCount m = count_shares (\<lambda>v. PayloadKind v = PayloadFile) (abs_db (sv_db s))"
    unfolding m(4) by (rule c) (auto simp: abs_share_def share_row_ok_def dest!: rows)
  show "EncryptedCount m = count_shares (\<lambda>v. PrivacyMode v = PrivacyEncrypted) (abs_db (sv_db s))"
    unfolding m(5) by (rule c) (auto simp: abs_share_def)
  show "FileBytes m = (\<Sum>i\<in>dom (abs_db (sv_db s)). share_file_bytes (fst (the (abs_db (sv_db s) i))))"
    unfolding m(6) by (rule file_bytes_sum [OF assms(2)])
qed

end
