(* ===== verification/Reconcile.thy ===== *)
theory Reconcile
  imports ObjectStore
begin

text \<open>
  \<open>(*Local).Reconcile\<close> of \<open>internal/objectstore/local.go\<close>: the sweep over the object
  directory that removes stale staging files and unreferenced objects, counts anomalies, and
  counts referenced keys without an object.  \<open>refs\<close> are the keys of the Go map of references,
  in the order of its iteration.
\<close>

record reconcile_result =
  StagesDeleted :: nat
  OrphansDeleted :: nat
  MissingReferenced :: nat
  Anomalies :: nat

definition no_result :: reconcile_result where
  "no_result = \<lparr>StagesDeleted = 0, OrphansDeleted = 0, MissingReferenced = 0, Anomalies = 0\<rparr>"

text \<open>\<open>fs.ReadDir\<close>: the names directly under the root, or under one directory, sorted.\<close>

definition root_names :: "fs \<Rightarrow> string list" where
  "root_names fs = sort (filter (\<lambda>p. CHR ''/'' \<notin> set p) (map fst fs))"

definition child_names :: "fs \<Rightarrow> string \<Rightarrow> string list" where
  "child_names fs name =
     sort (map (drop (length name + 1))
       (filter (\<lambda>p. has_prefix p (name @ ''/'') \<and> CHR ''/'' \<notin> set (drop (length name + 1) p)) (map fst fs)))"

fun reconcile_children ::
  "io \<Rightarrow> string list \<Rightarrow> time \<Rightarrow> string \<Rightarrow> string list \<Rightarrow> fs \<Rightarrow> reconcile_result
     \<Rightarrow> fs \<times> reconcile_result \<times> err option" where
  "reconcile_children io refs stale name [] fs res = (fs, res, None)"
| "reconcile_children io refs stale name (c # cs) fs res =
     (let rel = name @ ''/'' @ c; key = name @ c
      in if io (OpCtx rel) then (fs, res, Some (Message ''context''))
         else if io (OpLstat rel) then (fs, res, Some (Message ''lstat''))
         else case lstat fs rel of
           None \<Rightarrow> (fs, res, Some ErrNotExist)
         | Some n \<Rightarrow>
             if \<not> validKey key \<or> \<not> is_regular n
             then reconcile_children io refs stale name cs fs (res\<lparr>Anomalies := Anomalies res + 1\<rparr>)
             else if key \<notin> set refs \<and> \<not> mod_time n > stale
             then (case fs_unlink io rel fs of
                     (fs1, Some e) \<Rightarrow> (fs1, res, Some e)
                   | (fs1, None) \<Rightarrow>
                       reconcile_children io refs stale name cs fs1
                         (res\<lparr>OrphansDeleted := OrphansDeleted res + 1\<rparr>))
             else reconcile_children io refs stale name cs fs res)"

fun reconcile_entries ::
  "io \<Rightarrow> string list \<Rightarrow> time \<Rightarrow> string list \<Rightarrow> fs \<Rightarrow> reconcile_result
     \<Rightarrow> fs \<times> reconcile_result \<times> err option" where
  "reconcile_entries io refs stale [] fs res = (fs, res, None)"
| "reconcile_entries io refs stale (name # names) fs res =
     (if io (OpCtx name) then (fs, res, Some (Message ''context''))
      else if io (OpLstat name) then (fs, res, Some (Message ''lstat''))
      else case lstat fs name of
        None \<Rightarrow> (fs, res, Some ErrNotExist)
      | Some n \<Rightarrow>
          if has_prefix name ''.stage-''
          then if is_regular n \<and> \<not> mod_time n > stale
               then (case fs_unlink io name fs of
                       (fs1, Some e) \<Rightarrow> (fs1, res, Some e)
                     | (fs1, None) \<Rightarrow>
                         reconcile_entries io refs stale names fs1
                           (res\<lparr>StagesDeleted := StagesDeleted res + 1\<rparr>))
               else if \<not> is_regular n
               then reconcile_entries io refs stale names fs (res\<lparr>Anomalies := Anomalies res + 1\<rparr>)
               else reconcile_entries io refs stale names fs res
          else if \<not> validShard name \<or> n \<noteq> Directory
          then reconcile_entries io refs stale names fs (res\<lparr>Anomalies := Anomalies res + 1\<rparr>)
          else if io (OpReadDir name) then (fs, res, Some (Message ''readdir''))
          else (case reconcile_children io refs stale name (child_names fs name) fs res of
                  (fs1, res1, Some e) \<Rightarrow> (fs1, res1, Some e)
                | (fs1, res1, None) \<Rightarrow> reconcile_entries io refs stale names fs1 res1))"

fun reconcile_missing ::
  "io \<Rightarrow> string list \<Rightarrow> fs \<Rightarrow> reconcile_result \<Rightarrow> reconcile_result \<times> err option" where
  "reconcile_missing io [] fs res = (res, None)"
| "reconcile_missing io (key # ks) fs res =
     (if io (OpCtx key) then (res, Some (Message ''context''))
      else case relative key of
        Inl e \<Rightarrow> reconcile_missing io ks fs (res\<lparr>MissingReferenced := MissingReferenced res + 1\<rparr>)
      | Inr rel \<Rightarrow>
          if io (OpLstat rel) \<or> (case lstat fs rel of None \<Rightarrow> True | Some n \<Rightarrow> \<not> is_regular n)
          then reconcile_missing io ks fs (res\<lparr>MissingReferenced := MissingReferenced res + 1\<rparr>)
          else reconcile_missing io ks fs res)"

definition Reconcile :: "io \<Rightarrow> string list \<Rightarrow> time \<Rightarrow> fs \<Rightarrow> fs \<times> reconcile_result \<times> err option" where
  "Reconcile io refs stale fs =
     (if io (OpReadDir ''.'') then (fs, no_result, Some (Message ''readdir''))
      else case reconcile_entries io refs stale (root_names fs) fs no_result of
             (fs1, res1, Some e) \<Rightarrow> (fs1, res1, Some e)
           | (fs1, res1, None) \<Rightarrow>
               (case reconcile_missing io refs fs1 res1 of (res2, e) \<Rightarrow> (fs1, res2, e)))"

section \<open>What a sweep may remove\<close>

text \<open>
  The specification: the sweep only removes, and only stale staging files and stale objects
  whose key is not referenced.
\<close>

definition removable :: "string list \<Rightarrow> time \<Rightarrow> string \<Rightarrow> node \<Rightarrow> bool" where
  "removable refs stale p n \<longleftrightarrow>
     is_regular n \<and> mod_time n \<le> stale
     \<and> (has_prefix p ''.stage-'' \<or> (\<exists>key. relative key = Inr p \<and> key \<notin> set refs))"

definition swept :: "string list \<Rightarrow> time \<Rightarrow> fs \<Rightarrow> fs \<Rightarrow> bool" where
  "swept refs stale fs fs' \<longleftrightarrow>
     (\<forall>p. lstat fs' p = lstat fs p
          \<or> (lstat fs' p = None \<and> (\<exists>n. lstat fs p = Some n \<and> removable refs stale p n)))"

lemma swept_refl [simp]: "swept refs stale fs fs"
  by (simp add: swept_def)

lemma swept_trans: "swept refs stale a b \<Longrightarrow> swept refs stale b c \<Longrightarrow> swept refs stale a c"
  unfolding swept_def by metis

lemma swept_unlink:
  "lstat fs p = Some n \<Longrightarrow> removable refs stale p n \<Longrightarrow> swept refs stale fs (fst (fs_unlink io p fs))"
  by (auto simp: swept_def lstat_unlink)

lemma relative_child: "length name = 2 \<Longrightarrow> validKey (name @ c) \<Longrightarrow> relative (name @ c) = Inr (name @ ''/'' @ c)"
  by (simp add: relative_def)

lemma swept_children:
  "length name = 2 \<Longrightarrow> swept refs stale fs (fst (reconcile_children io refs stale name cs fs res))"
proof (induction cs arbitrary: fs res)
  case (Cons c cs)
  let ?rel = "name @ ''/'' @ c"
  show ?case
  proof (cases "io (OpCtx ?rel) \<or> io (OpLstat ?rel) \<or> lstat fs ?rel = None")
    case True
    then show ?thesis by (auto simp: Let_def)
  next
    case False
    then obtain n where n: "lstat fs ?rel = Some n" by blast
    have keep: "swept refs stale fs (fst (reconcile_children io refs stale name cs fs r))" for r
      using Cons by blast
    show ?thesis
    proof (cases "validKey (name @ c) \<and> is_regular n \<and> name @ c \<notin> set refs \<and> \<not> mod_time n > stale")
      case False
      with n keep \<open>\<not> (io _ \<or> _)\<close> show ?thesis by (auto simp: Let_def)
    next
      case True
      then have rm: "removable refs stale ?rel n"
        using relative_child [OF Cons.prems] by (auto simp: removable_def)
      obtain fs1 e where u: "fs_unlink io ?rel fs = (fs1, e)" by (cases "fs_unlink io ?rel fs")
      have s1: "swept refs stale fs fs1" using swept_unlink [OF n rm, of io] u by simp
      have s2: "swept refs stale fs1 (fst (reconcile_children io refs stale name cs fs1 r))" for r
        using Cons by blast
      show ?thesis using True n u s1 swept_trans [OF s1 s2] \<open>\<not> (io _ \<or> _)\<close>
        by (cases e) (auto simp: Let_def)
    qed
  qed
qed simp

lemma swept_entries: "swept refs stale fs (fst (reconcile_entries io refs stale names fs res))"
proof (induction names arbitrary: fs res)
  case (Cons name names)
  show ?case
  proof (cases "io (OpCtx name) \<or> io (OpLstat name) \<or> lstat fs name = None")
    case True
    then show ?thesis by auto
  next
    case False
    then obtain n where n: "lstat fs name = Some n" by blast
    note base = \<open>\<not> (io _ \<or> _)\<close> n
    consider (stage) "has_prefix name ''.stage-''" "is_regular n" "\<not> mod_time n > stale"
      | (skip) "has_prefix name ''.stage-''" "\<not> (is_regular n \<and> \<not> mod_time n > stale)"
      | (odd) "\<not> has_prefix name ''.stage-''" "\<not> validShard name \<or> n \<noteq> Directory"
      | (shard) "\<not> has_prefix name ''.stage-''" "validShard name" "n = Directory"
      by blast
    then show ?thesis
    proof cases
      case stage
      then have rm: "removable refs stale name n" by (auto simp: removable_def)
      obtain fs1 e where u: "fs_unlink io name fs = (fs1, e)" by (cases "fs_unlink io name fs")
      have s1: "swept refs stale fs fs1" using swept_unlink [OF n rm, of io] u by simp
      show ?thesis using stage base u s1 swept_trans [OF s1 Cons.IH] by (cases e) auto
    next
      case skip
      with base Cons.IH show ?thesis by auto
    next
      case odd
      with base Cons.IH show ?thesis by auto
    next
      case shard
      obtain fs1 res1 e where c: "reconcile_children io refs stale name (child_names fs name) fs res = (fs1, res1, e)"
        by (cases "reconcile_children io refs stale name (child_names fs name) fs res")
      have "length name = 2" using shard(2) by (simp add: validShard_def)
      then have s1: "swept refs stale fs fs1"
        using swept_children [of name refs stale fs io "child_names fs name" res] c by simp
      show ?thesis using shard base c s1 swept_trans [OF s1 Cons.IH] by (cases e) auto
    qed
  qed
qed simp

lemma Reconcile_fs: "fst (Reconcile io refs stale fs) = fs \<or>
    fst (Reconcile io refs stale fs) = fst (reconcile_entries io refs stale (root_names fs) fs no_result)"
  by (auto simp: Reconcile_def split: prod.splits option.splits)

lemma swept_Reconcile: "swept refs stale fs (fst (Reconcile io refs stale fs))"
proof (rule disjE [OF Reconcile_fs [of io refs stale fs]])
  assume "fst (Reconcile io refs stale fs) = fs"
  then show ?thesis by (simp only: swept_refl)
next
  assume "fst (Reconcile io refs stale fs) =
    fst (reconcile_entries io refs stale (root_names fs) fs no_result)"
  then show ?thesis by (simp only: swept_entries)
qed

lemma swept_content:
  assumes "swept refs stale fs fs'" "k \<in> set refs"
  shows "store_object fs' k = store_object fs k"
proof (cases "relative k")
  case (Inr rel)
  have "\<not> removable refs stale rel n" for n
    unfolding removable_def using assms(2) relative_not_stage [OF Inr] relative_inject [OF _ Inr]
    by blast
  with assms(1) have "lstat fs' rel = lstat fs rel" by (auto simp: swept_def)
  with Inr show ?thesis by (simp add: store_object_def)
qed (simp add: store_object_def)

lemma swept_present_ref:
  assumes "swept refs stale fs fs'" "k \<in> set refs"
  shows "store_present fs' k = store_present fs k"
  by (simp add: store_present_iff swept_content [OF assms])

lemma swept_shrinks: "swept refs stale fs fs' \<Longrightarrow> lstat fs p = None \<Longrightarrow> lstat fs' p = None"
  by (auto simp: swept_def dest: spec [of _ p])

lemma swept_cases:
  assumes "swept refs stale fs fs'" "lstat fs p = Some n"
  obtains "lstat fs' p = Some n" | "lstat fs' p = None" "removable refs stale p n"
  using assms by (auto simp: swept_def dest: spec [of _ p])

lemma swept_directory: "swept refs stale fs fs' \<Longrightarrow> lstat fs p = Some Directory \<Longrightarrow> lstat fs' p = Some Directory"
  by (erule (1) swept_cases) (auto simp: removable_def)

section \<open>A successful sweep is complete\<close>

lemma children_complete:
  assumes "length name = 2" "validKey (name @ c)" "name @ c \<notin> set refs" "is_regular n" "mod_time n \<le> stale"
  shows "snd (snd (reconcile_children io refs stale name cs fs res)) = None \<Longrightarrow> c \<in> set cs \<Longrightarrow>
    lstat fs (name @ ''/'' @ c) = Some n \<Longrightarrow>
    lstat (fst (reconcile_children io refs stale name cs fs res)) (name @ ''/'' @ c) = None"
proof (induction cs arbitrary: fs res)
  case (Cons d cs)
  let ?p = "name @ ''/'' @ c" and ?q = "name @ ''/'' @ d"
  let ?run = "\<lambda>fs res. reconcile_children io refs stale name cs fs res"
  have gone: "lstat (fst (?run g r)) ?p = None" if "lstat g ?p = None" for g r
    by (rule swept_shrinks [OF swept_children [OF assms(1)] that])
  show ?case
  proof (cases "d = c")
    case True
    have "fst (reconcile_children io refs stale name (d # cs) fs res)
      = fst (?run (fst (fs_unlink io ?p fs)) (res\<lparr>OrphansDeleted := OrphansDeleted res + 1\<rparr>))"
      and "snd (fs_unlink io ?p fs) = None"
      using Cons.prems True assms
      by (auto simp: Let_def split: if_splits prod.splits option.splits)
    moreover from this(2) have "lstat (fst (fs_unlink io ?p fs)) ?p = None" by (simp add: lstat_unlink)
    ultimately show ?thesis using gone by simp
  next
    case False
    then obtain g r where
      step: "reconcile_children io refs stale name (d # cs) fs res = ?run g r" and "lstat g ?p = lstat fs ?p"
      using Cons.prems by (auto simp: Let_def fs_unlink_def split: if_splits prod.splits option.splits)
    then show ?thesis using Cons.IH [of g r] Cons.prems False by simp
  qed
qed simp

lemma in_paths: "p \<in> fst ` set fs \<longleftrightarrow> lstat fs p \<noteq> None"
  by (metis lstat_def map_of_eq_None_iff)

lemma child_listed:
  "lstat fs (name @ ''/'' @ c) \<noteq> None \<Longrightarrow> CHR ''/'' \<notin> set c \<Longrightarrow> c \<in> set (child_names fs name)"
proof -
  assume "lstat fs (name @ ''/'' @ c) \<noteq> None" and c: "CHR ''/'' \<notin> set c"
  then have "name @ ''/'' @ c \<in> fst ` set fs" by (simp only: in_paths not_False_eq_True)
  moreover have "drop (length name + 1) (name @ ''/'' @ c) = c"
    and "has_prefix (name @ ''/'' @ c) (name @ ''/'')"
    by (simp_all add: has_prefix_def)
  ultimately show ?thesis
    using c unfolding child_names_def by (force simp del: append_Cons)
qed

definition sweep_target :: "string list \<Rightarrow> string list \<Rightarrow> fs \<Rightarrow> string \<Rightarrow> bool" where
  "sweep_target refs names fs p \<longleftrightarrow>
     (p \<in> set names \<and> has_prefix p ''.stage-'')
     \<or> (\<exists>key. relative key = Inr p \<and> key \<notin> set refs \<and> take 2 key \<in> set names
          \<and> lstat fs (take 2 key) = Some Directory)"

lemma hex_encode_zeros: "hex_encode (replicate n (char_of (0::nat))) = replicate (2 * n) (CHR ''0'')"
proof (induction n)
  case (Suc n)
  have "hex_digit 0 = CHR ''0''" by code_simp
  with Suc show ?case by (simp add: byte_def)
qed simp

lemma validShard_key: "validKey k \<Longrightarrow> validShard (take 2 k)"
proof -
  assume "validKey k"
  then obtain d where d: "length d = 16" "k = hex_encode d" by (auto simp: validKey_iff)
  then obtain b r where "d = b # r" by (cases d) auto
  with d have "take 2 k @ replicate 30 (CHR ''0'') = hex_encode (b # replicate 15 (char_of (0::nat)))"
    using hex_encode_zeros [of 15] by simp
  then have "validKey (take 2 k @ replicate 30 (CHR ''0''))"
    unfolding validKey_iff by (intro exI [of _ "b # replicate 15 (char_of (0::nat))"]) simp
  moreover have "length (take 2 k) = 2" using d by (simp add: length_hex_encode)
  ultimately show ?thesis by (simp add: validShard_def)
qed

lemma entries_step:
  assumes "snd (snd (reconcile_entries io refs stale (a # names) fs res)) = None"
  obtains fs1 res1 where
    "reconcile_entries io refs stale (a # names) fs res = reconcile_entries io refs stale names fs1 res1"
    "swept refs stale fs fs1"
    "\<And>n. \<lbrakk>has_prefix a ''.stage-''; lstat fs a = Some n; is_regular n; mod_time n \<le> stale\<rbrakk>
        \<Longrightarrow> lstat fs1 a = None"
    "\<And>key rel n. \<lbrakk>relative key = Inr rel; take 2 key = a; key \<notin> set refs; lstat fs a = Some Directory;
        lstat fs rel = Some n; is_regular n; mod_time n \<le> stale\<rbrakk> \<Longrightarrow> lstat fs1 rel = None"
proof -
  from assms obtain m where m: "lstat fs a = Some m" and io: "\<not> io (OpCtx a)" "\<not> io (OpLstat a)"
    by (auto split: if_splits option.splits)
  have nodot: "\<not> has_prefix (take 2 key) ''.stage-''" for key :: string
    by (auto simp: has_prefix_def dest: arg_cong [where f = length])
  show thesis
  proof (cases "has_prefix a ''.stage-''")
    case True
    show ?thesis
    proof (cases "is_regular m \<and> \<not> stale < mod_time m")
      case True
      with assms m io \<open>has_prefix a _\<close> have u: "snd (fs_unlink io a fs) = None"
        by (auto split: prod.splits option.splits)
      let ?fs1 = "fst (fs_unlink io a fs)"
      have e: "reconcile_entries io refs stale (a # names) fs res
          = reconcile_entries io refs stale names ?fs1 (res\<lparr>StagesDeleted := StagesDeleted res + 1\<rparr>)"
        using True m io u \<open>has_prefix a _\<close> by (auto split: prod.splits)
      have s: "swept refs stale fs ?fs1"
        using m True \<open>has_prefix a _\<close> by (intro swept_unlink [of fs a m]) (auto simp: removable_def)
      show ?thesis
        by (rule that [OF e s]) (use u nodot \<open>has_prefix a _\<close> in \<open>auto simp: lstat_unlink\<close>)
    next
      case False
      then obtain r where e: "reconcile_entries io refs stale (a # names) fs res
          = reconcile_entries io refs stale names fs r"
        using m io \<open>has_prefix a _\<close> by (cases "is_regular m") auto
      show ?thesis
        by (rule that [OF e swept_refl]) (use m False nodot \<open>has_prefix a _\<close> in auto)
    qed
  next
    case False
    show ?thesis
    proof (cases "validShard a \<and> m = Directory")
      case True
      let ?c = "reconcile_children io refs stale a (child_names fs a) fs res"
      have none: "snd (snd ?c) = None" and e: "reconcile_entries io refs stale (a # names) fs res
          = reconcile_entries io refs stale names (fst ?c) (fst (snd ?c))"
        using assms m io True False by (auto split: prod.splits option.splits if_splits)
      have len: "length a = 2" using True by (simp add: validShard_def)
      have rest: "lstat (fst ?c) rel = None"
        if "relative key = Inr rel" "take 2 key = a" "key \<notin> set refs" "lstat fs rel = Some n"
          "is_regular n" "mod_time n \<le> stale" for key rel n
      proof -
        have k: "key = a @ drop 2 key" using that(2) by (metis append_take_drop_id)
        from that(1) have v: "validKey key" and r: "rel = a @ ''/'' @ drop 2 key"
          using that(2) by (auto simp: relative_Inr_iff)
        have "CHR ''/'' \<notin> set (drop 2 key)"
          using validKey_no_slash [OF v] by (meson in_set_dropD)
        then have "drop 2 key \<in> set (child_names fs a)"
          using child_listed [of fs a "drop 2 key"] that(4) r by simp
        then show ?thesis
          using children_complete [OF len, of "drop 2 key" refs n stale io "child_names fs a" fs res]
            none k v that(3-6) r by simp
      qed
      show ?thesis
        by (rule that [OF e swept_children [OF len]]) (use False rest in auto)
    next
      case F: False
      then have e: "reconcile_entries io refs stale (a # names) fs res
          = reconcile_entries io refs stale names fs (res\<lparr>Anomalies := Anomalies res + 1\<rparr>)"
        using m io False by auto
      show ?thesis
        by (rule that [OF e swept_refl])
          (use F m False validShard_key in \<open>auto simp: relative_Inr_iff\<close>)
    qed
  qed
qed

lemma entries_complete:
  "snd (snd (reconcile_entries io refs stale names fs res)) = None \<Longrightarrow> sweep_target refs names fs p \<Longrightarrow>
   lstat fs p = Some n \<Longrightarrow> removable refs stale p n \<Longrightarrow>
   lstat (fst (reconcile_entries io refs stale names fs res)) p = None"
proof (induction names arbitrary: fs res)
  case Nil
  then show ?case by (auto simp: sweep_target_def)
next
  case (Cons a names)
  have n: "is_regular n" "mod_time n \<le> stale" using Cons.prems(4) by (auto simp: removable_def)
  obtain fs1 res1 where
    e: "reconcile_entries io refs stale (a # names) fs res = reconcile_entries io refs stale names fs1 res1"
    and s: "swept refs stale fs fs1"
    and stage: "\<And>m. \<lbrakk>has_prefix a ''.stage-''; lstat fs a = Some m; is_regular m; mod_time m \<le> stale\<rbrakk>
        \<Longrightarrow> lstat fs1 a = None"
    and orphan: "\<And>key rel m. \<lbrakk>relative key = Inr rel; take 2 key = a; key \<notin> set refs;
        lstat fs a = Some Directory; lstat fs rel = Some m; is_regular m; mod_time m \<le> stale\<rbrakk>
        \<Longrightarrow> lstat fs1 rel = None"
    by (rule entries_step [OF Cons.prems(1)]) (rule that; blast)
  show ?case
  proof (cases "lstat fs1 p = None")
    case True
    then show ?thesis using e swept_shrinks [OF swept_entries] by metis
  next
    case False
    then have p1: "lstat fs1 p = Some n"
      using swept_cases [OF s Cons.prems(3)] by fastforce
    have "sweep_target refs names fs1 p"
      using Cons.prems(2) unfolding sweep_target_def
    proof (elim disjE exE conjE)
      assume h: "p \<in> set (a # names)" "has_prefix p ''.stage-''"
      have "p \<noteq> a" using stage [of n] Cons.prems(3) n h(2) False by auto
      with h show "p \<in> set names \<and> has_prefix p ''.stage-'' \<or> (\<exists>key. relative key = Inr p
        \<and> key \<notin> set refs \<and> take 2 key \<in> set names \<and> lstat fs1 (take 2 key) = Some Directory)" by simp
    next
      fix key
      assume h: "relative key = Inr p" "key \<notin> set refs" "take 2 key \<in> set (a # names)"
        "lstat fs (take 2 key) = Some Directory"
      have "take 2 key \<noteq> a" using orphan [OF h(1) _ h(2) _ Cons.prems(3) n] h(4) False by auto
      with h swept_directory [OF s h(4)] show "p \<in> set names \<and> has_prefix p ''.stage-'' \<or>
        (\<exists>key. relative key = Inr p \<and> key \<notin> set refs \<and> take 2 key \<in> set names
          \<and> lstat fs1 (take 2 key) = Some Directory)" by auto
    qed
    then show ?thesis using Cons.IH [of fs1 res1] Cons.prems(1,4) e p1 by simp
  qed
qed

section \<open>Counting missing objects\<close>

lemma reconcile_missing_count:
  assumes "\<And>op. \<not> io op"
  shows "reconcile_missing io ks fs res =
    (res\<lparr>MissingReferenced := MissingReferenced res + length (filter (\<lambda>k. \<not> store_present fs k) ks)\<rparr>, None)"
proof (induction ks arbitrary: res)
  case (Cons k ks)
  then show ?case
    by (cases "relative k") (simp_all add: assms store_present_def split: option.splits)
qed simp

lemma children_missing [simp]:
  "MissingReferenced (fst (snd (reconcile_children io refs stale name cs fs res))) = MissingReferenced res"
  by (induction cs arbitrary: fs res) (simp_all add: Let_def split: option.splits prod.splits)

lemma entries_missing:
  "MissingReferenced (fst (snd (reconcile_entries io refs stale names fs res))) = MissingReferenced res"
proof (induction names arbitrary: fs res)
  case (Cons a names)
  have "MissingReferenced r = MissingReferenced res"
    if "reconcile_children io refs stale a cs fs res = (g, r, e)" for cs g r e
    using children_missing [of io refs stale a cs fs res] that by simp
  with Cons show ?case by (simp split: option.splits prod.splits)
qed simp

section \<open>The contract of a reconciler\<close>

text \<open>
  \<open>maintenance.Service\<close> hands the reconciler the keys still referenced and relies on it to
  leave their objects alone; together with the store contract, a purge followed by a sweep
  removes no referenced object.
\<close>

locale reconciling_store = object_store look del
  for look :: "'s \<Rightarrow> string \<Rightarrow> 'o option" and del +
  fixes sweep :: "string list \<Rightarrow> 's \<Rightarrow> 's"
  assumes sweep_keeps: "k \<in> set refs \<Longrightarrow> look (sweep refs s) k = look s k"
    and sweep_shrinks: "look (sweep refs s) k = Some x \<Longrightarrow> look s k = Some x"
begin

lemma purge_sweep_keeps:
  "k \<notin> set dels \<Longrightarrow> k \<in> set refs \<Longrightarrow>
     look (sweep refs (fst (delete_loop del dels s))) k = look s k"
  by (simp add: sweep_keeps loop_other)

lemma purge_sweep_shrinks:
  "look (sweep refs (fst (delete_loop del dels s))) k = Some x \<Longrightarrow> look s k = Some x"
  by (blast dest: sweep_shrinks loop_shrinks)

end

lemma swept_content_shrinks:
  assumes "swept refs stale fs fs'" "store_object fs' k = Some x"
  shows "store_object fs k = Some x"
proof (cases "relative k")
  case (Inr rel)
  then have "lstat fs' rel = lstat fs rel \<or> lstat fs' rel = None"
    using assms(1) by (auto simp: swept_def)
  with assms(2) Inr show ?thesis by (auto simp: store_object_def)
qed (use assms in \<open>simp add: store_object_def\<close>)

interpretation local_reconciler: reconciling_store store_object "store_delete io"
    "\<lambda>refs fs. fst (Reconcile io refs stale fs)" for io stale
proof (unfold_locales, goal_cases)
  case (1 k refs s)
  then show ?case by (rule swept_content [OF swept_Reconcile])
next
  case (2 refs s k x)
  then show ?case by (rule swept_content_shrinks [OF swept_Reconcile])
qed

lemma fs_ok_children: "fs_ok fs \<Longrightarrow> fs_ok (fst (reconcile_children io refs stale name cs fs res))"
proof (induction cs arbitrary: fs res)
  case (Cons c cs)
  have u: "fs_ok g" if "fs_unlink io p fs = (g, e)" for p g e
    using fs_ok_unlink [OF Cons.prems, of io p] that by simp
  show ?case using Cons by (auto simp: Let_def split: option.splits prod.splits dest: u)
qed simp

lemma fs_ok_entries: "fs_ok fs \<Longrightarrow> fs_ok (fst (reconcile_entries io refs stale names fs res))"
proof (induction names arbitrary: fs res)
  case (Cons a names)
  have u: "fs_ok g" if "fs_unlink io p fs = (g, e)" for p g e
    using fs_ok_unlink [OF Cons.prems, of io p] that by simp
  have c: "fs_ok g" if "reconcile_children io refs stale a cs fs res = (g, r, e)" for cs g r e
    using fs_ok_children [OF Cons.prems, of io refs stale a cs res] that by simp
  show ?case using Cons by (auto split: option.splits prod.splits dest: u c)
qed simp

lemma fs_ok_Reconcile: "fs_ok fs \<Longrightarrow> fs_ok (fst (Reconcile io refs stale fs))"
  using Reconcile_fs [of io refs stale fs] fs_ok_entries by metis

end
