(* ===== verification/Maintenance.thy ===== *)
theory Maintenance
  imports ShareAdmin Reconcile
begin

text \<open>
  Package \<open>internal/maintenance\<close> (\<open>maintenance.go\<close>): the periodic purge of expired Shares in
  bounded batches, the deletion of their objects, and the reconciliation of the object store
  with the remaining File rows.  \<open>envs k\<close> is the environment of the \<open>k\<close>-th batch of a run,
  \<open>envs 8\<close> the one of the queries and the sweep after the batches.
\<close>

definition Interval :: duration where "Interval = 15 * minute"
definition Grace :: duration where "Grace = 30 * minute"
definition BatchSize :: nat where "BatchSize = 256"
definition MaxPerRun :: nat where "MaxPerRun = 2048"

record run_result =
  Purged :: nat
  FileObjectsDeleted :: nat
  FileCleanupFailures :: nat
  Backlog :: bool
  Reconciled :: reconcile_result

section \<open>One batch\<close>

definition expired_row :: "int \<Rightarrow> share_row \<Rightarrow> bool" where
  "expired_row now r \<longleftrightarrow> (case r_expires r of None \<Rightarrow> False | Some e \<Rightarrow> e \<le> now)"

text \<open>The batch's SELECT: the ids of at most \<open>BatchSize\<close> expired Shares with their object keys,
  \<open>[]\<close> for NULL.\<close>

definition purge_select :: "int \<Rightarrow> db \<Rightarrow> (string \<times> string) list" where
  "purge_select now d =
     map (\<lambda>r. (r_id r, case row_of f_share (r_id r) (files d) of None \<Rightarrow> [] | Some f \<Rightarrow> f_key f))
       (take BatchSize (sort_key r_id (filter (expired_row now) (shares d))))"

definition delete_expired :: "int \<Rightarrow> string \<Rightarrow> db \<Rightarrow> db \<times> nat" where
  "delete_expired now i d =
     (case row_of r_id i (shares d) of
        None \<Rightarrow> (d, 0)
      | Some r \<Rightarrow> if expired_row now r then delete_share i d else (d, 0))"

fun purge_items :: "env \<Rightarrow> int \<Rightarrow> (string \<times> string) list \<Rightarrow> db \<Rightarrow> err + db \<times> string list" where
  "purge_items env now [] d = Inr (d, [])"
| "purge_items env now ((i, key) # items) d =
     (if ev_db env AtDelete then Inl (Message ''delete'')
      else case delete_expired now i d of
        (d1, affected) \<Rightarrow>
          if ev_db env AtRowsAffected then Inl (Message ''rows affected'')
          else (case purge_items env now items d1 of
                  Inl e \<Rightarrow> Inl e
                | Inr (d2, keys) \<Rightarrow>
                    Inr (d2, if affected = 1 \<and> key \<noteq> [] then key # keys else keys)))"

definition purgeBatch :: "env \<Rightarrow> db \<Rightarrow> time \<Rightarrow> err + db \<times> string list \<times> nat" where
  "purgeBatch env d now =
     (if ev_db env AtBegin then Inl (Message ''begin'')
      else if ev_db env AtQuery then Inl (Message ''query'')
      else
        (let items = purge_select (unix_milli now) d
         in case purge_items env (unix_milli now) items d of
              Inl e \<Rightarrow> Inl e
            | Inr (d1, keys) \<Rightarrow>
                if ev_db env AtCommit then Inl (Message ''commit'') else Inr (d1, keys, length items)))"

section \<open>One run\<close>

text \<open>The loop of \<open>RunOnce\<close>: \<open>n\<close> batches are left, the next one is batch \<open>k\<close>.\<close>

fun purge_rounds ::
  "nat \<Rightarrow> nat \<Rightarrow> (nat \<Rightarrow> env) \<Rightarrow> time \<Rightarrow> db \<Rightarrow> fs \<Rightarrow> run_result \<Rightarrow> db \<times> fs \<times> run_result \<times> err option" where
  "purge_rounds 0 k envs now d fs res = (d, fs, res, None)"
| "purge_rounds (Suc n) k envs now d fs res =
     (case purgeBatch (envs k) d now of
        Inl e \<Rightarrow> (d, fs, res, Some e)
      | Inr (d1, keys, count) \<Rightarrow>
          (case delete_loop (store_delete (ev_io (envs k) 0)) keys fs of
             (fs1, deleted, failed) \<Rightarrow>
               (let res1 = res\<lparr>Purged := Purged res + count,
                               FileObjectsDeleted := FileObjectsDeleted res + deleted,
                               FileCleanupFailures := FileCleanupFailures res + failed\<rparr>
                in if count < BatchSize then (d1, fs1, res1, None)
                   else purge_rounds n (Suc k) envs now d1 fs1 res1)))"

definition initial_result :: run_result where
  "initial_result = \<lparr>Purged = 0, FileObjectsDeleted = 0, FileCleanupFailures = 0, Backlog = False,
     Reconciled = no_result\<rparr>"

definition RunOnce ::
  "(nat \<Rightarrow> env) \<Rightarrow> time \<Rightarrow> db \<Rightarrow> fs \<Rightarrow> db \<times> fs \<times> run_result \<times> err option" where
  "RunOnce envs now d fs =
     (case purge_rounds (MaxPerRun div BatchSize) 0 envs now d fs initial_result of
        (d1, fs1, res1, Some e) \<Rightarrow> (d1, fs1, res1, Some e)
      | (d1, fs1, res1, None) \<Rightarrow>
          (let env = envs (MaxPerRun div BatchSize)
           in if ev_db env AtSelectShare then (d1, fs1, res1, Some (Message ''count''))
              else
                (let res2 = res1\<lparr>Backlog :=
                       count_where (expired_row (unix_milli now)) (shares d1) > 0\<rparr>
                 in if ev_db env AtSelectKey then (d1, fs1, res2, Some (Message ''references''))
                    else (case Reconcile (ev_io env 0) (map f_key (files d1)) (now - Grace) fs1 of
                            (fs2, reconciled, e) \<Rightarrow>
                              (d1, fs2, res2\<lparr>Reconciled := reconciled\<rparr>, e)))))"

definition CleanupExpired ::
  "(nat \<Rightarrow> env) \<Rightarrow> time \<Rightarrow> db \<Rightarrow> fs \<Rightarrow> db \<times> fs \<times> (err + nat)" where
  "CleanupExpired envs now d fs =
     (case RunOnce envs now d fs of
        (d1, fs1, res, Some e) \<Rightarrow> (d1, fs1, Inl e)
      | (d1, fs1, res, None) \<Rightarrow> (d1, fs1, Inr (Purged res)))"

section \<open>What a batch removes\<close>

definition gone :: "int \<Rightarrow> db \<Rightarrow> string set \<Rightarrow> string \<Rightarrow> bool" where
  "gone now d ids i \<longleftrightarrow> i \<in> ids \<and> (\<exists>r\<in>set (shares d). r_id r = i \<and> expired_row now r)"

lemma delete_expired_tables:
  assumes "schema_ok d"
  shows "shares (fst (delete_expired now i d)) = filter (\<lambda>r. \<not> (r_id r = i \<and> expired_row now r)) (shares d)"
    and "files (fst (delete_expired now i d)) = filter (\<lambda>f. \<not> gone now d {i} (f_share f)) (files d)"
    and "snd (delete_expired now i d) = (if gone now d {i} i then 1 else 0)"
    and "db_ok d \<Longrightarrow> db_ok (fst (delete_expired now i d))"
proof -
  have dist: "distinct (map r_id (shares d))" using assms by (simp add: schema_ok_def)
  show "shares (fst (delete_expired now i d)) = filter (\<lambda>r. \<not> (r_id r = i \<and> expired_row now r)) (shares d)"
    and "files (fst (delete_expired now i d)) = filter (\<lambda>f. \<not> gone now d {i} (f_share f)) (files d)"
    and "snd (delete_expired now i d) = (if gone now d {i} i then 1 else 0)"
  proof (atomize (full), cases "row_of r_id i (shares d)")
    case None
    then have "\<forall>r\<in>set (shares d). r_id r \<noteq> i" by (auto simp: row_of_None_iff in_keys_of)
    with None show "shares (fst (delete_expired now i d)) = filter (\<lambda>r. \<not> (r_id r = i \<and> expired_row now r)) (shares d)
      \<and> files (fst (delete_expired now i d)) = filter (\<lambda>f. \<not> gone now d {i} (f_share f)) (files d)
      \<and> snd (delete_expired now i d) = (if gone now d {i} i then 1 else 0)"
      by (auto simp: delete_expired_def gone_def)
  next
    case (Some r)
    have only: "q = r" if "q \<in> set (shares d)" "r_id q = i" for q
      using row_of_distinct [OF dist, of i q] that Some by simp
    have mem: "r \<in> set (shares d)" "r_id r = i" using row_of_SomeD [OF Some] by auto
    have cnt: "count_rows r_id i (shares d) = 1"
      using count_rows_distinct [OF dist, of i] mem by (auto simp: in_keys_of)
    have g: "gone now d {i} j \<longleftrightarrow> j = i \<and> expired_row now r" for j
      unfolding gone_def by (metis only mem singleton_iff)
    have f: "filter (\<lambda>q. \<not> (r_id q = i \<and> expired_row now q)) (shares d) =
        (if expired_row now r then delete_rows r_id i (shares d) else shares d)"
    proof (cases "expired_row now r")
      case True
      then have "filter (\<lambda>q. \<not> (r_id q = i \<and> expired_row now q)) (shares d) =
          filter (\<lambda>q. r_id q \<noteq> i) (shares d)"
        by (intro filter_cong) (auto dest: only)
      with True show ?thesis by (simp add: delete_rows_def)
    next
      case False
      then show ?thesis by (auto simp: filter_id_conv dest: only)
    qed
    show "shares (fst (delete_expired now i d)) = filter (\<lambda>r. \<not> (r_id r = i \<and> expired_row now r)) (shares d)
      \<and> files (fst (delete_expired now i d)) = filter (\<lambda>f. \<not> gone now d {i} (f_share f)) (files d)
      \<and> snd (delete_expired now i d) = (if gone now d {i} i then 1 else 0)"
      unfolding f g using Some cnt
      by (simp add: delete_expired_def delete_share_def delete_rows_def)
  qed
  show "db_ok d \<Longrightarrow> db_ok (fst (delete_expired now i d))"
    by (auto simp: delete_expired_def db_ok_delete_share split: option.split)
qed

lemma purge_items_tables:
  assumes "purge_items env now items d = Inr (d', keys)" "db_ok d"
  shows "db_ok d'
    \<and> shares d' = filter (\<lambda>r. \<not> (r_id r \<in> fst ` set items \<and> expired_row now r)) (shares d)
    \<and> files d' = filter (\<lambda>f. \<not> gone now d (fst ` set items) (f_share f)) (files d)
    \<and> set keys \<subseteq> {k. k \<noteq> [] \<and> (\<exists>i. (i, k) \<in> set items \<and> gone now d (fst ` set items) i)}"
  using assms
proof (induction items arbitrary: d keys)
  case (Cons item items)
  obtain i key where item: "item = (i, key)" by fastforce
  obtain d1 n where d1: "delete_expired now i d = (d1, n)" by fastforce
  note sch = db_ok_schema [OF Cons.prems(2)]
  note step = delete_expired_tables [OF sch, of now i, unfolded d1, simplified]
  obtain ks where rest: "purge_items env now items d1 = Inr (d', ks)"
    and keys: "keys = (if n = 1 \<and> key \<noteq> [] then key # ks else ks)"
    using Cons.prems(1) d1 by (auto simp: item split: if_splits sum.splits)
  have ok1: "db_ok d1" using step(4) Cons.prems(2) by simp
  note IH = Cons.IH [OF rest ok1]
  have gone1: "gone now d1 ids j \<longleftrightarrow> gone now d ids j \<and> j \<noteq> i" for ids j
    using step(1) by (auto simp: gone_def)
  have gone2: "gone now d (fst ` set (item # items)) j \<longleftrightarrow>
      gone now d {i} j \<or> gone now d1 (fst ` set items) j" for j
    unfolding gone1 by (auto simp: gone_def item)
  have "shares d' = filter (\<lambda>r. \<not> (r_id r \<in> fst ` set items \<and> expired_row now r)) (shares d1)"
    using IH by blast
  also have "\<dots> = filter (\<lambda>r. \<not> (r_id r \<in> fst ` set (item # items) \<and> expired_row now r)) (shares d)"
    unfolding step(1) filter_filter by (rule filter_cong) (auto simp: item)
  finally have s: "shares d' = filter (\<lambda>r. \<not> (r_id r \<in> fst ` set (item # items) \<and> expired_row now r)) (shares d)" .
  have "files d' = filter (\<lambda>f. \<not> gone now d1 (fst ` set items) (f_share f)) (files d1)"
    using IH by blast
  also have "\<dots> = filter (\<lambda>f. \<not> gone now d (fst ` set (item # items)) (f_share f)) (files d)"
    unfolding step(2) filter_filter by (rule filter_cong) (simp_all only: gone2, blast)
  finally have f: "files d' = filter (\<lambda>f. \<not> gone now d (fst ` set (item # items)) (f_share f)) (files d)" .
  have "k \<noteq> [] \<and> (\<exists>j. (j, k) \<in> set (item # items) \<and> gone now d (fst ` set (item # items)) j)"
    if "k \<in> set keys" for k
  proof (cases "k \<in> set ks")
    case True
    then obtain j where j: "k \<noteq> []" "(j, k) \<in> set items" "gone now d1 (fst ` set items) j" using IH by blast
    then have "gone now d (fst ` set (item # items)) j" by (simp only: gone2 simp_thms)
    with j show ?thesis by auto
  next
    case False
    with that keys have "k = key" "n = 1" "key \<noteq> []" by (auto split: if_splits)
    then have "gone now d {i} i" using step(3) by presburger
    then have "gone now d (fst ` set (item # items)) i" by (simp only: gone2 simp_thms)
    with \<open>k = key\<close> \<open>key \<noteq> []\<close> show ?thesis by (auto simp: item)
  qed
  then show ?case using IH s f by blast
qed (simp add: gone_def)

lemma purgeBatch_Inr:
  assumes "purgeBatch env d now = Inr (d', keys, n)"
  obtains "purge_items env (unix_milli now) (purge_select (unix_milli now) d) d = Inr (d', keys)"
    "n = length (purge_select (unix_milli now) d)"
  using assms by (auto simp: purgeBatch_def Let_def split: if_splits sum.splits)

lemma purge_select_ids:
  "fst ` set (purge_select now d) = r_id ` set (take BatchSize (sort_key r_id (filter (expired_row now) (shares d))))"
  by (auto simp: purge_select_def image_image)

lemma gone_selected:
  assumes "gone now d (fst ` set (purge_select now d)) i" "schema_ok d"
  obtains r where "row_of r_id i (shares d) = Some r" "expired_row now r"
  using assms row_of_distinct [of r_id "shares d" i] by (auto simp: gone_def schema_ok_def)

lemma purge_keys:
  assumes "purgeBatch env d now = Inr (d', keys, n)" "db_ok d" "k \<in> set keys"
  shows "k \<notin> f_key ` set (files d') \<and> (\<exists>f\<in>set (files d). f_key f = k)"
proof -
  let ?now = "unix_milli now" and ?sel = "purge_select (unix_milli now) d"
  from assms(1) have p: "purge_items env ?now ?sel d = Inr (d', keys)" by (rule purgeBatch_Inr)
  note t = purge_items_tables [OF p assms(2)]
  note sch = db_ok_schema [OF assms(2)]
  obtain i where i: "k \<noteq> []" "(i, k) \<in> set ?sel" "gone ?now d (fst ` set ?sel) i"
    using t assms(3) by blast
  then obtain f where f: "row_of f_share i (files d) = Some f" "f_key f = k"
    by (auto simp: purge_select_def split: option.splits)
  then have mem: "f \<in> set (files d)" "f_share f = i" by (auto dest: row_of_SomeD)
  have "g \<noteq> f" if "g \<in> set (files d')" for g
    using that t i(3) mem by auto
  moreover have "g = f" if "g \<in> set (files d)" "f_key g = k" for g
    using schema_key_unique [OF sch that(1) mem(1)] that f(2) by simp
  moreover have "set (files d') \<subseteq> set (files d)" using t by auto
  ultimately show ?thesis using mem(1) f(2) by blast
qed

lemma objects_kept_batch:
  assumes "purgeBatch env d now = Inr (d', keys, n)" "db_ok d"
  shows "objects_kept d fs d' (fst (delete_loop (store_delete io) keys fs))"
proof -
  have "files d' = filter (\<lambda>f. \<not> gone (unix_milli now) d (fst ` set (purge_select (unix_milli now) d)) (f_share f)) (files d)"
    using assms(1) purge_items_tables [OF _ assms(2)] by (blast elim: purgeBatch_Inr)
  then have "set (files d') \<subseteq> set (files d)" by auto
  moreover have "f_key f \<notin> set keys" if "f \<in> set (files d')" for f
    using purge_keys [OF assms(1,2), of "f_key f"] that by blast
  ultimately show ?thesis
    using local_store.loop_other by (auto simp: objects_kept_def)
qed

section \<open>What a run does\<close>

text \<open>
  In the abstract store a run may only remove expired Shares: every other id maps to what it
  mapped to before.
\<close>

definition purged :: "time \<Rightarrow> store_map \<Rightarrow> store_map \<Rightarrow> bool" where
  "purged now m m' \<longleftrightarrow>
     (\<forall>i. m' i = m i
          \<or> (m' i = None \<and> (\<exists>v w. m i = Some (v, w) \<and> IsExpired (ExpiresAt v) now)))"

lemma purged_refl [simp]: "purged now m m"
  by (simp add: purged_def)

lemma purged_cases:
  assumes "purged now m m'"
  obtains "m' i = m i"
  | v w where "m' i = None" "m i = Some (v, w)" "IsExpired (ExpiresAt v) now"
  using assms by (auto simp: purged_def dest: spec [of _ i])

lemma purged_trans:
  assumes "purged now a b" "purged now b c"
  shows "purged now a c"
proof -
  have "c i = a i \<or> (c i = None \<and> (\<exists>v w. a i = Some (v, w) \<and> IsExpired (ExpiresAt v) now))" for i
    by (rule purged_cases [OF assms(1), of i]; rule purged_cases [OF assms(2), of i]) metis+
  then show ?thesis by (simp add: purged_def)
qed

lemma from_milli_le_iff_now: "from_milli e \<le> now \<longleftrightarrow> e \<le> unix_milli now"
proof
  assume "from_milli e \<le> now"
  then have "from_milli e div 1000000 \<le> now div 1000000" by (rule zdiv_mono1) simp
  then show "e \<le> unix_milli now" by (simp add: from_milli_def unix_milli_def)
next
  assume "e \<le> unix_milli now"
  then have "from_milli e \<le> truncate_ms now" by (simp flip: from_milli_unix_milli)
  also have "\<dots> \<le> now" by simp
  finally show "from_milli e \<le> now" .
qed

lemma expired_row_iff: "expired_row (unix_milli now) r \<longleftrightarrow> IsExpired (ExpiresAt (abs_share d r)) now"
proof -
  show ?thesis by (auto simp: from_milli_le_iff_now expired_row_def abs_share_def expirationTime_def split: option.split)
qed

lemma purged_delete_expired:
  assumes "schema_ok d"
  shows "purged now (abs_db d) (abs_db (fst (delete_expired (unix_milli now) i d)))"
proof (cases "\<exists>r. row_of r_id i (shares d) = Some r \<and> expired_row (unix_milli now) r")
  case True
  then obtain r where r: "row_of r_id i (shares d) = Some r" "expired_row (unix_milli now) r" by blast
  then have "abs_db (fst (delete_expired (unix_milli now) i d)) = (abs_db d)(i := None)"
    using abs_delete_share [OF assms] by (simp add: delete_expired_def)
  moreover have "abs_db d i = Some (abs_share d r, r_verifier r)" using r(1) by (simp add: abs_db_def)
  ultimately show ?thesis using r(2) by (auto simp: purged_def expired_row_iff [of _ _ d])
next
  case False
  then show ?thesis by (auto simp: delete_expired_def split: option.split)
qed

lemma purged_items:
  assumes "purge_items env (unix_milli now) items d = Inr (d', keys)" "schema_ok d"
  shows "purged now (abs_db d) (abs_db d')"
  using assms
proof (induction items arbitrary: d keys)
  case (Cons item items)
  obtain i key where item: "item = (i, key)" by fastforce
  obtain d1 n where d1: "delete_expired (unix_milli now) i d = (d1, n)" by fastforce
  obtain ks where rest: "purge_items env (unix_milli now) items d1 = Inr (d', ks)"
    using Cons.prems(1) d1 by (auto simp: item split: if_splits sum.splits)
  have "schema_ok d1"
    using schema_delete_share [OF Cons.prems(2), of i] Cons.prems(2) d1
    by (auto simp: delete_expired_def split: option.splits if_splits)
  from Cons.IH [OF rest this] purged_delete_expired [OF Cons.prems(2), of now i] d1
  show ?case by (auto intro: purged_trans)
qed simp

text \<open>The number of expired rows a batch leaves.\<close>

definition expired_count :: "int \<Rightarrow> db \<Rightarrow> nat" where
  "expired_count now d = count_where (expired_row now) (shares d)"

lemma length_filter_sort_key: "length (filter P (sort_key f xs)) = length (filter P xs)"
  by (metis filter_sort length_sort)

lemma purgeBatch_counts:
  assumes b: "purgeBatch env d now = Inr (d', keys, n)" and ok: "db_ok d"
  shows "n = min BatchSize (expired_count (unix_milli now) d)"
    and "expired_count (unix_milli now) d' = expired_count (unix_milli now) d - n"
proof -
  let ?now = "unix_milli now"
  let ?S = "sort_key r_id (filter (expired_row ?now) (shares d))"
  from b have p: "purge_items env ?now (purge_select ?now d) d = Inr (d', keys)"
    and n: "n = length (purge_select ?now d)" by (auto elim: purgeBatch_Inr)
  show "n = min BatchSize (expired_count ?now d)"
    by (simp add: n purge_select_def expired_count_def count_where_def min.commute)
  let ?ids = "r_id ` set (take BatchSize ?S)"
  have dist: "distinct (map r_id ?S)"
    using ok by (simp add: db_ok_def schema_ok_def distinct_map inj_on_def)
  have "filter (\<lambda>r. r_id r \<notin> ?ids) ?S = drop BatchSize ?S"
  proof -
    have "distinct (map r_id (take BatchSize ?S @ drop BatchSize ?S))" using dist by simp
    then have "r_id r \<notin> ?ids" if "r \<in> set (drop BatchSize ?S)" for r
      using that unfolding map_append distinct_append by (metis disjoint_iff image_eqI set_map)
    then have "filter (\<lambda>r. r_id r \<notin> ?ids) (take BatchSize ?S @ drop BatchSize ?S) = drop BatchSize ?S"
      unfolding filter_append by (simp add: filter_empty_conv filter_id_conv)
    then show ?thesis by (simp only: append_take_drop_id)
  qed
  then have "length (filter (\<lambda>r. r_id r \<notin> ?ids) (filter (expired_row ?now) (shares d))) = length ?S - BatchSize"
    using length_filter_sort_key [of "\<lambda>r. r_id r \<notin> ?ids" r_id "filter (expired_row ?now) (shares d)"]
    by simp
  moreover have "filter (expired_row ?now) (shares d') =
      filter (\<lambda>r. r_id r \<notin> ?ids) (filter (expired_row ?now) (shares d))"
    using purge_items_tables [OF p ok] by (auto simp: purge_select_ids intro!: filter_cong)
  ultimately show "expired_count ?now d' = expired_count ?now d - n"
    by (simp add: expired_count_def count_where_def n purge_select_def min_def)
qed

lemma db_ok_purgeBatch [preserves]: "purgeBatch env d now = Inr (d', keys, n) \<Longrightarrow> db_ok d \<Longrightarrow> db_ok d'"
  by (erule purgeBatch_Inr) (blast dest: purge_items_tables)

lemma rounds_safe:
  assumes "purge_rounds n k envs now d fs res = (d', fs', res', e)" "db_ok d"
  shows "db_ok d' \<and> objects_kept d fs d' fs' \<and> purged now (abs_db d) (abs_db d')"
  using assms
proof (induction n arbitrary: k d fs res)
  case (Suc n)
  show ?case
  proof (cases "purgeBatch (envs k) d now")
    case (Inl er)
    with Suc.prems show ?thesis by (simp add: objects_kept_refl)
  next
    case (Inr b)
    obtain d1 keys cnt where b: "purgeBatch (envs k) d now = Inr (d1, keys, cnt)" using Inr by (cases b) auto
    obtain fs1 x y where l: "delete_loop (store_delete (ev_io (envs k) 0)) keys fs = (fs1, x, y)"
      by (metis prod_cases3)
    have ok1: "db_ok d1" using db_ok_purgeBatch [OF b Suc.prems(2)] .
    have o1: "objects_kept d fs d1 fs1"
      using objects_kept_batch [OF b Suc.prems(2), of fs "ev_io (envs k) 0"] l by simp
    have p1: "purged now (abs_db d) (abs_db d1)"
      using purged_items [OF _ db_ok_schema [OF Suc.prems(2)]] b by (blast elim: purgeBatch_Inr)
    show ?thesis
      using Suc.prems(1) b l ok1 o1 p1 Suc.IH [OF _ ok1]
      by (auto simp: Let_def split: if_splits intro: purged_trans objects_kept_trans)
  qed
qed (simp add: objects_kept_refl)

lemma rounds_counts:
  assumes "purge_rounds n k envs now d fs res = (d', fs', res', None)" "db_ok d"
  shows "Purged res' = Purged res + min (n * BatchSize) (expired_count (unix_milli now) d)
    \<and> expired_count (unix_milli now) d' = expired_count (unix_milli now) d - n * BatchSize"
  using assms
proof (induction n arbitrary: k d fs res)
  case (Suc n)
  obtain d1 keys cnt where b: "purgeBatch (envs k) d now = Inr (d1, keys, cnt)"
    using Suc.prems(1) by (cases "purgeBatch (envs k) d now") auto
  obtain fs1 x y where l: "delete_loop (store_delete (ev_io (envs k) 0)) keys fs = (fs1, x, y)"
    by (metis prod_cases3)
  note c = purgeBatch_counts [OF b Suc.prems(2)]
  have ok1: "db_ok d1" using db_ok_purgeBatch [OF b Suc.prems(2)] .
  show ?case
  proof (cases "cnt < BatchSize")
    case True
    with Suc.prems(1) b l have "d' = d1 \<and> Purged res' = Purged res + cnt" by (auto simp: Let_def)
    with c True show ?thesis by (auto simp: min_def split: if_splits)
  next
    case False
    with Suc.prems(1) b l obtain res1 where
      r: "purge_rounds n (Suc k) envs now d1 fs1 res1 = (d', fs', res', None)"
      and p: "Purged res1 = Purged res + cnt" by (auto simp: Let_def)
    from Suc.IH [OF r ok1] p c False show ?thesis by auto
  qed
qed simp

lemma RunOnce_rounds:
  assumes "RunOnce envs now d fs = (d', fs', res', e)"
  obtains fs1 res1 e1 where "purge_rounds 8 0 envs now d fs initial_result = (d', fs1, res1, e1)"
    "Purged res' = Purged res1" "e = None \<Longrightarrow> e1 = None"
    "e = None \<Longrightarrow> Backlog res' \<longleftrightarrow> expired_count (unix_milli now) d' > 0"
    "fs' = fs1 \<or> fs' = fst (Reconcile (ev_io (envs 8) 0) (map f_key (files d')) (now - Grace) fs1)"
  using assms
  by (auto simp: RunOnce_def MaxPerRun_def BatchSize_def Let_def expired_count_def
      split: prod.splits option.splits if_splits)

lemma objects_kept_Reconcile:
  "objects_kept d fs d (fst (Reconcile io (map f_key (files d)) stale fs))"
  by (auto simp: objects_kept_def local_reconciler.sweep_keeps)

lemma RunOnce_kept:
  assumes "RunOnce envs now d fs = (d', fs', res', e)" "db_ok d"
  shows "db_ok d' \<and> objects_kept d fs d' fs' \<and> purged now (abs_db d) (abs_db d')"
proof -
  obtain fs1 res1 e1 where r: "purge_rounds 8 0 envs now d fs initial_result = (d', fs1, res1, e1)"
    and f: "fs' = fs1 \<or> fs' = fst (Reconcile (ev_io (envs 8) 0) (map f_key (files d')) (now - Grace) fs1)"
    using assms(1) by (rule RunOnce_rounds)
  from rounds_safe [OF r assms(2)] f show ?thesis by (auto intro: objects_kept_trans objects_kept_Reconcile)
qed

lemma RunOnce_safe:
  assumes "RunOnce envs now d fs = (d', fs', res', e)" "db_ok d" "objects_ok d (Some fs)"
  shows "db_ok d' \<and> objects_ok d' (Some fs') \<and> purged now (abs_db d) (abs_db d')"
  using RunOnce_kept [OF assms(1,2)] objects_kept_ok assms(3) by blast

end
