(* ===== verification/Samples.thy ===== *)
theory Samples
  imports Maintenance "HOL-Library.Code_Target_Nat"
begin

text \<open>
  Concrete inputs at which the properties are applied: an environment without failures, a
  service with empty tables and an empty object directory, and one Share of each kind.
\<close>

definition sample_sha :: "bytes \<Rightarrow> bytes" where
  "sample_sha b = take 32 (b @ replicate 32 (CHR ''0''))"

definition sample_env :: env where
  "sample_env = \<lparr>ev_now = 1700000000000000000, ev_id_rnd = Some (replicate 16 (CHR ''a'')),
     ev_token_rnd = Some (replicate 32 (CHR ''b'')), ev_sha = sample_sha,
     ev_detect = (\<lambda>b. ''text/plain''), ev_db = (\<lambda>p. False), ev_io = (\<lambda>n op. False)\<rparr>"

definition sample_policy :: retention_policy where
  "sample_policy = \<lparr>Public = True, DefaultTTL = hour, MaxTTL = 24 * hour\<rparr>"

definition empty_service :: service where
  "empty_service = \<lparr>sv_db = empty_db, sv_store = Some [], sv_retention = sample_policy\<rparr>"

definition sample_text :: text_body where
  "sample_text = \<lparr>Format = ''PLAIN'', Content = ''hello''\<rparr>"

definition sample_encrypted :: encrypted_text where
  "sample_encrypted = \<lparr>Protocol = EncryptedTextProtocolV1, Nonce = replicate 12 (CHR ''n''),
     Ciphertext = replicate 20 (CHR ''c'')\<rparr>"

definition sample_source :: source where
  "sample_source = \<lparr>src_data = ''data'', src_err = None\<rparr>"

text \<open>The same environment with other random bytes, and at a later time.\<close>

definition other_env :: "char \<Rightarrow> env" where
  "other_env c = sample_env\<lparr>ev_id_rnd := Some (replicate 16 c), ev_token_rnd := Some (replicate 32 c)\<rparr>"

definition later_env :: env where
  "later_env = sample_env\<lparr>ev_now := ev_now sample_env + 2 * hour\<rparr>"

lemma sample_fine [simp]:
  "\<not> ev_db sample_env p" "ev_io sample_env n = (\<lambda>op. False)"
  "\<not> ev_db later_env p" "\<not> ev_db (other_env c) p"
  by (simp_all add: sample_env_def later_env_def other_env_def)

lemma rand_ok_sample [simp]: "rand_ok sample_env" "rand_ok (other_env c)"
  by (simp_all add: rand_ok_def sample_env_def other_env_def)

section \<open>The Shares\<close>

definition text_id :: share_id where "text_id = ShareID ''YWFhYWFhYWFhYWFhYWFhYQ''"

definition text_token :: owner_token where
  "text_token = OwnerToken ''up_o1_YmJiYmJiYmJiYmJiYmJiYmJiYmJiYmJiYmJiYmJiYmI''"

definition text_share :: share where
  "text_share = \<lparr>ID = text_id, PayloadKind = PayloadText, PrivacyMode = PrivacyStandard,
     Text = Some sample_text, EncryptedText = None, File = None, CreatedAt = 1700000000000000000,
     UpdatedAt = 1700000000000000000, ExpiresAt = Some 1700003600000000000\<rparr>"

definition text_service :: service where
  "text_service = empty_service\<lparr>sv_db :=
     \<lparr>shares = [\<lparr>r_id = id_string text_id, r_kind = ''TEXT'', r_privacy = ''STANDARD'',
         r_verifier = sample_sha (reveal text_token), r_created = 1700000000000,
         r_updated = 1700000000000, r_expires = Some 1700003600000\<rparr>],
      texts = [\<lparr>t_share = id_string text_id, t_format = ''PLAIN'', t_content = ''hello''\<rparr>],
      encs = [], files = []\<rparr>\<rparr>"

lemma text_created: "Create sample_env empty_service sample_text None = (text_service, Inr (text_share, text_token))"
  by code_simp

definition file_stage :: staged where
  "file_stage = \<lparr>st_key = concat (replicate 16 ''6b''),
     st_temp = ''.stage-'' @ concat (replicate 16 ''6b'') @ ''-737373737373'', st_size = 4,
     st_digest = sample_sha ''data'', st_sniff = ''data'', st_committed = False\<rparr>"

definition staged_fs :: fs where
  "staged_fs = [(st_temp file_stage, Regular ''data'' 1700000000000000000)]"

lemma file_staged:
  "StageFile sample_env (Some (replicate 16 (CHR ''k''))) [Some (replicate 6 (CHR ''s''))] sample_source empty_service
     = (empty_service\<lparr>sv_store := Some staged_fs\<rparr>, Inr file_stage)"
  by code_simp

definition file_service :: service where
  "file_service = fst (CreateFile sample_env (empty_service\<lparr>sv_store := Some staged_fs\<rparr>) ''a.txt'' (Some file_stage) None)"

definition file_id :: share_id where "file_id = text_id"

lemma file_created:
  "\<exists>v st. CreateFile sample_env (empty_service\<lparr>sv_store := Some staged_fs\<rparr>) ''a.txt'' (Some file_stage) None
     = (file_service, st, Inr (v, text_token)) \<and> ID v = text_id"
proof -
  have "case CreateFile sample_env (empty_service\<lparr>sv_store := Some staged_fs\<rparr>) ''a.txt'' (Some file_stage) None of
      (s, st, Inr (v, tok)) \<Rightarrow> tok = text_token \<and> ID v = text_id | _ \<Rightarrow> False"
    by code_simp
  then show ?thesis by (auto simp: file_service_def split: prod.splits sum.splits)
qed

lemma service_ok_empty_service: "service_ok empty_service"
  by (simp add: service_ok_def empty_service_def db_ok_empty objects_ok_def) (simp add: empty_db_def)

lemma service_ok_text_service: "service_ok text_service"
  using service_ok_Create [OF rand_ok_sample(1) service_ok_empty_service, of sample_text None]
  by (simp add: text_created)


lemma staged_ok_sample: "staged_ok (ev_sha sample_env) MaxFileBytes file_stage staged_fs"
proof -
  have "validKey (st_key file_stage)" "\<not> st_committed file_stage"
    "lstat staged_fs (st_temp file_stage) = Some (Regular ''data'' 1700000000000000000)"
    "st_temp file_stage = ''.stage-'' @ concat (replicate 16 ''6b'') @ ''-737373737373''"
    "length ''data'' \<le> MaxFileBytes" "st_size file_stage = length ''data''"
    "st_digest file_stage = ev_sha sample_env ''data''" "st_sniff file_stage = take 512 ''data''"
    by code_simp+
  then show ?thesis unfolding staged_ok_def by auto
qed

lemma service_ok_staged: "service_ok (empty_service\<lparr>sv_store := Some staged_fs\<rparr>)"
  by (simp add: service_ok_def empty_service_def db_ok_empty objects_ok_def) (simp add: empty_db_def)

lemma service_ok_file_service: "service_ok file_service"
  unfolding file_service_def
  by (rule service_ok_CreateFile [OF service_ok_staged _ staged_ok_sample])
     (simp_all add: empty_service_def empty_db_def)

end
