(* ===== verification/ShareProps.thy ===== *)
theory ShareProps
  imports Samples
begin

text \<open>
  The properties of \<open>internal/share/service.go\<close>: each operation against the abstract store
  (a finite map from ids to Shares and verifiers), who may change what, and what a failing
  call leaves behind.
\<close>

text \<open>\<open>Get\<close> implements the read of the abstract store: over any consistent service, and when
  SQLite answers, it returns exactly the stored Share, or ErrExpired once its expiration has
  been reached, or ErrNotFound; no row the service can hold makes it fail otherwise.\<close>

lemma Get_refines:
  assumes "service_ok s" and "\<not> ev_db env AtSelectShare"
  shows "Get env s i = spec_get (abs_db (sv_db s)) (id_string i) (serverNow env)"
  unfolding Get_def using loadActive_refines assms service_okD(1) by blast

lemma Get_refines_witness:
  "Get sample_env text_service text_id = spec_get (abs_db (sv_db text_service)) (id_string text_id) (serverNow sample_env)
   \<and> Get sample_env text_service text_id = Inr text_share"
  by (rule conjI, rule Get_refines [OF service_ok_text_service]) (simp, code_simp)

text \<open>C10: A successful \<open>Create\<close> adds exactly one Share to the abstract store, under an id that was
  free, holding the validated text with its times cut to the millisecond and the digest of the
  returned owner token; nothing else changes.\<close>

theorem Create_refines:
  assumes "Create env s t ex = (s', Inr (v, tok))" and "service_ok s"
  shows "abs_db (sv_db s') = (abs_db (sv_db s))(id_string (ID v) \<mapsto> (stored v, ev_sha env (reveal tok)))
    \<and> abs_db (sv_db s) (id_string (ID v)) = None \<and> sv_store s' = sv_store s
    \<and> Text v = Some t \<and> validateText t = None \<and> EncryptedText v = None \<and> File v = None
    \<and> CreatedAt v = serverNow env"
proof -
  from assms(1) have valid: "validateText t = None"
    and c: "create env s PrivacyStandard (Some t) None ex = (s', Inr (v, tok))"
    by (auto dest: Create_Inr_valid)
  note sch = db_ok_schema [OF service_okD(1) [OF assms(2)]]
  from create_text_refines [OF c sch] create_files [OF c] create_fields [OF c] valid
  show ?thesis by auto
qed

lemma Create_refines_witness:
  "Create sample_env empty_service sample_text None = (text_service, Inr (text_share, text_token))
   \<and> abs_db (sv_db text_service) = (abs_db (sv_db empty_service))
        (id_string (ID text_share) \<mapsto> (stored text_share, ev_sha sample_env (reveal text_token)))"
  using Create_refines [OF text_created service_ok_empty_service] text_created by blast

text \<open>The same for \<open>CreateEncrypted\<close>: the stored Share holds the client's nonce and ciphertext
  unchanged and no plaintext.\<close>

theorem CreateEncrypted_refines:
  assumes "CreateEncrypted env s c ex = (s', Inr (v, tok))" and "service_ok s"
  shows "abs_db (sv_db s') = (abs_db (sv_db s))(id_string (ID v) \<mapsto> (stored v, ev_sha env (reveal tok)))
    \<and> abs_db (sv_db s) (id_string (ID v)) = None \<and> sv_store s' = sv_store s
    \<and> EncryptedText v = Some c \<and> validateEncryptedText c = None \<and> Text v = None \<and> File v = None
    \<and> PrivacyMode v = PrivacyEncrypted"
proof -
  from assms(1) have valid: "validateEncryptedText c = None"
    and k: "create env s PrivacyEncrypted None (Some c) ex = (s', Inr (v, tok))"
    by (auto dest: CreateEncrypted_Inr_valid)
  note sch = db_ok_schema [OF service_okD(1) [OF assms(2)]]
  from create_enc_refines [OF k sch] create_files [OF k] create_fields [OF k] valid
  show ?thesis by auto
qed

lemma CreateEncrypted_refines_witness:
  "\<exists>s' v tok. CreateEncrypted sample_env empty_service sample_encrypted None = (s', Inr (v, tok))
     \<and> EncryptedText v = Some sample_encrypted \<and> Text v = None"
proof -
  have "case CreateEncrypted sample_env empty_service sample_encrypted None of (s', Inr b) \<Rightarrow> True | _ \<Rightarrow> False"
    by code_simp
  then obtain s' v tok where "CreateEncrypted sample_env empty_service sample_encrypted None = (s', Inr (v, tok))"
    by (auto split: prod.splits sum.splits)
  then show ?thesis using CreateEncrypted_refines [OF _ service_ok_empty_service] by blast
qed

text \<open>C12: Reading back: after a successful \<open>Create\<close> every later \<open>Get\<close> of the returned id yields the
  created Share until it expires and ErrExpired from then on, and the returned token, and no
  token with another digest, authorizes as owner.\<close>

theorem create_then_read:
  assumes "Create env s t ex = (s', Inr (v, tok))" and "service_ok s" and "rand_ok env"
    and "\<not> ev_db env' AtSelectShare" and "\<not> ev_db env' AtSelectAuth" and "ev_sha env' = ev_sha env"
  shows "Get env' s' (ID v) =
      (if IsExpired (ExpiresAt (stored v)) (serverNow env') then Inl ErrExpired else Inr (stored v))
    \<and> (\<not> IsExpired (ExpiresAt (stored v)) (serverNow env') \<longrightarrow>
         AuthorizeOwner env' s' (ID v) cand =
           (if owner_accepts cand \<and> ev_sha env cand = ev_sha env (reveal tok)
            then Inr (PayloadText, PrivacyStandard) else Inl ErrUnauthorized))"
proof -
  from assms(1) have c: "create env s PrivacyStandard (Some t) None ex = (s', Inr (v, tok))"
    by (auto dest: Create_Inr_valid)
  note d = service_okD(1) [OF assms(2)]
  have ok: "db_ok (sv_db s')" using db_ok_Create [OF assms(3) d, of t ex] assms(1) by simp
  have m: "abs_db (sv_db s') (id_string (ID v)) = Some (stored v, ev_sha env (reveal tok))"
    using create_text_refines(1) [OF c db_ok_schema [OF d]] by simp
  have kinds: "PayloadKind (stored v) = PayloadText" "PrivacyMode (stored v) = PrivacyStandard"
    using create_fields [OF c] by (simp_all add: stored_def)
  have "Get env' s' (ID v) =
      (if IsExpired (ExpiresAt (stored v)) (serverNow env') then Inl ErrExpired else Inr (stored v))"
    unfolding Get_def loadActive_refines [OF ok assms(4)] spec_get_def m by simp
  moreover have "AuthorizeOwner env' s' (ID v) cand =
           (if owner_accepts cand \<and> ev_sha env cand = ev_sha env (reveal tok)
            then Inr (PayloadText, PrivacyStandard) else Inl ErrUnauthorized)"
    if "\<not> IsExpired (ExpiresAt (stored v)) (serverNow env')"
    using that kinds assms(6)
    by (simp add: AuthorizeOwner_def loadAuthorization_refines [OF ok assms(5)] m VerifyOwnerToken_iff eq_commute)
  ultimately show ?thesis by blast
qed

lemma create_then_read_witness:
  "Get sample_env text_service text_id = Inr text_share
   \<and> Get later_env text_service text_id = Inl ErrExpired
   \<and> AuthorizeOwner sample_env text_service text_id (reveal text_token) = Inr (PayloadText, PrivacyStandard)"
proof -
  have i: "ID text_share = text_id" "stored text_share = text_share" by code_simp+
  have e: "\<not> IsExpired (ExpiresAt text_share) (serverNow sample_env)"
    "IsExpired (ExpiresAt text_share) (serverNow later_env)" "owner_accepts (reveal text_token)" by code_simp+
  have sha: "ev_sha later_env = ev_sha sample_env" by (simp add: later_env_def)
  note r = create_then_read [OF text_created service_ok_empty_service rand_ok_sample(1), unfolded i]
  from r [of sample_env "reveal text_token"] r [of later_env "reveal text_token"] e sha show ?thesis by simp
qed


section \<open>Changing and deleting\<close>

text \<open>C13: A successful \<open>Update\<close> needs a live Share whose verifier the presented token matches; it
  replaces exactly the patched fields and the update time of that Share, returns the Share as
  it is then stored, and changes no other Share.\<close>

theorem Update_effect:
  assumes "Update env s i c pt = (s', Inr v)" and "service_ok s"
  shows "\<exists>v0. abs_db (sv_db s) (id_string i) = Some (v0, ev_sha env c)
    \<and> \<not> IsExpired (ExpiresAt v0) (serverNow env) \<and> v = patched pt (serverNow env) v0
    \<and> abs_db (sv_db s') = (abs_db (sv_db s))(id_string i \<mapsto> (v, ev_sha env c))"
  using Update_refines [OF assms(1) service_okD(1) [OF assms(2)]] by metis

definition sample_patch :: patch where
  "sample_patch = \<lparr>PatchText = Some \<lparr>Format = ''MARKDOWN'', Content = ''new''\<rparr>, PatchEncryptedText = None,
     ExpirationSet = False, PatchExpiresAt = None\<rparr>"

lemma Update_effect_witness:
  "\<exists>s' v. Update sample_env text_service text_id (reveal text_token) sample_patch = (s', Inr v)
     \<and> Text v = Some \<lparr>Format = ''MARKDOWN'', Content = ''new''\<rparr>
     \<and> abs_db (sv_db s') (id_string text_id) = Some (v, ev_sha sample_env (reveal text_token))"
proof -
  have "case Update sample_env text_service text_id (reveal text_token) sample_patch of (s', Inr v) \<Rightarrow> True | _ \<Rightarrow> False"
    by code_simp
  then obtain s' v where u: "Update sample_env text_service text_id (reveal text_token) sample_patch = (s', Inr v)"
    by (auto split: prod.splits sum.splits)
  from Update_effect [OF u service_ok_text_service] u show ?thesis by (auto simp: patched_def sample_patch_def)
qed

text \<open>A creation leaves every Share there is; an update that changes one had its token.\<close>

lemma Create_keeps:
  assumes sch: "schema_ok (sv_db s)" and j: "abs_db (sv_db s) j \<noteq> None"
  shows "abs_db (sv_db (fst (Create env s t ex))) j = abs_db (sv_db s) j"
proof (cases "create env s PrivacyStandard (Some t) None ex")
  case (Pair s' r)
  show ?thesis
  proof (cases r)
    case (Inl e)
    with Pair show ?thesis by (auto simp: Create_def dest: create_Inl split: option.split)
  next
    case (Inr b)
    then show ?thesis using create_text_refines [of env s t ex s' "fst b" "snd b"] Pair sch j
      by (auto simp: Create_def split: option.split)
  qed
qed

lemma CreateEncrypted_keeps:
  assumes sch: "schema_ok (sv_db s)" and j: "abs_db (sv_db s) j \<noteq> None"
  shows "abs_db (sv_db (fst (CreateEncrypted env s e ex))) j = abs_db (sv_db s) j"
proof (cases "create env s PrivacyEncrypted None (Some e) ex")
  case (Pair s' r)
  show ?thesis
  proof (cases r)
    case (Inl er)
    with Pair show ?thesis by (auto simp: CreateEncrypted_def dest: create_Inl split: option.split)
  next
    case (Inr b)
    then show ?thesis using create_enc_refines [of env s e ex s' "fst b" "snd b"] Pair sch j
      by (auto simp: CreateEncrypted_def split: option.split)
  qed
qed

lemma Update_changes:
  assumes d: "db_ok (sv_db s)" and ch: "abs_db (sv_db (fst (Update env s i c pt))) j \<noteq> abs_db (sv_db s) j"
  shows "j = id_string i \<and> owner_accepts c \<and> (\<exists>v. abs_db (sv_db s) j = Some (v, ev_sha env c))"
proof (cases "Update env s i c pt")
  case (Pair s' r)
  show ?thesis
  proof (cases r)
    case (Inl e)
    with Pair ch show ?thesis using Update_Inl by fastforce
  next
    case (Inr v)
    with Pair have u: "Update env s i c pt = (s', Inr v)" by simp
    have "owner_accepts c" using u by (rule Update_Inr) (simp add: VerifyOwnerToken_iff)
    then show ?thesis using Update_refines [OF u d] ch Pair by (metis fst_conv fun_upd_other)
  qed
qed

text \<open>C14: Only the owner changes a Share: if \<open>Update\<close> or \<open>Delete\<close> changes what any id maps to, that
  id is the requested one, the presented token is well formed, and its digest is the verifier
  stored for the Share; \<open>Create\<close> and \<open>CreateEncrypted\<close> never change an existing Share.\<close>

theorem only_the_owner_changes:
  assumes "service_ok s"
  shows "(abs_db (sv_db (fst (Update env s i c pt))) j \<noteq> abs_db (sv_db s) j \<longrightarrow>
        j = id_string i \<and> owner_accepts c \<and> (\<exists>v. abs_db (sv_db s) j = Some (v, ev_sha env c)))
    \<and> (abs_db (sv_db (fst (Delete env s i c))) j \<noteq> abs_db (sv_db s) j \<longrightarrow>
        j = id_string i \<and> owner_accepts c \<and> (\<exists>v. abs_db (sv_db s) j = Some (v, ev_sha env c)))
    \<and> (abs_db (sv_db s) j \<noteq> None \<longrightarrow>
        abs_db (sv_db (fst (Create env s t ex))) j = abs_db (sv_db s) j
        \<and> abs_db (sv_db (fst (CreateEncrypted env s e ex))) j = abs_db (sv_db s) j)"
proof -
  note d = service_okD(1) [OF assms] and sch = db_ok_schema [OF service_okD(1) [OF assms]]
  have "j = id_string i \<and> owner_accepts c \<and> (\<exists>v. abs_db (sv_db s) j = Some (v, ev_sha env c))"
    if "abs_db (sv_db (fst (Delete env s i c))) j \<noteq> abs_db (sv_db s) j"
    using Delete_abs [OF _ sch, of env i c "fst (Delete env s i c)" "snd (Delete env s i c)"] that
    by (auto split: if_splits)
  with Update_changes [OF d, of env i c pt j] Create_keeps [OF sch, of j env t ex]
    CreateEncrypted_keeps [OF sch, of j env e ex] show ?thesis by blast
qed

lemma only_the_owner_changes_witness:
  "(abs_db (sv_db (fst (Delete sample_env text_service text_id ''wrong''))) (id_string text_id)
     = abs_db (sv_db text_service) (id_string text_id))
   \<and> abs_db (sv_db (fst (Delete sample_env text_service text_id (reveal text_token)))) (id_string text_id) = None"
proof -
  have no: "\<not> owner_accepts ''wrong''" by code_simp
  have yes: "abs_db (sv_db (fst (Delete sample_env text_service text_id (reveal text_token)))) (id_string text_id) = None"
    by code_simp
  show ?thesis
    using only_the_owner_changes [OF service_ok_text_service, of sample_env text_id "''wrong''" sample_patch
        "id_string text_id" sample_text None sample_encrypted] no yes by blast
qed

text \<open>C15: \<open>Delete\<close> is exact: when it succeeds, or reports only a cleanup failure, the Share is gone
  and every other id is unchanged; when it succeeds for a File Share the object is gone too, and
  the objects of all other Shares are still there.\<close>

theorem Delete_effect:
  assumes "Delete env s i c = (s', r)" and "service_ok s" and "r = None \<or> (\<exists>k e. r = Some (CleanupError k e))"
  shows "abs_db (sv_db s') = (abs_db (sv_db s))(id_string i := None)
    \<and> (\<exists>v. abs_db (sv_db s) (id_string i) = Some (v, ev_sha env c)
         \<and> (r = None \<longrightarrow> (\<forall>f fs. File v = Some f \<longrightarrow> sv_store s' = Some fs \<longrightarrow> \<not> store_present fs (StorageKey f))))
    \<and> service_ok s'"
proof -
  note d = service_okD(1) [OF assms(2)] and sch = db_ok_schema [OF service_okD(1) [OF assms(2)]]
  have ok: "service_ok s'" using service_ok_Delete [OF assms(2), of env i c] assms(1) by simp
  from assms(1) show ?thesis
  proof (cases rule: Delete_cases)
    case (refused e)
    with assms(3) show ?thesis by auto
  next
    case (deleted a fs' key)
    from deleted(1) obtain r0 where r0: "row_of r_id (id_string i) (shares (sv_db s)) = Some r0"
      "au_verifier a = r_verifier r0" "r_kind r0 = kind_string (au_kind a)"
      by (rule loadAuthorization_Inr)
    have id: "r_id r0 = id_string i" using r0(1) by (auto dest: row_of_SomeD)
    have gone: "\<not> store_present fs (f_key g)"
      if "r = None" "row_of f_share (id_string i) (files (sv_db s)) = Some g" "sv_store s' = Some fs" for g fs
    proof -
      have g: "g \<in> set (files (sv_db s))" "f_share g = id_string i" using row_of_SomeD [OF that(2)] by auto
      then have "typed_share (sv_db s) (id_string i) ''FILE'' ''STANDARD''"
        using sch by (auto simp: schema_ok_def)
      then have "au_kind a = PayloadFile" using r0 by (cases "au_kind a") (auto simp: typed_share_def)
      then have key: "key = f_key g" using deleted(5) that(2) by simp
      then have ne: "key \<noteq> []" using file_key_nonempty [OF sch g(1)] by simp
      note removed = deleted(7) [OF that(1) ne]
      obtain fs0 where "sv_store s = Some fs0" "snd (store_delete (ev_io env 0) fs0 key) = None"
        using removed by blast
      with deleted(3,6) ne that(3) key show ?thesis by (auto dest: store_delete_gone)
    qed
    have "abs_db (sv_db s) (id_string i) = Some (abs_share (sv_db s) r0, ev_sha env c)"
      using r0 deleted(2) by (simp add: abs_db_def VerifyOwnerToken_iff)
    moreover have "abs_db (sv_db s') = (abs_db (sv_db s))(id_string i := None)"
      using deleted(3) abs_delete_share [OF sch] by simp
    ultimately show ?thesis using ok gone id by (auto simp: abs_share_def)
  qed
qed

lemma Delete_effect_witness:
  "\<exists>s'. Delete sample_env file_service file_id (reveal text_token) = (s', None)
     \<and> abs_db (sv_db s') (id_string file_id) = None \<and> service_ok s'"
proof -
  have "snd (Delete sample_env file_service file_id (reveal text_token)) = None" by code_simp
  then have d: "Delete sample_env file_service file_id (reveal text_token) =
     (fst (Delete sample_env file_service file_id (reveal text_token)), None)" by (metis prod.collapse)
  show ?thesis using Delete_effect [OF d service_ok_file_service] d by auto
qed


section \<open>File Shares\<close>

text \<open>C16: An uploaded File reads back: staging a source and creating its Share stores a Share with
  the source's size and digest, and \<open>OpenFile\<close> then returns that Share with exactly the bytes
  of the source for as long as the Share is live.\<close>

theorem file_round_trip:
  assumes "StageFile env (Some k) sufs src s = (s1, Inr st)" and "length k = 16"
    and "CreateFile env s1 name (Some st) ex = (s2, st2, Inr (v, tok))"
    and "service_ok s" and "rand_ok env"
    and "\<And>p. \<not> ev_db env' p" and "\<And>n op. \<not> ev_io env' n op"
    and "\<not> IsExpired (ExpiresAt (stored v)) (serverNow env')"
  shows "OpenFile env' s2 (ID v) = Inr (stored v, src_data src) \<and> service_ok s2
    \<and> (\<exists>f. File v = Some f \<and> Size f = int (length (src_data src)) \<and> SHA256 f = ev_sha env (src_data src)
         \<and> Filename f = name)"
proof -
  obtain fs0 fs where fs0: "sv_store s = Some fs0"
    and stage: "Stage (ev_io env 0) (ev_now env) (ev_sha env) (Some k) sufs src MaxFileBytes fs0 = (fs, Inr st)"
    and s1: "s1 = s\<lparr>sv_store := Some fs\<rparr>"
    using assms(1) by (auto simp: StageFile_def split: option.splits prod.splits)
  note st = Stage_ok [OF stage assms(2)]
  have ok1: "service_ok s1" using service_ok_StageFile [OF assms(4), of env "Some k" sufs src] assms(1) by simp
  obtain st3 where c: "create_file env s1 fs name st ex = (s2, st3, Inr (v, tok))"
    using assms(3) s1 by (auto simp: CreateFile_def split: prod.splits)
  note ref = create_file_refines [OF c service_okD(1) [OF ok1] st(1)]
  have "st_key st \<notin> keys_of f_key (files (sv_db s1))"
    using create_file_fresh [OF c staged_ok_temp [OF st(1)]] .
  then have ok2: "service_ok s2"
    using service_ok_create_file [OF ok1 _ st(1) _ assms(5) c] s1 by simp
  obtain fs2 rel where fs2: "sv_store s2 = Some fs2" and rel: "relative (st_key st) = Inr rel"
    and node: "lstat fs2 rel = Some (Regular (src_data src) (ev_now env))"
    using ref st(2) by auto
  have att: "File (stored v) = Some \<lparr>StorageKey = st_key st, Filename = name, Size = int (st_size st),
           MediaType = ev_detect env (st_sniff st), SHA256 = st_digest st\<rparr>"
    using ref by (simp add: stored_def)
  have meta: "st_size st = length (src_data src)" "st_digest st = ev_sha env (src_data src)"
    using st(1,2) by (auto simp: staged_ok_def)
  have "Get env' s2 (ID v) = Inr (stored v)"
    using assms(6,8) ref service_okD(1) [OF ok2]
    by (simp add: Get_def loadActive_refines spec_get_def)
  then have "OpenFile env' s2 (ID v) = Inr (stored v, src_data src)"
    using att fs2 rel node assms(7) by (simp add: OpenFile_def store_open_def)
  then show ?thesis using ok2 ref meta by simp
qed

lemma file_round_trip_witness:
  "\<exists>s2 st2 v tok. CreateFile sample_env (empty_service\<lparr>sv_store := Some staged_fs\<rparr>) ''a.txt'' (Some file_stage) None
       = (s2, st2, Inr (v, tok))
     \<and> OpenFile sample_env s2 (ID v) = Inr (stored v, ''data'')"
proof -
  obtain v st where c: "CreateFile sample_env (empty_service\<lparr>sv_store := Some staged_fs\<rparr>) ''a.txt'' (Some file_stage) None
     = (file_service, st, Inr (v, text_token))"
    using file_created by blast
  have "case CreateFile sample_env (empty_service\<lparr>sv_store := Some staged_fs\<rparr>) ''a.txt'' (Some file_stage) None of
      (s, st, Inr (v, tok)) \<Rightarrow> \<not> IsExpired (ExpiresAt (stored v)) (serverNow sample_env) | _ \<Rightarrow> False"
    by code_simp
  then have live: "\<not> IsExpired (ExpiresAt (stored v)) (serverNow sample_env)" using c by simp
  have "src_data sample_source = ''data''" by (simp add: sample_source_def)
  then show ?thesis
    using file_round_trip [OF file_staged _ c service_ok_empty_service rand_ok_sample(1) _ _ live] c by auto
qed

text \<open>C17: A failing call changes nothing a client can see: when \<open>Create\<close>, \<open>CreateEncrypted\<close>,
  \<open>CreateFile\<close> or \<open>Update\<close> returns an error, or \<open>Delete\<close> an error other than the cleanup report,
  the tables are those before the call, whatever step failed.\<close>

theorem failed_calls_keep_tables:
  shows "(snd (Create env s t ex) = Inl e1 \<longrightarrow> fst (Create env s t ex) = s)
    \<and> (snd (CreateEncrypted env s c ex) = Inl e2 \<longrightarrow> fst (CreateEncrypted env s c ex) = s)
    \<and> (snd (Update env s i tok pt) = Inl e3 \<longrightarrow> fst (Update env s i tok pt) = s)
    \<and> (snd (Delete env s i tok) = Some e4 \<longrightarrow> errors_as_cleanup e4 = None \<longrightarrow> fst (Delete env s i tok) = s)
    \<and> (snd (snd (CreateFile env s name st ex)) = Inl e5 \<longrightarrow> sv_db (fst (CreateFile env s name st ex)) = sv_db s)"
proof (intro conjI impI)
  show "fst (Create env s t ex) = s" if "snd (Create env s t ex) = Inl e1"
    using that by (cases "Create env s t ex") (auto simp: Create_def dest: create_Inl split: option.splits)
  show "fst (CreateEncrypted env s c ex) = s" if "snd (CreateEncrypted env s c ex) = Inl e2"
    using that by (cases "CreateEncrypted env s c ex") (auto simp: CreateEncrypted_def dest: create_Inl split: option.splits)
  show "fst (Update env s i tok pt) = s" if "snd (Update env s i tok pt) = Inl e3"
    using that by (cases "Update env s i tok pt") (auto dest: Update_Inl)
  show "fst (Delete env s i tok) = s" if "snd (Delete env s i tok) = Some e4" "errors_as_cleanup e4 = None"
  proof (cases "Delete env s i tok")
    case (Pair s' r)
    with that have r: "r = Some e4" by simp
    from Pair show ?thesis
    proof (cases rule: Delete_cases)
      case (deleted a fs' key)
      from deleted(4) r that(2) show ?thesis by auto
    qed (use Pair in simp)
  qed
  show "sv_db (fst (CreateFile env s name st ex)) = sv_db s" if "snd (snd (CreateFile env s name st ex)) = Inl e5"
    using that
    by (cases "sv_store s"; cases st) (auto simp: CreateFile_def dest: create_file_failed split: prod.splits)
qed

lemma failed_calls_keep_tables_witness:
  "snd (Update sample_env text_service text_id ''wrong'' sample_patch) = Inl ErrUnauthorized
   \<and> fst (Update sample_env text_service text_id ''wrong'' sample_patch) = text_service"
proof -
  have "snd (Update sample_env text_service text_id ''wrong'' sample_patch) = Inl ErrUnauthorized" by code_simp
  then show ?thesis
    using failed_calls_keep_tables [where env = sample_env and s = text_service and i = text_id
        and tok = "''wrong''" and pt = sample_patch] by blast
qed

text \<open>C18: An object-key collision loses data: when the key of a staged upload is that of an object
  already in the store, \<open>CreateFile\<close> fails as it should, but its cleanup deletes the object by
  that key, so the Share that owns it is left without its object.\<close>

theorem collision_loses_object:
  assumes "service_ok s" and "sv_store s = Some fs" and "f \<in> set (files (sv_db s))"
    and "staged_ok (ev_sha env) MaxFileBytes st fs" and "st_key st = f_key f"
    and "\<And>n op. \<not> ev_io env n op"
    and "normalizeExpiration (sv_retention s) ex (serverNow env) = Inr x"
    and "GenerateShareID (ev_id_rnd env) = Inr i" and "GenerateOwnerToken (ev_token_rnd env) = Inr tok"
  shows "\<exists>s' st' e fs'. CreateFile env s name (Some st) ex = (s', st', Inl e) \<and> sv_db s' = sv_db s
    \<and> sv_store s' = Some fs' \<and> \<not> store_present fs' (f_key f) \<and> \<not> service_ok s'"
proof -
  obtain s' st' r where c: "create_file env s fs name st ex = (s', st', r)" by (metis prod_cases3)
  have "store_present fs (st_key st)" using assms(1-3,5) by (auto simp: service_ok_def objects_ok_def)
  from create_file_collision [OF c assms(4) this assms(6-9)] obtain e fs' where
    r: "r = Inl e" "sv_db s' = sv_db s" "sv_store s' = Some fs'" "\<not> store_present fs' (st_key st)" by blast
  then have "\<not> service_ok s'" using assms(3,5) by (auto simp: service_ok_def objects_ok_def)
  with r c assms(2,5) show ?thesis by (simp add: CreateFile_def)
qed

definition collision_fs :: fs where
  "collision_fs = (st_temp file_stage, Regular ''data'' 1700000000000000000) # the (sv_store file_service)"

lemma collision_loses_object_witness:
  "\<exists>s' st' e. CreateFile (other_env (CHR ''z'')) (file_service\<lparr>sv_store := Some collision_fs\<rparr>) ''b.txt''
      (Some file_stage) None = (s', st', Inl e) \<and> \<not> service_ok s'"
proof -
  let ?s = "file_service\<lparr>sv_store := Some collision_fs\<rparr>"
  obtain f where f: "files (sv_db file_service) = [f]" "f_key f = st_key file_stage"
  proof -
    have "map f_key (files (sv_db file_service)) = [st_key file_stage]" by code_simp
    then show ?thesis using that by (auto simp: map_eq_Cons_conv)
  qed
  have p: "store_present collision_fs (st_key file_stage)" by code_simp
  have ok: "service_ok ?s"
    using service_okD(1) [OF service_ok_file_service] f p by (simp add: service_ok_def objects_ok_def)
  have st: "staged_ok (ev_sha (other_env (CHR ''z''))) MaxFileBytes file_stage collision_fs"
  proof -
    have "lstat collision_fs (st_temp file_stage) = lstat staged_fs (st_temp file_stage)" by code_simp
    then show ?thesis using staged_ok_sample by (simp add: staged_ok_def other_env_def)
  qed
  have env: "\<exists>x. normalizeExpiration (sv_retention ?s) None (serverNow (other_env (CHR ''z''))) = Inr x"
    "\<exists>x. GenerateShareID (ev_id_rnd (other_env (CHR ''z''))) = Inr x"
    "\<exists>x. GenerateOwnerToken (ev_token_rnd (other_env (CHR ''z''))) = Inr x"
  proof -
    have "case normalizeExpiration (sv_retention ?s) None (serverNow (other_env (CHR ''z''))) of Inr x \<Rightarrow> True | _ \<Rightarrow> False"
      "case GenerateShareID (ev_id_rnd (other_env (CHR ''z''))) of Inr x \<Rightarrow> True | _ \<Rightarrow> False"
      "case GenerateOwnerToken (ev_token_rnd (other_env (CHR ''z''))) of Inr x \<Rightarrow> True | _ \<Rightarrow> False"
      by code_simp+
    then show "\<exists>x. normalizeExpiration (sv_retention ?s) None (serverNow (other_env (CHR ''z''))) = Inr x"
      "\<exists>x. GenerateShareID (ev_id_rnd (other_env (CHR ''z''))) = Inr x"
      "\<exists>x. GenerateOwnerToken (ev_token_rnd (other_env (CHR ''z''))) = Inr x"
      by (auto split: sum.splits)
  qed
  from env obtain x i tok where go:
    "normalizeExpiration (sv_retention ?s) None (serverNow (other_env (CHR ''z''))) = Inr x"
    "GenerateShareID (ev_id_rnd (other_env (CHR ''z''))) = Inr i"
    "GenerateOwnerToken (ev_token_rnd (other_env (CHR ''z''))) = Inr tok" by blast
  have io: "\<not> ev_io (other_env (CHR ''z'')) n op" for n op by (simp add: other_env_def)
  have mem: "f \<in> set (files (sv_db ?s))" "sv_store ?s = Some collision_fs" using f by simp_all
  from collision_loses_object [OF ok mem(2,1) st f(2) [symmetric] io go, of "''b.txt''"] show ?thesis
    by blast
qed

end
