(* ===== verification/StoreProps.thy ===== *)
theory StoreProps
  imports Samples
begin

text \<open>
  The properties of the administrator's view (\<open>internal/share/admin.go\<close>), of maintenance and of
  the reconciliation of the object store, and the retention bound of public deployments.
\<close>

section \<open>The administrator's view\<close>

text \<open>C30: Paging is complete: following the cursors of \<open>AdminList\<close> from the first page to the last
  yields every Share that matches the filter exactly once, in the strict order of creation time
  and id the sort asks for, and the paging ends.\<close>

theorem paging_complete:
  assumes "service_ok s" and "\<not> ev_db env AtQuery"
    and "af_Lifecycle flt \<in> {''active'', ''expired'', []}" and "sort_ascending (af_Sort flt) = Inr asc"
    and "\<forall>r\<in>set (shares (sv_db s)). int64 (r_created r)" and "length (shares (sv_db s)) \<le> n"
  shows "\<exists>rows. follow n env s (flt\<lparr>af_Cursor := []\<rparr>) = Inr (map (\<lambda>r. listed (abs_share (sv_db s) r)) rows)
    \<and> set rows = {r \<in> set (shares (sv_db s)). admin_matches flt (unix_milli (serverNow env)) r}
    \<and> distinct rows \<and> sorted_wrt (\<lambda>a b. beyond asc (r_created a) (r_id a) b) rows"
proof -
  let ?rows = "admin_rows env s flt asc"
  have dist: "distinct (map r_id (shares (sv_db s)))"
    using db_ok_schema [OF service_okD(1) [OF assms(1)]] by (simp add: schema_ok_def)
  then have d: "distinct (map r_id [r \<leftarrow> shares (sv_db s). admin_matches flt (unix_milli (serverNow env)) r])"
    by (simp add: distinct_map_filter)
  have "length ?rows \<le> 0 + n" using assms(6) by (simp add: admin_rows_def length_filter_bound)
  from follow_all [OF service_okD(1) [OF assms(1)] assms(2-5) _ this]
  have "follow n env s (flt\<lparr>af_Cursor := []\<rparr>) = Inr (map (\<lambda>r. listed (abs_share (sv_db s) r)) ?rows)"
    by (simp add: cursor_at_def)
  moreover have "sorted_wrt (\<lambda>a b. beyond asc (r_created a) (r_id a) b) ?rows"
    using admin_order_strict [OF d] by (simp add: admin_rows_def)
  moreover have "distinct ?rows"
    using d by (simp add: admin_rows_def admin_order_def distinct_map)
  moreover have "set ?rows = {r \<in> set (shares (sv_db s)). admin_matches flt (unix_milli (serverNow env)) r}"
    by (simp add: admin_rows_def)
  ultimately show ?thesis by blast
qed

definition all_shares :: admin_filter where
  "all_shares = \<lparr>af_PayloadKind = [], af_PrivacyMode = [], af_Lifecycle = ''active'', af_Sort = ''oldest'',
     af_Cursor = [], af_Limit = 1, af_ExactID = []\<rparr>"

lemma paging_complete_witness:
  "\<exists>rows. follow 1 sample_env text_service (all_shares\<lparr>af_Cursor := []\<rparr>)
      = Inr (map (\<lambda>r. listed (abs_share (sv_db text_service) r)) rows)
    \<and> set rows = set (shares (sv_db text_service))"
proof -
  have h: "af_Lifecycle all_shares \<in> {''active'', ''expired'', []}" "sort_ascending (af_Sort all_shares) = Inr True"
    "\<forall>r\<in>set (shares (sv_db text_service)). int64 (r_created r)" "length (shares (sv_db text_service)) \<le> 1"
    "\<forall>r\<in>set (shares (sv_db text_service)). admin_matches all_shares (unix_milli (serverNow sample_env)) r"
    by code_simp+
  then have "set (shares (sv_db text_service))
    = {r \<in> set (shares (sv_db text_service)). admin_matches all_shares (unix_milli (serverNow sample_env)) r}" by blast
  then show ?thesis
    using paging_complete [OF service_ok_text_service _ h(1-4), of sample_env] by auto
qed

text \<open>C31: The administrator sees and removes every Share without its token: \<open>AdminGet\<close> reads the stored
  Share even after it has expired (as long as it did not expire in the year 1), and a successful
  \<open>AdminDelete\<close>, or one that only failed to remove the object, removes exactly that Share and keeps the
  service consistent.\<close>

theorem admin_reads_and_removes:
  assumes "service_ok s"
  shows "(\<not> ev_db env AtSelectShare \<longrightarrow> AdminGet env s i = spec_get (abs_db (sv_db s)) (id_string i) zero_time)
    \<and> (\<forall>s' r. AdminDelete env s i = (s', r) \<longrightarrow> r = None \<or> (\<exists>k e. r = Some (CleanupError k e)) \<longrightarrow>
         abs_db (sv_db s') = (abs_db (sv_db s))(id_string i := None)
         \<and> abs_db (sv_db s) (id_string i) \<noteq> None \<and> service_ok s')"
proof (intro conjI allI impI)
  show "AdminGet env s i = spec_get (abs_db (sv_db s)) (id_string i) zero_time" if "\<not> ev_db env AtSelectShare"
    by (rule AdminGet_refines [OF service_okD(1) [OF assms] that])
next
  note sch = db_ok_schema [OF service_okD(1) [OF assms]]
  fix s' r
  assume d: "AdminDelete env s i = (s', r)" "r = None \<or> (\<exists>k e. r = Some (CleanupError k e))"
  show "service_ok s'" using service_ok_AdminDelete [OF assms, of env i] d(1) by simp
  from d(1) have "abs_db (sv_db s') = (abs_db (sv_db s))(id_string i := None)
    \<and> abs_db (sv_db s) (id_string i) \<noteq> None"
  proof (cases rule: AdminDelete_cases)
    case (deleted row)
    then show ?thesis using abs_delete_share [OF sch] by (simp add: abs_db_def)
  qed (use d(2) in auto)
  then show "abs_db (sv_db s') = (abs_db (sv_db s))(id_string i := None)" "abs_db (sv_db s) (id_string i) \<noteq> None"
    by simp_all
qed

lemma admin_reads_and_removes_witness:
  "AdminGet later_env text_service text_id = spec_get (abs_db (sv_db text_service)) (id_string text_id) zero_time
   \<and> abs_db (sv_db (fst (AdminDelete later_env text_service text_id))) (id_string text_id) = None"
proof -
  have "snd (AdminDelete later_env text_service text_id) = None" by code_simp
  then have d: "AdminDelete later_env text_service text_id = (fst (AdminDelete later_env text_service text_id), None)"
    by (metis prod.collapse)
  show ?thesis using admin_reads_and_removes [OF service_ok_text_service, of later_env text_id] d by simp
qed

text \<open>C32: The summary is exact: it reports how many Shares of the store have not reached their expiration
  and how many have, how many are texts, files, and encrypted, and how many bytes the files have.  So
  every Share is counted once as active or expired, and once as text or file.\<close>

theorem summary_totals:
  assumes "service_ok s" and "AdminSummary env s = Inr m"
  shows "Active m = count_shares (\<lambda>v. \<not> IsExpired (ExpiresAt v) (serverNow env)) (abs_db (sv_db s))
    \<and> Expired m = count_shares (\<lambda>v. IsExpired (ExpiresAt v) (serverNow env)) (abs_db (sv_db s))
    \<and> TextCount m = count_shares (\<lambda>v. PayloadKind v = PayloadText) (abs_db (sv_db s))
    \<and> FileCount m = count_shares (\<lambda>v. PayloadKind v = PayloadFile) (abs_db (sv_db s))
    \<and> EncryptedCount m = count_shares (\<lambda>v. PrivacyMode v = PrivacyEncrypted) (abs_db (sv_db s))
    \<and> FileBytes m = (\<Sum>i\<in>dom (abs_db (sv_db s)). share_file_bytes (fst (the (abs_db (sv_db s) i))))
    \<and> Active m + Expired m = length (shares (sv_db s)) \<and> TextCount m + FileCount m = length (shares (sv_db s))
    \<and> EncryptedCount m \<le> TextCount m"
  using AdminSummary_exact [OF assms(2)] AdminSummary_totals [OF assms(2)] db_ok_schema [OF service_okD(1) [OF assms(1)]]
  by blast

lemma summary_totals_witness:
  "\<exists>m. AdminSummary sample_env file_service = Inr m \<and> Active m + Expired m = 1 \<and> FileBytes m = 4
    \<and> count_shares (\<lambda>v. PayloadKind v = PayloadFile) (abs_db (sv_db file_service)) = 1"
proof -
  have "case AdminSummary sample_env file_service of Inr m \<Rightarrow> FileBytes m = 4 \<and> FileCount m = 1 | _ \<Rightarrow> False"
    "length (shares (sv_db file_service)) = 1" by code_simp+
  then show ?thesis
    using summary_totals [OF service_ok_file_service, of sample_env] by (auto split: sum.splits)
qed

section \<open>Maintenance\<close>

text \<open>C27: A maintenance run, wherever it fails, removes nothing but expired Shares and leaves the
  service consistent: every File that is still stored has its object.\<close>

theorem run_removes_only_expired:
  assumes "RunOnce envs now d fs = (d', fs', res, e)" and "db_ok d" and "objects_ok d (Some fs)"
  shows "db_ok d' \<and> objects_ok d' (Some fs')
    \<and> (\<forall>i. abs_db d' i = abs_db d i
        \<or> abs_db d' i = None \<and> (\<exists>v w. abs_db d i = Some (v, w) \<and> IsExpired (ExpiresAt v) now))"
  using RunOnce_safe [OF assms] by (simp add: purged_def)

lemma run_removes_only_expired_witness:
  "db_ok (fst (RunOnce (\<lambda>n. sample_env) 1700000000000000000 (sv_db file_service) (the (sv_store file_service))))"
proof -
  have st: "sv_store file_service = Some (the (sv_store file_service))" by code_simp
  obtain d' fs' res e where r: "RunOnce (\<lambda>n. sample_env) 1700000000000000000 (sv_db file_service)
      (the (sv_store file_service)) = (d', fs', res, e)" by (metis prod_cases4)
  have "objects_ok (sv_db file_service) (Some (the (sv_store file_service)))"
    using service_okD(2) [OF service_ok_file_service] st by simp
  from run_removes_only_expired [OF r service_okD(1) [OF service_ok_file_service] this] r show ?thesis by simp
qed

text \<open>C28: A run makes progress: when it reports no error it has removed 2048 expired Shares or all
  there were, reports that number, and reports a backlog exactly when expired Shares are left.
  Runs repeated on a quiet store therefore empty the backlog.\<close>

theorem run_progress:
  assumes "RunOnce envs now d fs = (d', fs', res, None)" and "db_ok d"
  shows "Purged res = min 2048 (expired_count (unix_milli now) d)
    \<and> expired_count (unix_milli now) d' = expired_count (unix_milli now) d - 2048
    \<and> (Backlog res \<longleftrightarrow> expired_count (unix_milli now) d' > 0)"
proof -
  obtain fs1 res1 e1 where r: "purge_rounds 8 0 envs now d fs initial_result = (d', fs1, res1, e1)"
    "Purged res = Purged res1" "e1 = None" "Backlog res \<longleftrightarrow> expired_count (unix_milli now) d' > 0"
    using assms(1) by (rule RunOnce_rounds) auto
  have "purge_rounds 8 0 envs now d fs initial_result = (d', fs1, res1, None)" using r(1,3) by simp
  from rounds_counts [OF this assms(2)] r(2,4) show ?thesis
    by (simp add: initial_result_def BatchSize_def)
qed

lemma run_progress_witness:
  "Purged (fst (snd (snd (RunOnce (\<lambda>n. later_env) (ev_now later_env) (sv_db text_service) [])))) = 1"
proof -
  have e: "snd (snd (snd (RunOnce (\<lambda>n. later_env) (ev_now later_env) (sv_db text_service) []))) = None"
    and c: "expired_count (unix_milli (ev_now later_env)) (sv_db text_service) = 1" by code_simp+
  obtain d' fs' res where r: "RunOnce (\<lambda>n. later_env) (ev_now later_env) (sv_db text_service) [] = (d', fs', res, None)"
    using e by (metis prod.collapse)
  show ?thesis using run_progress [OF r service_okD(1) [OF service_ok_text_service]] c r by simp
qed

section \<open>Reconciliation\<close>

text \<open>What the store's own operations leave: files are at the root or in a shard directory, and the
  staging files are at the root.\<close>

definition tree_ok :: "fs \<Rightarrow> bool" where
  "tree_ok fs \<longleftrightarrow>
     (\<forall>p. lstat fs p \<noteq> None \<longrightarrow>
        (CHR ''/'' \<in> set p \<longrightarrow> lstat fs (take 2 p) = Some Directory \<and> CHR ''/'' \<notin> set (take 2 p)
           \<and> \<not> has_prefix p ''.stage-''))"

lemma root_listed: "p \<in> set (root_names fs) \<longleftrightarrow> lstat fs p \<noteq> None \<and> CHR ''/'' \<notin> set p"
  using in_paths [of p fs] by (auto simp: root_names_def)

lemma removable_target:
  assumes "tree_ok fs" "lstat fs p = Some n" "removable refs stale p n"
  shows "sweep_target refs (root_names fs) fs p"
proof (cases "has_prefix p ''.stage-''")
  case True
  with assms(1,2) have "p \<in> set (root_names fs)" by (auto simp: root_listed tree_ok_def)
  with True show ?thesis by (simp add: sweep_target_def)
next
  case False
  with assms(3) obtain key where k: "relative key = Inr p" "key \<notin> set refs" by (auto simp: removable_def)
  then have p: "p = take 2 key @ ''/'' @ drop 2 key" "validKey key" by (simp_all add: relative_Inr_iff)
  then have t: "take 2 p = take 2 key" "CHR ''/'' \<in> set p" using validKey_length [OF p(2)] by auto
  with assms(1,2) have "lstat fs (take 2 key) = Some Directory" "CHR ''/'' \<notin> set (take 2 key)"
    by (auto simp: tree_ok_def)
  then have "take 2 key \<in> set (root_names fs)" by (simp add: root_listed)
  with k \<open>lstat fs (take 2 key) = Some Directory\<close> show ?thesis by (auto simp: sweep_target_def)
qed

text \<open>C29: A sweep that reports no error removes exactly the stale staging files and the stale objects
  no Share references, keeps everything else, and, when no directory access fails, reports how
  many referenced objects are missing.\<close>

theorem sweep_exact:
  assumes "Reconcile io refs stale fs = (fs', res, None)" and "tree_ok fs"
  shows "lstat fs' p =
      (case lstat fs p of None \<Rightarrow> None | Some n \<Rightarrow> if removable refs stale p n then None else Some n)
    \<and> (k \<in> set refs \<longrightarrow> store_present fs' k = store_present fs k)
    \<and> ((\<forall>op. \<not> io op) \<longrightarrow> MissingReferenced res = length (filter (\<lambda>k. \<not> store_present fs k) refs))"
proof -
  have sw: "swept refs stale fs fs'" using swept_Reconcile [of refs stale fs io] assms(1) by simp
  obtain res1 where e: "reconcile_entries io refs stale (root_names fs) fs no_result = (fs', res1, None)"
    and m: "reconcile_missing io refs fs' res1 = (res, None)"
    using assms(1) by (auto simp: Reconcile_def split: if_splits prod.splits option.splits)
  have "lstat fs' p = (case lstat fs p of None \<Rightarrow> None | Some n \<Rightarrow> if removable refs stale p n then None else Some n)"
  proof (cases "lstat fs p")
    case None
    then show ?thesis using swept_shrinks [OF sw] by simp
  next
    case (Some n)
    have "lstat fs' p = None" if "removable refs stale p n"
      using entries_complete [of io refs stale "root_names fs" fs no_result p n] e
        removable_target [OF assms(2) Some that] Some that by simp
    then show ?thesis using swept_cases [OF sw Some] Some by auto
  qed
  moreover have keep: "store_present fs' k = store_present fs k" if "k \<in> set refs" for k
    using swept_present_ref [OF sw that] .
  moreover have "MissingReferenced res = length (filter (\<lambda>k. \<not> store_present fs k) refs)" if "\<forall>op. \<not> io op"
  proof -
    have "MissingReferenced res = MissingReferenced res1 + length (filter (\<lambda>k. \<not> store_present fs' k) refs)"
      using reconcile_missing_count [of io refs fs' res1] that m by (metis fst_conv reconcile_result.select_convs(3)
          reconcile_result.update_convs(3) reconcile_result.surjective)
    moreover have "MissingReferenced res1 = 0"
      using entries_missing [of io refs stale "root_names fs" fs no_result] e by (simp add: no_result_def)
    ultimately show ?thesis using keep by (simp cong: filter_cong)
  qed
  ultimately show ?thesis by blast
qed

definition stale_fs :: fs where
  "stale_fs = [(''.stage-old'', Regular ''x'' 5), (''.stage-new'', Regular ''x'' 50), (''6b'', Directory),
     (''6b/'' @ concat (replicate 15 ''6b''), Regular ''x'' 5)]"

lemma sweep_exact_witness:
  "lstat (fst (Reconcile (\<lambda>op. False) [] 10 stale_fs)) ''.stage-old'' = None
   \<and> lstat (fst (Reconcile (\<lambda>op. False) [] 10 stale_fs)) ''.stage-new'' = Some (Regular ''x'' 50)"
proof -
  have e: "snd (snd (Reconcile (\<lambda>op. False) [] 10 stale_fs)) = None" by code_simp
  obtain fs' res where r: "Reconcile (\<lambda>op. False) [] 10 stale_fs = (fs', res, None)"
    using e by (metis prod.collapse)
  have "\<forall>p\<in>set (map fst stale_fs). CHR ''/'' \<in> set p \<longrightarrow> lstat stale_fs (take 2 p) = Some Directory
      \<and> CHR ''/'' \<notin> set (take 2 p) \<and> \<not> has_prefix p ''.stage-''"
    by code_simp
  then have t: "tree_ok stale_fs" unfolding tree_ok_def using in_paths [of _ stale_fs] by (metis list.set_map)
  have l: "lstat stale_fs ''.stage-old'' = Some (Regular ''x'' 5)" "lstat stale_fs ''.stage-new'' = Some (Regular ''x'' 50)"
    by code_simp+
  have rm: "removable [] 10 ''.stage-old'' (Regular ''x'' 5)" "\<not> removable [] 10 ''.stage-new'' (Regular ''x'' 50)"
    by (simp_all add: removable_def has_prefix_def)
  from sweep_exact [OF r t, of "''.stage-old''" "[]"] sweep_exact [OF r t, of "''.stage-new''" "[]"] l rm r
  show ?thesis by simp
qed

section \<open>Retention\<close>

text \<open>C33: In a public deployment nothing outlives the maximum: from a service whose Shares are within
  it, no creation, update or deletion stores a Share without an expiration or with one more than
  the maximum lifetime after its creation.\<close>

theorem retention_bound:
  assumes "retention_ok s" and "service_ok s"
  shows "retention_ok (fst (Create env s t ex)) \<and> retention_ok (fst (CreateEncrypted env s c ex))
    \<and> retention_ok (fst (Update env s i tok pt)) \<and> retention_ok (fst (Delete env s i tok))
    \<and> retention_ok (fst (AdminDelete env s i))
    \<and> (\<forall>fs. sv_store s = Some fs \<longrightarrow> staged_ok (ev_sha env) MaxFileBytes st fs \<longrightarrow>
         retention_ok (fst (CreateFile env s name (Some st) ex)))"
proof -
  have f: "retention_ok (fst (CreateFile env s name (Some st) ex))"
    if "sv_store s = Some fs" "staged_ok (ev_sha env) MaxFileBytes st fs" for fs
  proof -
    obtain s' st' r where c: "create_file env s fs name st ex = (s', st', r)" by (metis prod_cases3)
    from retention_create_file [OF c assms(1) that(2)] c that(1) show ?thesis by (simp add: CreateFile_def)
  qed
  show ?thesis
    using retention_Create [OF assms(1)] retention_CreateEncrypted [OF assms(1)] retention_Delete [OF assms(1)]
      retention_AdminDelete [OF assms(1)] retention_Update [OF assms(1) db_ok_schema [OF service_okD(1) [OF assms(2)]]] f
    by blast
qed

lemma retention_bound_witness:
  "retention_ok (fst (Create sample_env empty_service sample_text None))"
proof -
  have "retention_ok empty_service"
    unfolding empty_service_def
    by (rule retention_ok_fresh) (simp add: policy_ok_def sample_policy_def hour_def minute_def second_def)
  from retention_bound [OF this service_ok_empty_service] show ?thesis by blast
qed

end
