(* ===== verification/NetAddr.thy ===== *)
theory NetAddr
  imports Prelude "HOL-Library.Word"
begin

text \<open>
  What the program uses of Go's \<open>net\<close> and \<open>net/netip\<close>: \<open>SplitHostPort\<close>, \<open>ParseAddr\<close>,
  \<open>Unmap\<close>, \<open>ParsePrefix\<close>, \<open>Masked\<close>, \<open>Contains\<close> and \<open>String\<close>.  An address is a word
  of its width; an IPv6 address carries its zone.
\<close>

section \<open>Addresses\<close>

datatype addr = NoAddr | V4 "32 word" | V6 "128 word" string

record prefix =
  px_addr :: addr
  px_bits :: nat

fun is_v4 :: "addr \<Rightarrow> bool" where
  "is_v4 (V4 w) = True"
| "is_v4 a = False"

text \<open>\<open>Unmap\<close>: an IPv4-mapped IPv6 address, whatever its zone, becomes the IPv4 address.\<close>

fun unmap :: "addr \<Rightarrow> addr" where
  "unmap (V6 w z) = (if drop_bit 32 w = 0xFFFF then V4 (ucast w) else V6 w z)"
| "unmap a = a"

lemma unmap_idem [simp]: "unmap (unmap a) = unmap a"
  by (cases a) simp_all

definition join_words :: "nat \<Rightarrow> nat list \<Rightarrow> nat" where
  "join_words base ws = foldl (\<lambda>n w. n * base + w) 0 ws"

section \<open>Parsing\<close>

definition octet :: "string \<Rightarrow> nat option" where
  "octet s =
     (if s = [] \<or> \<not> list_all is_digit s \<or> (length s > 1 \<and> hd s = CHR ''0'') \<or> digits_value s > 255
      then None else Some (digits_value s))"

definition parse_v4_fields :: "string \<Rightarrow> nat list option" where
  "parse_v4_fields s =
     (let parts = split_on (CHR ''.'') s
      in if length parts \<noteq> 4 then None
         else if \<exists>p\<in>set parts. octet p = None then None
         else Some (map (\<lambda>p. the (octet p)) parts))"

definition hex_value :: "char \<Rightarrow> nat option" where
  "hex_value c =
     (let n = of_char c :: nat
      in if 48 \<le> n \<and> n \<le> 57 then Some (n - 48)
         else if 97 \<le> n \<and> n \<le> 102 then Some (n - 87)
         else if 65 \<le> n \<and> n \<le> 70 then Some (n - 55)
         else None)"

definition hex_group :: "string \<Rightarrow> nat" where
  "hex_group s = foldl (\<lambda>n c. n * 16 + the (hex_value c)) 0 s"

text \<open>
  The loop of \<open>parseIPv6\<close>: \<open>n\<close> groups may still follow \<open>gs\<close>, and \<open>e\<close> is the place of the
  ellipsis.  The result is the groups and the ellipsis, after the whole string is used.
\<close>

fun v6_groups :: "nat \<Rightarrow> nat list \<Rightarrow> nat option \<Rightarrow> string \<Rightarrow> (nat list \<times> nat option) option" where
  "v6_groups 0 gs e s = (if s = [] then Some (gs, e) else None)"
| "v6_groups (Suc n) gs e s =
     (let digits = takeWhile (\<lambda>c. hex_value c \<noteq> None) s; rest = dropWhile (\<lambda>c. hex_value c \<noteq> None) s
      in if digits = [] \<or> length digits > 4 then None
         else (case rest of
             [] \<Rightarrow> Some (gs @ [hex_group digits], e)
           | c # others \<Rightarrow>
               if c = CHR ''.'' then
                 (if (e = None \<and> length gs \<noteq> 6) \<or> length gs + 2 > 8 then None
                  else (case parse_v4_fields s of
                          Some [a, b, x, y] \<Rightarrow> Some (gs @ [a * 256 + b, x * 256 + y], e)
                        | _ \<Rightarrow> None))
               else if c \<noteq> CHR '':'' \<or> others = [] then None
               else if hd others = CHR '':'' then
                 (if e \<noteq> None then None
                  else if tl others = [] then Some (gs @ [hex_group digits], Some (length gs + 1))
                  else v6_groups n (gs @ [hex_group digits]) (Some (length gs + 1)) (tl others))
               else v6_groups n (gs @ [hex_group digits]) e others))"

definition fill_groups :: "nat list \<times> nat option \<Rightarrow> nat list option" where
  "fill_groups p =
     (case p of (gs, e) \<Rightarrow>
       if length gs < 8
       then (case e of None \<Rightarrow> None | Some k \<Rightarrow> Some (take k gs @ replicate (8 - length gs) 0 @ drop k gs))
       else if e \<noteq> None then None else Some gs)"

definition parse_v6 :: "string \<Rightarrow> addr option" where
  "parse_v6 input =
     (let s = takeWhile (\<lambda>c. c \<noteq> CHR ''%'') input;
          zone = drop (length s + 1) input
      in if s \<noteq> input \<and> zone = [] then None
         else if s = ''::'' then Some (V6 0 zone)
         else (case (if has_prefix s ''::'' then v6_groups 8 [] (Some 0) (drop 2 s) else v6_groups 8 [] None s) of
                 None \<Rightarrow> None
               | Some p \<Rightarrow>
                   (case fill_groups p of
                      None \<Rightarrow> None
                    | Some gs \<Rightarrow> Some (V6 (of_nat (join_words 65536 gs)) zone))))"

definition ParseAddr :: "string \<Rightarrow> addr option" where
  "ParseAddr s =
     (case filter (\<lambda>c. c = CHR ''.'' \<or> c = CHR '':'' \<or> c = CHR ''%'') s of
        [] \<Rightarrow> None
      | c # cs \<Rightarrow>
          if c = CHR ''.'' then map_option (\<lambda>fs. V4 (of_nat (join_words 256 fs))) (parse_v4_fields s)
          else if c = CHR '':'' then parse_v6 s
          else None)"

text \<open>\<open>LastIndexByte\<close>: what precedes and what follows the last \<open>c\<close>.\<close>

definition split_last :: "char \<Rightarrow> string \<Rightarrow> (string \<times> string) option" where
  "split_last c s =
     (if c \<notin> set s then None
      else (let after = rev (takeWhile (\<lambda>x. x \<noteq> c) (rev s)) in Some (take (length s - length after - 1) s, after)))"

definition ParsePrefix :: "string \<Rightarrow> prefix option" where
  "ParsePrefix s =
     (case split_last (CHR ''/'') s of
        None \<Rightarrow> None
      | Some (address, bits) \<Rightarrow>
          (case ParseAddr address of
             None \<Rightarrow> None
           | Some a \<Rightarrow>
               if (case a of V6 w z \<Rightarrow> z \<noteq> [] | _ \<Rightarrow> False) then None
               else if length bits > 1 \<and> (\<not> is_digit (hd bits) \<or> hd bits = CHR ''0'') then None
               else (case parse_int64 bits of
                       None \<Rightarrow> None
                     | Some n \<Rightarrow>
                         if n < 0 \<or> n > (if is_v4 a then 32 else 128) then None
                         else Some \<lparr>px_addr = a, px_bits = nat n\<rparr>)))"

definition SplitHostPort :: "string \<Rightarrow> (string \<times> string) option" where
  "SplitHostPort s =
     (case split_last (CHR '':'') s of
        None \<Rightarrow> None
      | Some (host, port) \<Rightarrow>
          if hd s = CHR ''['' then
            (case split_first (CHR '']'') s of
               [inner, after] \<Rightarrow>
                 if after \<noteq> CHR '':'' # port then None
                 else if CHR ''['' \<in> set (tl s) \<or> CHR '']'' \<in> set after then None
                 else Some (tl inner, port)
             | _ \<Rightarrow> None)
          else if CHR '':'' \<in> set host then None
          else if CHR ''['' \<in> set s \<or> CHR '']'' \<in> set s then None
          else Some (host, port))"

section \<open>Prefixes\<close>

text \<open>The leading \<open>bits\<close> of a word, the others cleared.\<close>

definition keep_bits :: "nat \<Rightarrow> 'w::len word \<Rightarrow> 'w word" where
  "keep_bits bits w = push_bit (LENGTH('w) - bits) (drop_bit (LENGTH('w) - bits) w)"

definition Masked :: "prefix \<Rightarrow> prefix" where
  "Masked p =
     (case px_addr p of
        NoAddr \<Rightarrow> p
      | V4 w \<Rightarrow> p\<lparr>px_addr := V4 (keep_bits (px_bits p) w)\<rparr>
      | V6 w z \<Rightarrow> p\<lparr>px_addr := V6 (keep_bits (px_bits p) w) []\<rparr>)"

definition Contains :: "prefix \<Rightarrow> addr \<Rightarrow> bool" where
  "Contains p a =
     (case (px_addr p, a) of
        (V4 x, V4 y) \<Rightarrow> drop_bit (32 - px_bits p) x = drop_bit (32 - px_bits p) y
      | (V6 x _, V6 y z) \<Rightarrow> z = [] \<and> drop_bit (128 - px_bits p) x = drop_bit (128 - px_bits p) y
      | _ \<Rightarrow> False)"

section \<open>Printing\<close>

text \<open>\<open>split_words n base w\<close>: the \<open>n\<close> lowest digits of \<open>w\<close> in the base, highest first.\<close>

fun split_words :: "nat \<Rightarrow> nat \<Rightarrow> nat \<Rightarrow> nat list" where
  "split_words 0 base w = []"
| "split_words (Suc n) base w = split_words n base (w div base) @ [w mod base]"

fun join_with :: "string \<Rightarrow> string list \<Rightarrow> string" where
  "join_with sep [] = []"
| "join_with sep [x] = x"
| "join_with sep (x # y # ys) = x @ sep @ join_with sep (y # ys)"

definition hex_char :: "nat \<Rightarrow> char" where
  "hex_char n = char_of (if n < 10 then 48 + n else 87 + n)"

fun format_hex :: "nat \<Rightarrow> string" where
  "format_hex n = (if n < 16 then [hex_char n] else format_hex (n div 16) @ [hex_char (n mod 16)])"

declare format_hex.simps [simp del]

text \<open>The longest run of at least two zero groups, the first of equals: its start and end.\<close>

definition zero_run :: "nat list \<Rightarrow> nat \<times> nat" where
  "zero_run gs =
     foldl (\<lambda>(s, e) i. let l = length (takeWhile (\<lambda>g. g = 0) (drop i gs))
                        in if l \<ge> 2 \<and> l > e - s then (i, i + l) else (s, e)) (8, 8) [0..<8]"

definition string_v6 :: "nat list \<Rightarrow> string" where
  "string_v6 gs =
     (case zero_run gs of (s, e) \<Rightarrow>
       if s = 8 then join_with '':'' (map format_hex gs)
       else join_with '':'' (map format_hex (take s gs)) @ ''::'' @ join_with '':'' (map format_hex (drop e gs)))"

fun addr_string :: "addr \<Rightarrow> string" where
  "addr_string NoAddr = ''invalid IP''"
| "addr_string (V4 w) = join_with ''.'' (map format_nat (split_words 4 256 (unat w)))"
| "addr_string (V6 w z) =
     (if drop_bit 32 w = 0xFFFF then ''::ffff:'' @ join_with ''.'' (map format_nat (split_words 4 256 (unat w mod 2 ^ 32)))
      else string_v6 (split_words 8 65536 (unat w))) @ (if z = [] then [] else ''%'' @ z)"

definition prefix_string :: "prefix \<Rightarrow> string" where
  "prefix_string p = addr_string (px_addr p) @ ''/'' @ format_nat (px_bits p)"

end
