(* ===== verification/RateLimit.thy ===== *)
theory RateLimit
  imports Prelude
begin

text \<open>
  The limiter library \<open>golang.org/x/time/rate\<close>, an argument of every definition that uses it,
  and the contract of a component that asks one limiter before it lets an event pass: what such
  a component admits is bounded by what the limiter admits.
\<close>

section \<open>The library\<close>

text \<open>\<open>rate.NewLimiter(rate.Every(interval), burst)\<close> and \<open>AllowN(now, 1)\<close>.\<close>

record 'l limiter_lib =
  new_limiter :: "duration \<Rightarrow> nat \<Rightarrow> 'l"
  allow_one :: "'l \<Rightarrow> time \<Rightarrow> bool \<times> 'l"

fun admitted :: "'l limiter_lib \<Rightarrow> 'l \<Rightarrow> time list \<Rightarrow> nat" where
  "admitted lib l [] = 0"
| "admitted lib l (t # ts) =
     (case allow_one lib l t of (ok, l1) \<Rightarrow> (if ok then 1 else 0) + admitted lib l1 ts)"

fun asked :: "'l limiter_lib \<Rightarrow> 'l \<Rightarrow> time list \<Rightarrow> 'l" where
  "asked lib l [] = l"
| "asked lib l (t # ts) = asked lib (snd (allow_one lib l t)) ts"

text \<open>
  The documented behaviour of a token bucket: whatever it has been asked before, when it is asked at
  times in ascending order it admits at most \<open>burst\<close> events and one more for every interval between the
  first and the last of them.
\<close>

definition limiter_ok :: "'l limiter_lib \<Rightarrow> bool" where
  "limiter_ok lib \<longleftrightarrow>
     (\<forall>interval burst us ts. 0 < interval \<longrightarrow> ts \<noteq> [] \<longrightarrow> sorted (us @ ts) \<longrightarrow>
        admitted lib (asked lib (new_limiter lib interval burst) us) ts \<le> burst + nat ((last ts - hd ts) div interval))"

lemma asked_snoc: "asked lib l (us @ [t]) = snd (allow_one lib (asked lib l us) t)"
  by (induction us arbitrary: l) simp_all

text \<open>A limiter that has been asked before, last at \<open>t\<close> at the latest.\<close>

definition aged :: "'l limiter_lib \<Rightarrow> duration \<Rightarrow> nat \<Rightarrow> time \<Rightarrow> 'l \<Rightarrow> bool" where
  "aged lib interval burst t l \<longleftrightarrow>
     (\<exists>us. l = asked lib (new_limiter lib interval burst) us \<and> sorted us \<and> (\<forall>u\<in>set us. u \<le> t))"

lemma aged_new: "aged lib interval burst t (new_limiter lib interval burst)"
proof -
  have "new_limiter lib interval burst = asked lib (new_limiter lib interval burst) []" by simp
  then show ?thesis unfolding aged_def by (intro exI [of _ "[]"]) simp
qed

lemma aged_later: "aged lib interval burst t l \<Longrightarrow> t \<le> t' \<Longrightarrow> aged lib interval burst t' l"
  by (force simp: aged_def)

lemma aged_ask:
  assumes "aged lib interval burst t l" "t \<le> t'" "allow_one lib l t' = (ok, l')"
  shows "aged lib interval burst t' l'"
proof -
  from assms(1) obtain us where us: "l = asked lib (new_limiter lib interval burst) us" "sorted us" "\<forall>u\<in>set us. u \<le> t"
    by (auto simp: aged_def)
  have "l' = asked lib (new_limiter lib interval burst) (us @ [t'])" using us(1) assms(3) by (simp add: asked_snoc)
  moreover have "sorted (us @ [t'])" "\<forall>u\<in>set (us @ [t']). u \<le> t'"
    using us(2,3) assms(2) by (fastforce simp: sorted_append)+
  ultimately show ?thesis unfolding aged_def by blast
qed

lemma subseq_subset: "subseq ts us \<Longrightarrow> set ts \<subseteq> set us"
  by (auto dest: list_emb_set)

lemma subseq_sorted: "subseq ts us \<Longrightarrow> sorted us \<Longrightarrow> sorted (ts :: int list)"
proof (induction rule: list_emb.induct)
  case (list_emb_Cons2 x y xs ys)
  have "set xs \<subseteq> set ys" using list_emb_Cons2.hyps(2) by (rule subseq_subset)
  with list_emb_Cons2 show ?case by auto
qed simp_all

lemma sorted_bounds: "sorted us \<Longrightarrow> x \<in> set us \<Longrightarrow> (hd us :: int) \<le> x \<and> x \<le> last us"
  by (cases "us = []") (auto simp: sorted_iff_nth_mono in_set_conv_nth last_conv_nth hd_conv_nth)

text \<open>A subsequence of a sorted window stays within the window.\<close>

lemma subseq_window:
  assumes "subseq ts us" "sorted us" "ts \<noteq> []"
  shows "sorted ts \<and> (last ts - hd ts :: int) \<le> last us - hd us"
proof -
  have "last ts \<in> set us" "hd ts \<in> set us" using subseq_subset [OF assms(1)] assms(3) by auto
  with sorted_bounds [OF assms(2)] have "last ts \<le> last us" "hd us \<le> hd ts" by auto
  with subseq_sorted [OF assms(1,2)] show ?thesis by linarith
qed

lemma aged_window:
  assumes "limiter_ok lib" "0 < interval" "aged lib interval burst lo l" "sorted (lo # ts)"
  shows "admitted lib l ts \<le> burst + nat ((last (lo # ts) - lo) div interval)"
proof (cases "ts = []")
  case False
  from assms(3) obtain us where us: "l = asked lib (new_limiter lib interval burst) us" "sorted us" "\<forall>u\<in>set us. u \<le> lo"
    by (auto simp: aged_def)
  have "sorted (us @ ts)" using us(2,3) assms(4) by (fastforce simp: sorted_append)
  then have "admitted lib l ts \<le> burst + nat ((last ts - hd ts) div interval)"
    using assms(1,2) False us(1) by (auto simp: limiter_ok_def)
  moreover have "lo \<le> hd ts" using assms(4) False by (cases ts) auto
  then have "(last ts - hd ts) div interval \<le> (last ts - lo) div interval"
    using assms(2) by (intro zdiv_mono1) auto
  ultimately show ?thesis using False by simp
qed simp

section \<open>A component behind a limiter\<close>

text \<open>The state after a sequence of events, and the events that pass and that \<open>mine\<close> selects.\<close>

fun run_events :: "('e \<Rightarrow> 's \<Rightarrow> 's \<times> bool) \<Rightarrow> 'e list \<Rightarrow> 's \<Rightarrow> 's" where
  "run_events step [] s = s"
| "run_events step (e # es) s = run_events step es (fst (step e s))"

fun passed :: "('e \<Rightarrow> 's \<Rightarrow> 's \<times> bool) \<Rightarrow> ('e \<Rightarrow> 's \<Rightarrow> bool) \<Rightarrow> 'e list \<Rightarrow> 's \<Rightarrow> nat" where
  "passed step mine [] s = 0"
| "passed step mine (e # es) s =
     (case step e s of (s1, b) \<Rightarrow> (if b \<and> mine e s then 1 else 0) + passed step mine es s1)"

text \<open>
  \<open>lim s\<close> is the limiter that decides about the selected events in state \<open>s\<close>, and \<open>seen t s\<close> says that a
  limiter in the state is known to have been in use at \<open>t\<close> or later.  The law says that an event may
  first replace the limiter by a new one, provided that it has been out of use for \<open>idle\<close>, which is
  long enough for a new one to admit no more; then the limiter stays, and nothing selected passes,
  or it is asked once.
\<close>

locale behind_limiter =
  fixes lib :: "'l limiter_lib" and step :: "'e \<Rightarrow> 's \<Rightarrow> 's \<times> bool" and time_of :: "'e \<Rightarrow> time"
    and mine :: "'e \<Rightarrow> 's \<Rightarrow> bool" and lim :: "'s \<Rightarrow> 'l" and interval :: duration and burst :: nat
    and idle :: duration and inv :: "'s \<Rightarrow> bool" and seen :: "time \<Rightarrow> 's \<Rightarrow> bool"
  assumes interval_pos: "inv s \<Longrightarrow> 0 < interval"
    and refilled: "inv s \<Longrightarrow> int burst * interval \<le> idle"
    and step_law: "inv s \<Longrightarrow> seen t0 s \<Longrightarrow> t0 \<le> time_of e \<Longrightarrow> step e s = (s', b) \<Longrightarrow>
    inv s' \<and> (\<exists>l t1. (l = lim s \<and> t1 = t0 \<or> l = new_limiter lib interval burst \<and> t0 + idle \<le> time_of e \<and> t1 = time_of e)
      \<and> (lim s' = l \<and> seen t1 s' \<and> (mine e s \<longrightarrow> \<not> b)
        \<or> (\<exists>ok. allow_one lib l (time_of e) = (ok, lim s') \<and> seen (time_of e) s' \<and> (mine e s \<and> b \<longrightarrow> ok))))"
begin

abbreviation within :: "time \<Rightarrow> time \<Rightarrow> nat" where
  "within t u \<equiv> nat ((u - t) div interval)"

lemma within_add: "0 < interval \<Longrightarrow> t \<le> u \<Longrightarrow> u \<le> v \<Longrightarrow> within t u + within u v \<le> within t v"
proof -
  assume i: "0 < interval" and "t \<le> u" "u \<le> v"
  have "x div interval + y div interval \<le> (x + y) div interval" for x y :: int
  proof -
    have "x div interval * interval \<le> x" "y div interval * interval \<le> y"
      using i by (simp_all flip: minus_mod_eq_div_mult)
    then have "(x div interval + y div interval) * interval \<le> x + y" by (simp add: distrib_right)
    from zdiv_mono1 [OF this i] i show ?thesis by simp
  qed
  from this [of "u - t" "v - u"] have "(u - t) div interval + (v - u) div interval \<le> (v - t) div interval" by simp
  moreover have "0 \<le> (u - t) div interval" "0 \<le> (v - u) div interval"
    using i \<open>t \<le> u\<close> \<open>u \<le> v\<close> by (simp_all add: pos_imp_zdiv_nonneg_iff)
  ultimately show ?thesis by simp
qed

lemma idle_within:
  assumes "inv s" "t + idle \<le> u"
  shows "burst \<le> within t u"
proof -
  have "int burst = (int burst * interval) div interval" using interval_pos [OF assms(1)] by simp
  also have "\<dots> \<le> (u - t) div interval"
    using refilled [OF assms(1)] interval_pos [OF assms(1)] assms(2) by (intro zdiv_mono1) auto
  finally show ?thesis by linarith
qed

text \<open>What an old limiter admits before a replacement at \<open>r\<close> and the bound after it add up to one bound.\<close>

lemma replaced_bound:
  assumes "limiter_ok lib" "inv s" "aged lib interval burst lo l" "sorted (lo # us)" "subseq ts us"
    and "n \<le> admitted lib l ts \<or> (\<exists>r\<in>set us. (ts \<noteq> [] \<longrightarrow> last ts + idle \<le> r)
      \<and> n \<le> admitted lib l ts + burst + within r (last us))"
  shows "n \<le> burst + within lo (last (lo # us))"
proof -
  note i = interval_pos [OF assms(2)]
  have sub: "set ts \<subseteq> set us" using subseq_subset [OF assms(5)] .
  have lo: "lo \<le> u \<and> u \<le> last (lo # us)" if "u \<in> set us" for u
    using sorted_bounds [OF assms(4), of u] that by simp
  have "sorted ts" using subseq_sorted [OF assms(5)] assms(4) by simp
  then have ts: "sorted (lo # ts)" using sub lo by auto
  note a = aged_window [OF assms(1) i assms(3) ts]
  show ?thesis
  proof (cases "n \<le> admitted lib l ts")
    case True
    have "last (lo # ts) \<in> set (lo # us)" using subsetD [OF sub last_in_set] by (cases "ts = []") auto
    with sorted_bounds [OF assms(4)] have "last (lo # ts) \<le> last (lo # us)" by blast
    then have "within lo (last (lo # ts)) \<le> within lo (last (lo # us))"
      using i by (intro nat_mono zdiv_mono1) auto
    with True a show ?thesis by linarith
  next
    case False
    with assms(6) obtain r where r: "r \<in> set us" "ts \<noteq> [] \<longrightarrow> last ts + idle \<le> r"
      "n \<le> admitted lib l ts + burst + within r (last us)" by blast
    then have us: "last (lo # us) = last us" by auto
    show ?thesis
    proof (cases "ts = []")
      case True
      have "within r (last us) \<le> within lo (last us)" using lo [OF r(1)] i by (intro nat_mono zdiv_mono1) auto
      with True r(3) us show ?thesis by simp
    next
      case False
      let ?m = "last ts"
      have m: "lo \<le> ?m" "?m \<le> r" using ts False r(2) refilled [OF assms(2)] i sub lo
        by (auto simp: last_in_set) (smt (verit) mult_nonneg_nonneg of_nat_0_le_iff)
      have "burst \<le> within ?m r" using idle_within [OF assms(2)] r(2) False by blast
      moreover have "within lo ?m + within ?m r \<le> within lo r" using within_add [OF i m] .
      moreover have "within lo r + within r (last us) \<le> within lo (last us)"
        using within_add [OF i] lo [OF r(1)] us by simp
      ultimately show ?thesis using a False r(3) us by simp
    qed
  qed
qed

lemma passed_admitted:
  assumes "limiter_ok lib" "inv s" "seen t0 s" "sorted (t0 # map time_of es)"
  shows "\<exists>ts. subseq ts (map time_of es) \<and> (passed step mine es s \<le> admitted lib (lim s) ts
    \<or> (\<exists>r\<in>set (map time_of es). t0 + idle \<le> r \<and> (ts \<noteq> [] \<longrightarrow> last ts + idle \<le> r)
        \<and> passed step mine es s \<le> admitted lib (lim s) ts + burst + within r (last (map time_of es))))"
  using assms(2-4)
proof (induction es arbitrary: s t0)
  case Nil
  have "subseq [] (map time_of [])" by simp
  then show ?case by (metis passed.simps(1) le0)
next
  case (Cons e es)
  let ?t = "time_of e" and ?us = "map time_of es" and ?n = "passed step mine (e # es) s"
  have t0: "t0 \<le> ?t" and srt: "sorted (?t # ?us)" using Cons.prems(3) by auto
  obtain s1 b where st: "step e s = (s1, b)" by fastforce
  from step_law [OF Cons.prems(1,2) t0 st] obtain l t1 where inv1: "inv s1"
    and l: "l = lim s \<and> t1 = t0 \<or> l = new_limiter lib interval burst \<and> t0 + idle \<le> ?t \<and> t1 = ?t"
    and law: "lim s1 = l \<and> seen t1 s1 \<and> (mine e s \<longrightarrow> \<not> b)
        \<or> (\<exists>ok. allow_one lib l ?t = (ok, lim s1) \<and> seen ?t s1 \<and> (mine e s \<and> b \<longrightarrow> ok))" by blast
  have t1: "t1 \<le> ?t" "sorted (t1 # ?us)" using l t0 srt by auto
  have "\<exists>ts. subseq ts (?t # ?us) \<and> (?n \<le> admitted lib l ts
      \<or> (\<exists>r\<in>set ?us. t1 + idle \<le> r \<and> (ts \<noteq> [] \<longrightarrow> last ts + idle \<le> r)
          \<and> ?n \<le> admitted lib l ts + burst + within r (last ?us)))"
    using law
  proof (elim disjE exE conjE)
    assume "lim s1 = l" "seen t1 s1" "mine e s \<longrightarrow> \<not> b"
    moreover from Cons.IH [OF inv1 this(2) t1(2)] calculation(1) obtain ts where "subseq ts ?us"
      "passed step mine es s1 \<le> admitted lib l ts \<or> (\<exists>r\<in>set ?us. t1 + idle \<le> r \<and> (ts \<noteq> [] \<longrightarrow> last ts + idle \<le> r)
          \<and> passed step mine es s1 \<le> admitted lib l ts + burst + within r (last ?us))" by blast
    moreover from this(1) have "subseq ts (?t # ?us)" by (rule list_emb_Cons)
    ultimately show ?thesis using st by (intro exI [of _ ts]) auto
  next
    fix ok
    assume a: "allow_one lib l ?t = (ok, lim s1)" "seen ?t s1" "mine e s \<and> b \<longrightarrow> ok"
    from Cons.IH [OF inv1 a(2) srt] obtain ts where ts: "subseq ts ?us"
      "passed step mine es s1 \<le> admitted lib (lim s1) ts \<or> (\<exists>r\<in>set ?us. ?t + idle \<le> r \<and> (ts \<noteq> [] \<longrightarrow> last ts + idle \<le> r)
          \<and> passed step mine es s1 \<le> admitted lib (lim s1) ts + burst + within r (last ?us))" by blast
    have n: "?n + admitted lib (lim s1) ts \<le> passed step mine es s1 + admitted lib l (?t # ts)"
      using a(1,3) st by simp
    have "subseq (?t # ts) (?t # ?us)" using ts(1) by simp
    moreover from ts(2) have "?n \<le> admitted lib l (?t # ts) \<or> (\<exists>r\<in>set ?us. t1 + idle \<le> r \<and> last (?t # ts) + idle \<le> r
          \<and> ?n \<le> admitted lib l (?t # ts) + burst + within r (last ?us))"
    proof
      assume "passed step mine es s1 \<le> admitted lib (lim s1) ts"
      then show ?thesis using n by linarith
    next
      assume "\<exists>r\<in>set ?us. ?t + idle \<le> r \<and> (ts \<noteq> [] \<longrightarrow> last ts + idle \<le> r)
          \<and> passed step mine es s1 \<le> admitted lib (lim s1) ts + burst + within r (last ?us)"
      then obtain r where r: "r \<in> set ?us" "?t + idle \<le> r" "ts \<noteq> [] \<longrightarrow> last ts + idle \<le> r"
        "passed step mine es s1 \<le> admitted lib (lim s1) ts + burst + within r (last ?us)" by blast
      from n r(4) have "?n \<le> admitted lib l (?t # ts) + burst + within r (last ?us)" by linarith
      moreover have "t1 + idle \<le> r" "last (?t # ts) + idle \<le> r" using r(2,3) t1(1) by auto
      ultimately show ?thesis using r(1) by blast
    qed
    ultimately show ?thesis by blast
  qed
  then obtain ts where ts: "subseq ts (?t # ?us)" "?n \<le> admitted lib l ts
      \<or> (\<exists>r\<in>set ?us. t1 + idle \<le> r \<and> (ts \<noteq> [] \<longrightarrow> last ts + idle \<le> r)
          \<and> ?n \<le> admitted lib l ts + burst + within r (last ?us))" by blast
  show ?case
  proof (cases "l = lim s \<and> t1 = t0")
    case True
    with ts show ?thesis by (intro exI [of _ ts]) auto
  next
    case False
    with l have new: "l = new_limiter lib interval burst" "t0 + idle \<le> ?t" by auto
    have "?n \<le> burst + within ?t (last (?t # ?t # ?us))"
      by (rule replaced_bound [OF assms(1) Cons.prems(1) _ _ ts(1), of _ l]) (use ts(2) srt new(1) aged_new in auto)
    then show ?thesis using new(2) by (intro exI [of _ "[]"]) auto
  qed
qed

lemma after_aged:
  assumes "inv s" "seen t0 s" "t0 \<le> lo" "aged lib interval burst lo (lim s)" "sorted (lo # map time_of es)"
  shows "\<exists>t1\<le>last (lo # map time_of es). inv (run_events step es s) \<and> seen t1 (run_events step es s)
    \<and> aged lib interval burst (last (lo # map time_of es)) (lim (run_events step es s))"
  using assms
proof (induction es arbitrary: s t0 lo)
  case Nil
  then show ?case by auto
next
  case (Cons e es)
  let ?t = "time_of e"
  obtain s1 b where st: "step e s = (s1, b)" by fastforce
  have t: "lo \<le> ?t" "t0 \<le> ?t" "sorted (?t # map time_of es)" using Cons.prems(3,5) by auto
  from step_law [OF Cons.prems(1,2) t(2) st] obtain l t1 where inv1: "inv s1"
    and l: "l = lim s \<and> t1 = t0 \<or> l = new_limiter lib interval burst \<and> t0 + idle \<le> ?t \<and> t1 = ?t"
    and law: "lim s1 = l \<and> seen t1 s1 \<and> (mine e s \<longrightarrow> \<not> b)
        \<or> (\<exists>ok. allow_one lib l ?t = (ok, lim s1) \<and> seen ?t s1 \<and> (mine e s \<and> b \<longrightarrow> ok))" by blast
  have old: "aged lib interval burst ?t l"
    using l aged_later [OF Cons.prems(4) t(1)] aged_new by metis
  from law have "\<exists>t2\<le>?t. seen t2 s1 \<and> aged lib interval burst ?t (lim s1)"
  proof (elim disjE exE conjE)
    assume "lim s1 = l" "seen t1 s1"
    then show ?thesis using old l t(2) by auto
  next
    fix ok
    assume "allow_one lib l ?t = (ok, lim s1)" "seen ?t s1"
    then show ?thesis using aged_ask [OF old order_refl] by blast
  qed
  then obtain t2 where "t2 \<le> ?t" "seen t2 s1" "aged lib interval burst ?t (lim s1)" by blast
  from Cons.IH [OF inv1 this(2,1,3) t(3)] st show ?case by simp
qed

text \<open>The bound holds in every window of every history that starts with a new limiter.\<close>

lemma passed_bound:
  assumes "limiter_ok lib" "inv s" "lim s = new_limiter lib interval burst" "\<And>t. seen t s"
    and "sorted (map time_of (past @ es))" "es \<noteq> []"
  shows "passed step mine es (run_events step past s) \<le> burst + nat ((time_of (last es) - time_of (hd es)) div interval)"
proof -
  let ?lo = "hd (map time_of (past @ es))" and ?us = "map time_of es" and ?s = "run_events step past s"
  have "sorted (?lo # map time_of past)"
    using assms(5,6) by (cases past) (auto simp: sorted_append)
  from after_aged [OF assms(2,4) order_refl _ this] assms(3) obtain t1 where
    t1: "t1 \<le> last (?lo # map time_of past)" and inv1: "inv ?s" and seen1: "seen t1 ?s"
    and aged1: "aged lib interval burst (last (?lo # map time_of past)) (lim ?s)"
    using aged_new by metis
  have hd: "last (?lo # map time_of past) \<le> hd ?us"
    using assms(5,6) by (cases past; cases es) (auto simp: sorted_append last_map)
  have srt: "sorted ?us" using assms(5) by (simp add: sorted_append)
  have us: "sorted (hd ?us # ?us)" "sorted (t1 # ?us)"
    using srt assms(6) t1 hd by (cases es; force)+
  from passed_admitted [OF assms(1) inv1 seen1 us(2)] obtain ts where "subseq ts ?us"
    "passed step mine es ?s \<le> admitted lib (lim ?s) ts \<or> (\<exists>r\<in>set ?us. (ts \<noteq> [] \<longrightarrow> last ts + idle \<le> r)
        \<and> passed step mine es ?s \<le> admitted lib (lim ?s) ts + burst + within r (last ?us))" by blast
  from replaced_bound [OF assms(1) inv1 aged_later [OF aged1 hd] us(1) this] assms(6) show ?thesis
    by (simp add: hd_map last_map)
qed

end

end
