(* ===== verification/Abuse.thy ===== *)
theory Abuse
  imports NetAddr RateLimit
begin

text \<open>
  Package \<open>internal/abuse\<close> (\<open>control.go\<close>): the client identity behind trusted proxies, the
  bounded table of per-client rate limiters with its idle sweep, the global limiter, and the
  upload and download slots.
\<close>

section \<open>Client identity\<close>

definition parsePeer :: "string \<Rightarrow> addr option" where
  "parsePeer value =
     (let host = (case SplitHostPort value of None \<Rightarrow> value | Some (h, p) \<Rightarrow> h)
      in map_option unmap (ParseAddr host))"

definition isTrusted :: "addr \<Rightarrow> prefix list \<Rightarrow> bool" where
  "isTrusted address trusted = (\<exists>p\<in>set trusted. Contains p address)"

text \<open>The chain of \<open>X-Forwarded-For\<close>: every entry must parse.\<close>

fun forwarded_chain :: "string list \<Rightarrow> addr list option" where
  "forwarded_chain [] = Some []"
| "forwarded_chain (part # parts) =
     (case ParseAddr (trim_space part) of
        None \<Rightarrow> None
      | Some a \<Rightarrow> (case forwarded_chain parts of None \<Rightarrow> None | Some as \<Rightarrow> Some (unmap a # as)))"

definition ClientIP :: "string \<Rightarrow> string \<Rightarrow> prefix list \<Rightarrow> addr" where
  "ClientIP remoteAddr xff trusted =
     (case parsePeer remoteAddr of
        None \<Rightarrow> NoAddr
      | Some peer \<Rightarrow>
          if \<not> isTrusted peer trusted then peer
          else (case forwarded_chain (split_on (CHR '','') xff) of
                  None \<Rightarrow> peer
                | Some chain \<Rightarrow>
                    (case find (\<lambda>a. \<not> isTrusted a trusted) (rev chain) of
                       None \<Rightarrow> peer
                     | Some a \<Rightarrow> a)))"

definition RateKey :: "addr \<Rightarrow> string" where
  "RateKey address =
     (case unmap address of
        NoAddr \<Rightarrow> ''invalid''
      | V4 w \<Rightarrow> addr_string (V4 w)
      | V6 w z \<Rightarrow> prefix_string (Masked \<lparr>px_addr = V6 w z, px_bits = 64\<rparr>))"

section \<open>The controller\<close>

definition CreateKind :: nat where "CreateKind = 0"
definition MutationKind :: nat where "MutationKind = 1"
definition ReadKind :: nat where "ReadKind = 2"

definition ClientIdleTTL :: duration where "ClientIdleTTL = 10 * minute"
definition MaxClients :: nat where "MaxClients = 16384"
definition UploadLimit :: nat where "UploadLimit = 4"
definition DownloadLimit :: nat where "DownloadLimit = 32"
definition SweepInterval :: duration where "SweepInterval = minute"

record 'l client =
  cl_key :: string
  cl_last :: time
  cl_limiters :: "'l list"

record 'l control =
  ct_trusted :: "prefix list"
  ct_max :: nat
  ct_clients :: "'l client list"
  ct_global :: 'l
  ct_uploads :: nat
  ct_downloads :: nat
  ct_disabled :: bool
  ct_lastSweep :: time

definition NewControl :: "'l limiter_lib \<Rightarrow> prefix list \<Rightarrow> nat \<Rightarrow> bool \<Rightarrow> 'l control" where
  "NewControl lib trusted maximum disabled =
     \<lparr>ct_trusted = trusted, ct_max = (if maximum = 0 then MaxClients else maximum), ct_clients = [],
      ct_global = new_limiter lib (minute div 1000) 200, ct_uploads = 0, ct_downloads = 0,
      ct_disabled = disabled, ct_lastSweep = zero_time\<rparr>"

definition new_client :: "'l limiter_lib \<Rightarrow> string \<Rightarrow> time \<Rightarrow> 'l client" where
  "new_client lib key now =
     \<lparr>cl_key = key, cl_last = now,
      cl_limiters = [new_limiter lib (minute div 10) 5, new_limiter lib (minute div 30) 10,
                     new_limiter lib (minute div 120) 60]\<rparr>"

definition sweep_clients :: "time \<Rightarrow> 'l control \<Rightarrow> 'l control" where
  "sweep_clients now c =
     c\<lparr>ct_clients := filter (\<lambda>v. \<not> time_sub now (cl_last v) \<ge> ClientIdleTTL) (ct_clients c),
       ct_lastSweep := now\<rparr>"

text \<open>The table after the entry for \<open>key\<close> has been found or made, or \<open>None\<close> when it is full.\<close>

definition admit_client :: "'l limiter_lib \<Rightarrow> string \<Rightarrow> time \<Rightarrow> 'l control \<Rightarrow> 'l control \<times> bool" where
  "admit_client lib key now c =
     (if row_of cl_key key (ct_clients c) \<noteq> None then (c, True)
      else
        (let c1 = (if length (ct_clients c) \<ge> ct_max c then sweep_clients now c else c)
         in if length (ct_clients c) \<ge> ct_max c \<and> length (ct_clients c1) \<ge> ct_max c1 then (c1, False)
            else (c1\<lparr>ct_clients := ct_clients c1 @ [new_client lib key now]\<rparr>, True)))"

definition Allow :: "'l limiter_lib \<Rightarrow> time \<Rightarrow> string \<Rightarrow> string \<Rightarrow> nat \<Rightarrow> 'l control \<Rightarrow> 'l control \<times> bool" where
  "Allow lib now remoteAddr xff kind c =
     (if ct_disabled c then (c, True)
      else
        (let key = RateKey (ClientIP remoteAddr xff (ct_trusted c));
             c1 = (if time_sub now (ct_lastSweep c) \<ge> SweepInterval then sweep_clients now c else c)
         in case admit_client lib key now c1 of
              (c2, False) \<Rightarrow> (c2, False)
            | (c2, True) \<Rightarrow>
                (let c3 = c2\<lparr>ct_clients := update_rows cl_key key (\<lambda>v. v\<lparr>cl_last := now\<rparr>) (ct_clients c2)\<rparr>
                 in case allow_one lib (ct_global c3) now of
                      (False, g) \<Rightarrow> (c3\<lparr>ct_global := g\<rparr>, False)
                    | (True, g) \<Rightarrow>
                        (case row_of cl_key key (ct_clients c3) of
                           None \<Rightarrow> (c3\<lparr>ct_global := g\<rparr>, False)
                         | Some v \<Rightarrow>
                             (case allow_one lib (cl_limiters v ! kind) now of
                                (ok, l) \<Rightarrow>
                                  (c3\<lparr>ct_global := g,
                                      ct_clients := update_rows cl_key key
                                        (\<lambda>v. v\<lparr>cl_limiters := (cl_limiters v)[kind := l]\<rparr>) (ct_clients c3)\<rparr>,
                                   ok))))))"

section \<open>Upload and download slots\<close>

definition TryUpload :: "'l control \<Rightarrow> 'l control \<times> bool" where
  "TryUpload c =
     (if ct_disabled c then (c, True)
      else if ct_uploads c < UploadLimit then (c\<lparr>ct_uploads := ct_uploads c + 1\<rparr>, True)
      else (c, False))"

text \<open>A receive from an empty channel blocks: \<open>None\<close>.\<close>

definition ReleaseUpload :: "'l control \<Rightarrow> 'l control option" where
  "ReleaseUpload c =
     (if ct_disabled c then Some c
      else if ct_uploads c = 0 then None
      else Some (c\<lparr>ct_uploads := ct_uploads c - 1\<rparr>))"

definition TryDownload :: "'l control \<Rightarrow> 'l control \<times> bool" where
  "TryDownload c =
     (if ct_disabled c then (c, True)
      else if ct_downloads c < DownloadLimit then (c\<lparr>ct_downloads := ct_downloads c + 1\<rparr>, True)
      else (c, False))"

definition ReleaseDownload :: "'l control \<Rightarrow> 'l control option" where
  "ReleaseDownload c =
     (if ct_disabled c then Some c
      else if ct_downloads c = 0 then None
      else Some (c\<lparr>ct_downloads := ct_downloads c - 1\<rparr>))"

section \<open>Client identity: laws\<close>

lemma forwarded_chain_those:
  "forwarded_chain parts = those (map (\<lambda>p. map_option unmap (ParseAddr (trim_space p))) parts)"
  by (induction parts) (simp_all split: option.splits)

lemma find_rev_last:
  assumes "\<not> P c \<Longrightarrow> False" "\<forall>a\<in>set post. \<not> P a"
  shows "find P (rev (pre @ c # post)) = Some c"
  using assms by (induction post rule: rev_induct) auto

lemma ClientIP_untrusted_peer:
  "parsePeer remote = Some peer \<Longrightarrow> \<not> isTrusted peer trusted \<Longrightarrow> ClientIP remote xff trusted = peer"
  by (simp add: ClientIP_def)

lemma ClientIP_chain:
  assumes "parsePeer remote = Some peer" "isTrusted peer trusted"
    and "forwarded_chain (split_on (CHR '','') xff) = Some (pre @ c # post)"
    and "\<not> isTrusted c trusted" "\<forall>a\<in>set post. isTrusted a trusted"
  shows "ClientIP remote xff trusted = c"
  using assms find_rev_last [of "\<lambda>a. \<not> isTrusted a trusted" c post pre] by (simp add: ClientIP_def)

lemma ClientIP_no_hop:
  assumes "parsePeer remote = Some peer" "isTrusted peer trusted"
    and "\<forall>chain. forwarded_chain (split_on (CHR '','') xff) = Some chain \<longrightarrow> (\<forall>a\<in>set chain. isTrusted a trusted)"
  shows "ClientIP remote xff trusted = peer"
proof (cases "forwarded_chain (split_on (CHR '','') xff)")
  case (Some chain)
  with assms(3) have "find (\<lambda>a. \<not> isTrusted a trusted) (rev chain) = None" by (simp add: find_None_iff)
  with Some assms(1,2) show ?thesis by (simp add: ClientIP_def)
qed (use assms in \<open>simp add: ClientIP_def\<close>)

lemma forwarded_chain_append:
  "forwarded_chain (xs @ ys) =
     (case forwarded_chain xs of None \<Rightarrow> None | Some a \<Rightarrow> map_option ((@) a) (forwarded_chain ys))"
  by (cases "forwarded_chain ys"; induction xs) (auto split: option.splits)

text \<open>Whatever a client writes in front of what its proxies append.\<close>

lemma ClientIP_front:
  assumes "parsePeer remote = Some peer" "isTrusted peer trusted"
    and "forwarded_chain (split_on (CHR '','') hops) = Some (hop # post)"
    and "\<not> isTrusted hop trusted" "\<forall>a\<in>set post. isTrusted a trusted"
  shows "ClientIP remote (front @ CHR '','' # hops) trusted =
    (if forwarded_chain (split_on (CHR '','') front) = None then peer else hop)"
proof (cases "forwarded_chain (split_on (CHR '','') front)")
  case None
  with assms(1,2) show ?thesis by (intro trans [OF ClientIP_no_hop]) (simp_all add: split_on_append forwarded_chain_append)
next
  case (Some pre)
  with assms(3) have "forwarded_chain (split_on (CHR '','') (front @ CHR '','' # hops)) = Some (pre @ hop # post)"
    by (simp add: split_on_append forwarded_chain_append)
  from ClientIP_chain [OF assms(1,2) this assms(4,5)] Some show ?thesis by simp
qed

section \<open>The controller: invariant\<close>

definition control_ok :: "'l control \<Rightarrow> bool" where
  "control_ok c \<longleftrightarrow>
     length (ct_clients c) \<le> ct_max c \<and> distinct (map cl_key (ct_clients c)) \<and> 0 < ct_max c
     \<and> (\<forall>v\<in>set (ct_clients c). length (cl_limiters v) = 3)
     \<and> ct_uploads c \<le> UploadLimit \<and> ct_downloads c \<le> DownloadLimit"

lemma control_ok_New: "control_ok (NewControl lib trusted maximum disabled)"
  by (simp add: control_ok_def NewControl_def MaxClients_def)

lemma control_ok_sweep:
  assumes "control_ok c"
  shows "control_ok (sweep_clients now c)"
  using assms by (simp add: control_ok_def sweep_clients_def distinct_map_filter length_filter_bound)

lemma control_ok_update:
  assumes "control_ok c" and "\<And>v. cl_key (f v) = cl_key v" and "\<And>v. length (cl_limiters (f v)) = length (cl_limiters v)"
  shows "control_ok (c\<lparr>ct_clients := update_rows cl_key key f (ct_clients c)\<rparr>)"
proof -
  have "map cl_key (update_rows cl_key key f (ct_clients c)) = map cl_key (ct_clients c)"
    using assms(2) by (rule map_key_update)
  moreover have "length (update_rows cl_key key f (ct_clients c)) = length (ct_clients c)"
    by (simp add: update_rows_def)
  moreover have "\<forall>v\<in>set (update_rows cl_key key f (ct_clients c)). length (cl_limiters v) = 3"
    using assms(1,3) by (auto simp: update_rows_def control_ok_def)
  ultimately show ?thesis using assms(1) by (simp add: control_ok_def)
qed

lemma admit_client_ok:
  assumes ok: "control_ok c" and "admit_client lib key now c = (c', b)"
  shows "control_ok c' \<and> (b \<longrightarrow> row_of cl_key key (ct_clients c') \<noteq> None)"
proof -
  let ?c1 = "if length (ct_clients c) \<ge> ct_max c then sweep_clients now c else c"
  have ok1: "control_ok ?c1" using ok control_ok_sweep [OF ok, of now] by simp
  have room: "length (ct_clients ?c1) < ct_max ?c1"
    if "\<not> (length (ct_clients c) \<ge> ct_max c \<and> length (ct_clients ?c1) \<ge> ct_max ?c1)"
    using that by (auto split: if_splits)
  have sub: "set (ct_clients ?c1) \<subseteq> set (ct_clients c)" by (auto simp: sweep_clients_def)
  show ?thesis
  proof (cases "row_of cl_key key (ct_clients c) = None")
    case False
    with assms show ?thesis by (auto simp: admit_client_def)
  next
    case True
    then have new: "key \<notin> cl_key ` set (ct_clients ?c1)"
      using sub by (auto simp: row_of_None_iff keys_of_def)
    show ?thesis
    proof (cases "length (ct_clients c) \<ge> ct_max c \<and> length (ct_clients ?c1) \<ge> ct_max ?c1")
      case full: True
      with True assms ok1 show ?thesis by (auto simp: admit_client_def Let_def)
    next
      case False
      then have c': "c' = ?c1\<lparr>ct_clients := ct_clients ?c1 @ [new_client lib key now]\<rparr>"
        using True assms(2) unfolding admit_client_def Let_def by auto
      have "control_ok c'"
        unfolding c' using ok1 room [OF False] new by (auto simp: control_ok_def new_client_def)
      then show ?thesis by (simp add: c' row_of_append row_of_Cons new_client_def split: option.split)
    qed
  qed
qed


lemma Allow_cases:
  assumes "Allow lib now remote xff kind c = (c', b)" and "\<not> ct_disabled c"
  defines "key \<equiv> RateKey (ClientIP remote xff (ct_trusted c))"
    and "c1 \<equiv> (if time_sub now (ct_lastSweep c) \<ge> SweepInterval then sweep_clients now c else c)"
  obtains (full) "admit_client lib key now c1 = (c', False)" "\<not> b"
  | (limited) c2 g where "admit_client lib key now c1 = (c2, True)" "\<not> b"
      "allow_one lib (ct_global c2) now = (False, g)"
      "c' = c2\<lparr>ct_clients := update_rows cl_key key (\<lambda>v. v\<lparr>cl_last := now\<rparr>) (ct_clients c2), ct_global := g\<rparr>"
  | (asked) c2 g v l where "admit_client lib key now c1 = (c2, True)"
      "allow_one lib (ct_global c2) now = (True, g)" "row_of cl_key key (ct_clients c2) = Some v"
      "allow_one lib (cl_limiters v ! kind) now = (b, l)"
      "c' = c2\<lparr>ct_global := g, ct_clients := update_rows cl_key key (\<lambda>v. v\<lparr>cl_limiters := (cl_limiters v)[kind := l]\<rparr>)
             (update_rows cl_key key (\<lambda>v. v\<lparr>cl_last := now\<rparr>) (ct_clients c2))\<rparr>"
  | (lost) c2 where "admit_client lib key now c1 = (c2, True)" "row_of cl_key key (ct_clients c2) = None"
proof -
  obtain c2 a where ad: "admit_client lib key now c1 = (c2, a)" by fastforce
  have upd: "row_of cl_key key (update_rows cl_key key (\<lambda>v. v\<lparr>cl_last := now\<rparr>) (ct_clients c2)) =
      map_option (\<lambda>v. v\<lparr>cl_last := now\<rparr>) (row_of cl_key key (ct_clients c2))"
    by (simp add: row_of_update)
  show thesis
  proof (cases a)
    case False
    with assms(1,2) ad show thesis by (intro full) (auto simp: Allow_def key_def c1_def Let_def)
  next
    case True
    note ad = ad [unfolded True [THEN eqTrueI]]
    obtain ok g where gl: "allow_one lib (ct_global c2) now = (ok, g)" by fastforce
    show thesis
    proof (cases "\<not> ok \<or> row_of cl_key key (ct_clients c2) = None")
      case t: True
      show thesis
      proof (cases ok)
        case True
        with t show thesis using lost [OF ad] by simp
      next
        case False
        with assms(1,2) ad gl show thesis
          by (intro limited [OF ad]) (auto simp: Allow_def key_def c1_def Let_def)
      qed
    next
      case False
      then obtain v where v: "row_of cl_key key (ct_clients c2) = Some v" by auto
      obtain b2 l where l: "allow_one lib (cl_limiters v ! kind) now = (b2, l)" by fastforce
      with assms(1,2) ad gl v False upd show thesis
        by (intro asked [OF ad _ v]) (auto simp: Allow_def key_def [symmetric] c1_def [symmetric] Let_def)
    qed
  qed
qed

lemma control_ok_Allow [preserves]:
  assumes ok: "control_ok c"
  shows "control_ok (fst (Allow lib now remote xff kind c))"
proof (cases "ct_disabled c")
  case True
  with ok show ?thesis by (simp add: Allow_def)
next
  case False
  obtain c' b where a: "Allow lib now remote xff kind c = (c', b)" by fastforce
  let ?c1 = "if time_sub now (ct_lastSweep c) \<ge> SweepInterval then sweep_clients now c else c"
  have ok1: "control_ok ?c1" using ok control_ok_sweep [OF ok, of now] by simp
  have glob: "control_ok (x\<lparr>ct_global := g\<rparr>) = control_ok x" for x :: "'a control" and g
    by (simp add: control_ok_def)
  have "control_ok c'"
    using a False
  proof (cases rule: Allow_cases)
    case full
    with admit_client_ok [OF ok1] show ?thesis by blast
  next
    case (limited c2 g)
    have "control_ok (c2\<lparr>ct_clients := update_rows cl_key (RateKey (ClientIP remote xff (ct_trusted c)))
        (\<lambda>v. v\<lparr>cl_last := now\<rparr>) (ct_clients c2)\<rparr>)"
      using admit_client_ok [OF ok1 limited(1)] by (intro control_ok_update) simp_all
    then show ?thesis using limited(4) glob by simp
  next
    case (asked c2 g v l)
    let ?key = "RateKey (ClientIP remote xff (ct_trusted c))"
    let ?c3 = "c2\<lparr>ct_clients := update_rows cl_key ?key (\<lambda>v. v\<lparr>cl_last := now\<rparr>) (ct_clients c2)\<rparr>"
    have "control_ok ?c3"
      using admit_client_ok [OF ok1 asked(1)] by (intro control_ok_update) simp_all
    then have "control_ok (?c3\<lparr>ct_clients := update_rows cl_key ?key
        (\<lambda>v. v\<lparr>cl_limiters := (cl_limiters v)[kind := l]\<rparr>) (ct_clients ?c3)\<rparr>)"
      by (rule control_ok_update) simp_all
    then show ?thesis using asked(5) glob by (simp add: control_ok_def)
  next
    case (lost c2)
    with admit_client_ok [OF ok1 lost(1)] show ?thesis by simp
  qed
  with a show ?thesis by simp
qed

lemma control_ok_slots [preserves]:
  "control_ok c \<Longrightarrow> control_ok (fst (TryUpload c))"
  "control_ok c \<Longrightarrow> control_ok (fst (TryDownload c))"
  "control_ok c \<Longrightarrow> ReleaseUpload c = Some c' \<Longrightarrow> control_ok c'"
  "control_ok c \<Longrightarrow> ReleaseDownload c = Some c' \<Longrightarrow> control_ok c'"
  by (auto simp: control_ok_def TryUpload_def TryDownload_def ReleaseUpload_def ReleaseDownload_def split: if_splits)

end
