(* ===== verification/AbuseBounds.thy ===== *)
theory AbuseBounds
  imports Abuse
begin

text \<open>
  What the controller of \<open>internal/abuse\<close> admits over a sequence of requests: the bound of the
  global limiter over all clients, and the bound of each client's own limiter, which no idle
  sweep resets while the client is active.
\<close>

record request =
  rq_time :: time
  rq_remote :: string
  rq_xff :: string
  rq_kind :: nat

definition request_step :: "'l limiter_lib \<Rightarrow> request \<Rightarrow> 'l control \<Rightarrow> 'l control \<times> bool" where
  "request_step lib r c = Allow lib (rq_time r) (rq_remote r) (rq_xff r) (rq_kind r) c"

text \<open>The requests attributed to one key and of one kind.\<close>

definition attributed :: "string \<Rightarrow> nat \<Rightarrow> request \<Rightarrow> 'l control \<Rightarrow> bool" where
  "attributed k kind r c \<longleftrightarrow>
     RateKey (ClientIP (rq_remote r) (rq_xff r) (ct_trusted c)) = k \<and> rq_kind r = kind"

section \<open>The global limiter\<close>

lemma sweep_fields [simp]:
  "ct_global (sweep_clients now c) = ct_global c" "ct_disabled (sweep_clients now c) = ct_disabled c"
  "ct_trusted (sweep_clients now c) = ct_trusted c" "ct_max (sweep_clients now c) = ct_max c"
  by (simp_all add: sweep_clients_def)

lemma admit_client_fields:
  "admit_client lib key now c = (c', b) \<Longrightarrow>
     ct_global c' = ct_global c \<and> ct_disabled c' = ct_disabled c \<and> ct_trusted c' = ct_trusted c"
  by (auto simp: admit_client_def Let_def split: if_splits)

lemma Allow_global:
  assumes "Allow lib now remote xff kind c = (c', b)" "\<not> ct_disabled c" "control_ok c"
  shows "\<not> ct_disabled c' \<and> ct_trusted c' = ct_trusted c \<and>
    (ct_global c' = ct_global c \<and> \<not> b
     \<or> (\<exists>ok. allow_one lib (ct_global c) now = (ok, ct_global c') \<and> (b \<longrightarrow> ok)))"
proof -
  let ?c1 = "if time_sub now (ct_lastSweep c) \<ge> SweepInterval then sweep_clients now c else c"
  have f1: "ct_global ?c1 = ct_global c" "ct_disabled ?c1 = ct_disabled c" "ct_trusted ?c1 = ct_trusted c"
    by simp_all
  have ok1: "control_ok ?c1" using control_ok_sweep [OF assms(3), of now] assms(3) by simp
  from assms(1,2) show ?thesis
  proof (cases rule: Allow_cases)
    case full
    with admit_client_fields [OF full(1)] f1 assms(2) show ?thesis by simp
  next
    case (limited c2 g)
    with admit_client_fields [OF limited(1)] f1 assms(2) show ?thesis by auto
  next
    case (asked c2 g v l)
    with admit_client_fields [OF asked(1)] f1 assms(2) show ?thesis by auto
  next
    case (lost c2)
    with admit_client_ok [OF ok1 lost(1)] show ?thesis by simp
  qed
qed

interpretation global: behind_limiter lib "request_step lib" rq_time "\<lambda>r c. True" ct_global "minute div 1000" 200
    "200 * (minute div 1000)" "\<lambda>c. \<not> ct_disabled c \<and> control_ok c" "\<lambda>t c. True" for lib
proof (unfold_locales, goal_cases)
  case (3 s t0 e s' b)
  then have a: "Allow lib (rq_time e) (rq_remote e) (rq_xff e) (rq_kind e) s = (s', b)"
    by (simp add: request_step_def)
  have "control_ok s'"
    using control_ok_Allow [of s lib "rq_time e" "rq_remote e" "rq_xff e" "rq_kind e"] a 3(1) by simp
  with Allow_global [OF a] 3(1) show ?case by blast
qed (simp_all add: minute_def second_def)

section \<open>The limiter of one client\<close>

text \<open>Interval and burst of the three limiters of a client.\<close>

definition rate_of :: "nat \<Rightarrow> duration \<times> nat" where
  "rate_of kind =
     (if kind = CreateKind then (minute div 10, 5) else if kind = MutationKind then (minute div 30, 10)
      else (minute div 120, 60))"

text \<open>The limiter that decides about a client's requests of a kind: its own, or the new one it
  will get.\<close>

definition client_limiter :: "'l limiter_lib \<Rightarrow> string \<Rightarrow> nat \<Rightarrow> 'l control \<Rightarrow> 'l" where
  "client_limiter lib k kind c =
     (case row_of cl_key k (ct_clients c) of
        None \<Rightarrow> (case rate_of kind of (i, b) \<Rightarrow> new_limiter lib i b)
      | Some v \<Rightarrow> cl_limiters v ! kind)"

definition active_since :: "time \<Rightarrow> string \<Rightarrow> 'l control \<Rightarrow> bool" where
  "active_since t0 k c \<longleftrightarrow> (\<forall>v. row_of cl_key k (ct_clients c) = Some v \<longrightarrow> t0 \<le> cl_last v)"

lemma long_idle: "time_sub now seen \<ge> ClientIdleTTL \<Longrightarrow> seen + ClientIdleTTL \<le> now"
  by (auto simp: time_sub_def ClientIdleTTL_def minute_def second_def)

text \<open>A sweep keeps the entry of a client, or the client has been idle.\<close>

lemma sweep_row:
  assumes "active_since t0 k c" "control_ok c"
  shows "row_of cl_key k (ct_clients (sweep_clients now c)) = row_of cl_key k (ct_clients c)
    \<or> row_of cl_key k (ct_clients (sweep_clients now c)) = None \<and> t0 + ClientIdleTTL \<le> now"
proof (cases "row_of cl_key k (ct_clients c)")
  case None
  then show ?thesis by (simp add: sweep_clients_def row_of_filter_None)
next
  case (Some v)
  show ?thesis
  proof (cases "time_sub now (cl_last v) \<ge> ClientIdleTTL")
    case True
    with assms(1) Some long_idle have "t0 + ClientIdleTTL \<le> now" by (fastforce simp: active_since_def)
    moreover have "distinct (map cl_key (ct_clients c))" using assms(2) by (simp add: control_ok_def)
    then have "row_of cl_key k (ct_clients (sweep_clients now c)) \<noteq> Some w" for w
      using Some True by (auto simp: sweep_clients_def row_of_filter_Some_iff)
    ultimately show ?thesis by (metis not_None_eq)
  next
    case False
    with Some show ?thesis by (simp add: sweep_clients_def row_of_filter_Some)
  qed
qed

lemma active_gone: "row_of cl_key k (ct_clients c) = None \<Longrightarrow> active_since t0 k c"
  by (simp add: active_since_def)

text \<open>The entry of a client when its key is looked up: the old one, one that has been removed, or a new one.\<close>

lemma admit_row:
  assumes "admit_client lib key now c = (c', b)" "active_since t0 k c" "control_ok c"
  obtains (same) "row_of cl_key k (ct_clients c') = row_of cl_key k (ct_clients c)"
  | (removed) "row_of cl_key k (ct_clients c') = None" "t0 + ClientIdleTTL \<le> now"
  | (made) "row_of cl_key k (ct_clients c') = Some (new_client lib key now)" "key = k" "row_of cl_key k (ct_clients c) = None"
proof -
  let ?c1 = "if length (ct_clients c) \<ge> ct_max c then sweep_clients now c else c"
  have c': "c' = c \<or> row_of cl_key key (ct_clients c) = None
      \<and> (c' = ?c1 \<or> c' = ?c1\<lparr>ct_clients := ct_clients ?c1 @ [new_client lib key now]\<rparr>)"
    using assms(1) by (auto simp: admit_client_def Let_def split: if_splits)
  have c1: "row_of cl_key k (ct_clients ?c1) = row_of cl_key k (ct_clients c)
      \<or> row_of cl_key k (ct_clients ?c1) = None \<and> t0 + ClientIdleTTL \<le> now"
    using sweep_row [OF assms(2,3), of now] by simp
  have "row_of cl_key k (ct_clients ?c1 @ [new_client lib key now])
      = (if row_of cl_key k (ct_clients ?c1) = None \<and> key = k then Some (new_client lib key now) else row_of cl_key k (ct_clients ?c1))"
    by (auto simp: row_of_append row_of_Cons new_client_def split: option.split)
  with c' c1 same removed made show thesis by (elim disjE conjE) (force split: if_splits)+
qed

lemma new_client_limiter: "kind < 3 \<Longrightarrow> cl_limiters (new_client lib key now) ! kind =
    new_limiter lib (fst (rate_of kind)) (snd (rate_of kind))"
  by (auto simp: new_client_def rate_of_def CreateKind_def MutationKind_def less_Suc_eq numeral_3_eq_3)

text \<open>What a lookup leaves of the limiter of a client: it is the old one, or a new one after a time out of use.\<close>

lemma admit_limiter:
  assumes c1: "c1 = (if time_sub now (ct_lastSweep c) \<ge> SweepInterval then sweep_clients now c else c)"
    and ad: "admit_client lib key now c1 = (c2, x)" and ok: "control_ok c"
    and K: "K < 3" and act: "active_since t0 k c" and t0: "t0 \<le> now"
  obtains l t1 where "client_limiter lib k K c2 = l" "active_since t1 k c2" "t1 \<le> now"
    "l = client_limiter lib k K c \<and> t1 = t0
      \<or> l = new_limiter lib (fst (rate_of K)) (snd (rate_of K)) \<and> t0 + ClientIdleTTL \<le> now \<and> t1 = now"
proof -
  let ?new = "new_limiter lib (fst (rate_of K)) (snd (rate_of K))"
  have ok1: "control_ok c1" using control_ok_sweep [OF ok, of now] ok c1 by simp
  have row1: "row_of cl_key k (ct_clients c1) = row_of cl_key k (ct_clients c)
      \<or> row_of cl_key k (ct_clients c1) = None \<and> t0 + ClientIdleTTL \<le> now"
    using sweep_row [OF act ok, of now] c1 by simp
  then have act1: "active_since t0 k c1" using act by (auto simp: active_since_def)
  have none: "client_limiter lib k K z = ?new" if "row_of cl_key k (ct_clients z) = None" for z
    using that by (simp add: client_limiter_def case_prod_unfold)
  have made: "client_limiter lib k K z = ?new \<and> active_since now k z" if "row_of cl_key k (ct_clients z) = Some (new_client lib k now)" for z
    using that new_client_limiter [OF K] by (simp add: client_limiter_def active_since_def new_client_def)
  from ad act1 ok1 show thesis
  proof (cases rule: admit_row)
    case same
    show thesis
    proof (cases "row_of cl_key k (ct_clients c1) = row_of cl_key k (ct_clients c)")
      case True
      with same act t0 show thesis
        by (intro that [of "client_limiter lib k K c" t0]) (simp_all add: client_limiter_def active_since_def)
    next
      case False
      with row1 same none active_gone show thesis by (intro that [of ?new now]) simp_all
    qed
  next
    case removed
    with none active_gone show thesis by (intro that [of ?new now]) simp_all
  next
    case m: made
    then have c2: "client_limiter lib k K c2 = ?new" "active_since now k c2" using made by simp_all
    show thesis
    proof (cases "row_of cl_key k (ct_clients c) = None")
      case True
      have "active_since t0 k c2" using c2(2) t0 by (force simp: active_since_def)
      with True c2 none t0 show thesis by (intro that [of ?new t0]) simp_all
    next
      case False
      with row1 m(3) c2 show thesis by (intro that [of ?new now]) auto
    qed
  qed
qed

lemma Allow_client:
  assumes a: "Allow lib now remote xff kind c = (c', b)" and on: "\<not> ct_disabled c" and ok: "control_ok c"
    and K: "K < 3" and act: "active_since t0 k c" and t0: "t0 \<le> now"
  defines "mine \<equiv> RateKey (ClientIP remote xff (ct_trusted c)) = k \<and> kind = K"
  shows "\<exists>l t1. (l = client_limiter lib k K c \<and> t1 = t0
      \<or> l = new_limiter lib (fst (rate_of K)) (snd (rate_of K)) \<and> t0 + ClientIdleTTL \<le> now \<and> t1 = now)
    \<and> (client_limiter lib k K c' = l \<and> active_since t1 k c' \<and> (mine \<longrightarrow> \<not> b)
      \<or> (\<exists>ok. allow_one lib l now = (ok, client_limiter lib k K c') \<and> active_since now k c' \<and> (mine \<and> b \<longrightarrow> ok)))"
proof -
  let ?key = "RateKey (ClientIP remote xff (ct_trusted c))"
  define c1 where "c1 = (if time_sub now (ct_lastSweep c) \<ge> SweepInterval then sweep_clients now c else c)"
  have ok1: "control_ok c1" using control_ok_sweep [OF ok, of now] ok by (simp add: c1_def)
  note two = admit_limiter [OF c1_def _ ok K act t0]
  from a on show ?thesis
  proof (cases rule: Allow_cases)
    case full
    from two [OF full(1) [folded c1_def]] full(2) show ?thesis by metis
  next
    case (limited c2 g)
    from two [OF limited(1) [folded c1_def]] obtain l t1 where l: "client_limiter lib k K c2 = l" "active_since t1 k c2" "t1 \<le> now"
      "l = client_limiter lib k K c \<and> t1 = t0
      \<or> l = new_limiter lib (fst (rate_of K)) (snd (rate_of K)) \<and> t0 + ClientIdleTTL \<le> now \<and> t1 = now" by blast
    have "client_limiter lib k K c' = l" "active_since t1 k c'"
      using l(1-3) by (auto simp: limited(4) active_since_def client_limiter_def row_of_update split: option.splits)
    with l(4) limited(2) show ?thesis by blast
  next
    case (asked c2 g v x)
    from two [OF asked(1) [folded c1_def]] obtain l t1 where l: "client_limiter lib k K c2 = l" "active_since t1 k c2" "t1 \<le> now"
      "l = client_limiter lib k K c \<and> t1 = t0
      \<or> l = new_limiter lib (fst (rate_of K)) (snd (rate_of K)) \<and> t0 + ClientIdleTTL \<le> now \<and> t1 = now" by blast
    have len: "length (cl_limiters v) = 3"
      using admit_client_ok [OF ok1 asked(1) [folded c1_def]] row_of_SomeD [OF asked(3)] by (auto simp: control_ok_def)
    have row: "row_of cl_key k (ct_clients c') =
      (if ?key = k then Some (v\<lparr>cl_last := now, cl_limiters := (cl_limiters v)[kind := x]\<rparr>)
       else row_of cl_key k (ct_clients c2))"
      using asked(3) by (auto simp: asked(5) row_of_update)
    show ?thesis
    proof (cases "?key = k")
      case False
      with l row have "client_limiter lib k K c' = l" "active_since t1 k c'"
        by (simp_all add: active_since_def client_limiter_def)
      with l(4) False show ?thesis unfolding mine_def by blast
    next
      case True
      have old: "l = cl_limiters v ! K" using l(1) asked(3) True by (simp add: client_limiter_def)
      have now: "active_since now k c'" using row True by (simp add: active_since_def)
      have new: "client_limiter lib k K c' = (if kind = K then x else cl_limiters v ! K)"
        using row True len K by (simp add: client_limiter_def nth_list_update)
      show ?thesis
      proof (cases "kind = K")
        case True
        with asked(4) old new have "allow_one lib l now = (b, client_limiter lib k K c')" by simp
        with now l(4) show ?thesis by blast
      next
        case False
        have "active_since t1 k c'" using now l(3) by (force simp: active_since_def)
        with False new old l(4) show ?thesis unfolding mine_def by auto
      qed
    qed
  next
    case (lost c2)
    with admit_client_ok [OF ok1 lost(1) [folded c1_def]] show ?thesis by simp
  qed
qed

interpretation client: behind_limiter lib "request_step lib" rq_time "attributed k kind"
    "client_limiter lib k kind" "fst (rate_of kind)" "snd (rate_of kind)" ClientIdleTTL
    "\<lambda>c. \<not> ct_disabled c \<and> control_ok c \<and> kind < 3" "\<lambda>t c. active_since t k c" for lib k kind
proof (unfold_locales, goal_cases)
  case (3 s t0 e s' b)
  then have a: "Allow lib (rq_time e) (rq_remote e) (rq_xff e) (rq_kind e) s = (s', b)"
    by (simp add: request_step_def)
  have "control_ok s'"
    using control_ok_Allow [of s lib "rq_time e" "rq_remote e" "rq_xff e" "rq_kind e"] a 3(1) by simp
  with Allow_client [OF a _ _ _ 3(2,3)] Allow_global [OF a] 3(1) show ?case unfolding attributed_def by simp
qed (simp_all add: rate_of_def ClientIdleTTL_def minute_def second_def)

end
