(* ===== verification/AbuseProps.thy ===== *)
theory AbuseProps
  imports AbuseBounds "HOL-Library.Code_Target_Nat"
begin

text \<open>
  The properties of \<open>internal/abuse\<close>: who a request is attributed to, and how much any client,
  and all clients together, can get admitted.  They are applied to a token bucket that keeps
  the documented bound of the limiter library.
\<close>

section \<open>A token bucket\<close>

record bucket =
  bk_interval :: duration
  bk_burst :: nat
  bk_level :: int
  bk_last :: "time option"

definition bucket_level :: "bucket \<Rightarrow> time \<Rightarrow> int" where
  "bucket_level b now =
     (case bk_last b of
        None \<Rightarrow> int (bk_burst b) * bk_interval b
      | Some t \<Rightarrow> min (int (bk_burst b) * bk_interval b) (bk_level b + (now - t)))"

definition bucket_lib :: "bucket limiter_lib" where
  "bucket_lib =
     \<lparr>new_limiter = (\<lambda>interval burst. \<lparr>bk_interval = interval, bk_burst = burst, bk_level = 0, bk_last = None\<rparr>),
      allow_one = (\<lambda>b now.
        if bk_interval b \<le> bucket_level b now
        then (True, b\<lparr>bk_level := bucket_level b now - bk_interval b, bk_last := Some now\<rparr>)
        else (False, b\<lparr>bk_level := bucket_level b now, bk_last := Some now\<rparr>))\<rparr>"

lemma bucket_run:
  assumes "sorted (t0 # ts)" "bk_last b = Some t0" "0 < bk_interval b" "0 \<le> bk_level b"
  shows "int (admitted bucket_lib b ts) * bk_interval b \<le> bk_level b + (last (t0 # ts) - t0)"
  using assms
proof (induction ts arbitrary: b t0)
  case Nil
  then show ?case by simp
next
  case (Cons t ts)
  let ?l = "bucket_level b t"
  have l: "0 \<le> ?l" "?l \<le> bk_level b + (t - t0)"
    using Cons.prems by (auto simp: bucket_level_def)
  obtain ok b' where a: "allow_one bucket_lib b t = (ok, b')" by fastforce
  then have b': "bk_last b' = Some t" "bk_interval b' = bk_interval b" "0 \<le> bk_level b'"
    "bk_level b' + (if ok then bk_interval b else 0) = ?l"
    using l by (auto simp: bucket_lib_def split: if_splits)
  have "int (admitted bucket_lib b' ts) * bk_interval b' \<le> bk_level b' + (last (t # ts) - t)"
    using Cons.prems b' by (intro Cons.IH) auto
  with a b' l show ?case by (cases ok) (auto simp: algebra_simps)
qed

lemma bucket_asked:
  assumes "0 < interval"
  shows "let b = asked bucket_lib (new_limiter bucket_lib interval burst) us
    in bk_interval b = interval \<and> bk_burst b = burst \<and> (us \<noteq> [] \<longrightarrow> bk_last b = Some (last us)) \<and> (us = [] \<longrightarrow> bk_last b = None)
      \<and> (sorted us \<longrightarrow> 0 \<le> bk_level b)"
proof (induction us rule: rev_induct)
  case Nil
  then show ?case by (simp add: bucket_lib_def)
next
  case (snoc u us)
  let ?b = "asked bucket_lib (new_limiter bucket_lib interval burst) us"
  have "0 \<le> bucket_level ?b u" if "sorted (us @ [u])"
    using snoc that assms by (cases "us = []") (auto simp: bucket_level_def Let_def sorted_append last_in_set)
  with snoc show ?case by (auto simp: asked_snoc Let_def bucket_lib_def sorted_append)
qed

lemma bucket_ok: "limiter_ok bucket_lib"
  unfolding limiter_ok_def
proof (intro allI impI)
  fix interval :: duration and burst :: nat and us ts :: "time list"
  assume i: "0 < interval" and ne: "ts \<noteq> []" and sorted: "sorted (us @ ts)"
  obtain t vs where ts: "ts = t # vs" using ne by (cases ts) auto
  let ?b = "asked bucket_lib (new_limiter bucket_lib interval burst) us"
  have b: "bk_interval ?b = interval" "bk_burst ?b = burst" "us \<noteq> [] \<longrightarrow> bk_last ?b = Some (last us)"
    "us = [] \<longrightarrow> bk_last ?b = None" "0 \<le> bk_level ?b"
    using bucket_asked [OF i, of burst us] sorted by (simp_all add: Let_def sorted_append)
  have level: "0 \<le> bucket_level ?b t" "bucket_level ?b t \<le> int burst * interval"
    using b i sorted ts by (cases "us = []"; auto simp: bucket_level_def sorted_append last_in_set)+
  obtain ok b' where a: "allow_one bucket_lib ?b t = (ok, b')" by fastforce
  then have b': "bk_last b' = Some t" "bk_interval b' = interval" "0 \<le> bk_level b'"
    "bk_level b' + (if ok then interval else 0) = bucket_level ?b t"
    using level b(1) by (auto simp: bucket_lib_def split: if_splits)
  have "sorted (t # vs)" using sorted ts by (simp add: sorted_append)
  then have "int (admitted bucket_lib b' vs) * interval \<le> bk_level b' + (last (t # vs) - t)"
    using bucket_run [of t vs b'] b' i by simp
  with a b' level(2) have "int (admitted bucket_lib ?b ts) * interval \<le> int burst * interval + (last ts - hd ts)"
    by (cases ok) (auto simp: ts algebra_simps)
  then have "int (admitted bucket_lib ?b ts) \<le> (int burst * interval + (last ts - hd ts)) div interval"
    using i by (metis zdiv_mono1 nonzero_mult_div_cancel_right order_less_imp_not_eq2)
  also have "\<dots> = int burst + (last ts - hd ts) div interval"
    using i by simp
  finally show "admitted bucket_lib ?b ts \<le> burst + nat ((last ts - hd ts) div interval)"
    by linarith
qed

section \<open>Who a request is attributed to\<close>

text \<open>C19: Nobody can have a request counted for an address that only a header names.  A request whose peer
  is no trusted proxy is attributed to the peer, whatever its header says.  Behind a trusted proxy it
  is attributed to the rightmost hop of \<open>X-Forwarded-For\<close> that is not trusted, and to the proxy when an
  entry of the header is malformed or every hop is trusted.  So when the proxies have appended \<open>hops\<close>, the
  address that contacted them and then their own, to whatever a client had sent, the request is
  attributed to that address, or to the proxy when what the client sent is malformed, and never to an
  address the client chose.\<close>

theorem client_identity:
  assumes "parsePeer remote = Some peer"
  shows "(\<not> isTrusted peer trusted \<longrightarrow> ClientIP remote xff trusted = peer)
    \<and> (isTrusted peer trusted \<longrightarrow> forwarded_chain (split_on (CHR '','') xff) = Some (pre @ hop # post) \<longrightarrow>
         \<not> isTrusted hop trusted \<longrightarrow> (\<forall>a\<in>set post. isTrusted a trusted) \<longrightarrow>
         ClientIP remote xff trusted = hop)
    \<and> (isTrusted peer trusted \<longrightarrow>
         (\<forall>chain. forwarded_chain (split_on (CHR '','') xff) = Some chain \<longrightarrow> (\<forall>a\<in>set chain. isTrusted a trusted)) \<longrightarrow>
         ClientIP remote xff trusted = peer)
    \<and> (isTrusted peer trusted \<longrightarrow> forwarded_chain (split_on (CHR '','') hops) = Some (hop # post) \<longrightarrow>
         \<not> isTrusted hop trusted \<longrightarrow> (\<forall>a\<in>set post. isTrusted a trusted) \<longrightarrow>
         (\<forall>front. ClientIP remote (front @ CHR '','' # hops) trusted =
           (if forwarded_chain (split_on (CHR '','') front) = None then peer else hop)))"
  using ClientIP_untrusted_peer [OF assms] ClientIP_chain [OF assms] ClientIP_no_hop [OF assms] ClientIP_front [OF assms]
  by blast

definition proxies :: "prefix list" where
  "proxies = map the [ParsePrefix ''10.0.0.0/8'', ParsePrefix ''fd00::/8'']"

text \<open>A peer on its own, a client behind two proxies that has sent an address, and one that has sent rubbish.\<close>

lemma client_identity_witness:
  "ClientIP ''203.0.113.7:5000'' ''198.51.100.1'' proxies = V4 3405803783
   \<and> ClientIP ''10.1.2.3:5000'' ''1.2.3.4, 198.51.100.1, 10.9.9.9'' proxies = V4 3325256705
   \<and> ClientIP ''10.1.2.3:5000'' ''10.9.9.9'' proxies = V4 167838211
   \<and> ClientIP ''10.1.2.3:5000'' (''rubbish'' @ CHR '','' # ''198.51.100.1, 10.9.9.9'') proxies = V4 167838211"
proof -
  have p: "parsePeer ''203.0.113.7:5000'' = Some (V4 3405803783)" "\<not> isTrusted (V4 3405803783) proxies" by code_simp+
  have q: "parsePeer ''10.1.2.3:5000'' = Some (V4 167838211)" "isTrusted (V4 167838211) proxies"
    "forwarded_chain (split_on (CHR '','') ''1.2.3.4, 198.51.100.1, 10.9.9.9'') =
       Some ([V4 16909060] @ V4 3325256705 # [V4 168364297])"
    "\<not> isTrusted (V4 3325256705) proxies" "\<forall>a\<in>set [V4 168364297]. isTrusted a proxies" by code_simp+
  have t: "\<forall>chain. forwarded_chain (split_on (CHR '','') ''10.9.9.9'') = Some chain \<longrightarrow> (\<forall>a\<in>set chain. isTrusted a proxies)"
  proof -
    have "forwarded_chain (split_on (CHR '','') ''10.9.9.9'') = Some [V4 168364297]" by code_simp
    with q(5) show ?thesis by simp
  qed
  have h: "forwarded_chain (split_on (CHR '','') ''198.51.100.1, 10.9.9.9'') = Some (V4 3325256705 # [V4 168364297])"
    "forwarded_chain (split_on (CHR '','') ''rubbish'') = None" by code_simp+
  have f: "ClientIP ''10.1.2.3:5000'' (''rubbish'' @ CHR '','' # ''198.51.100.1, 10.9.9.9'') proxies = V4 167838211"
    using client_identity [OF q(1), of proxies "[]" "[]" "V4 3325256705" "[V4 168364297]" "''198.51.100.1, 10.9.9.9''"] q(2,4,5) h
    by (metis (no_types, lifting))
  show ?thesis
    using client_identity [OF p(1)] p client_identity [OF q(1)] q t f by blast
qed

section \<open>How much is admitted\<close>

text \<open>C21: All clients together get no more than the global limiter grants: whatever has been sent since
  the controller was made, and whatever sweeps there were, of the requests in any window that
  follows at most 200 and one more per 60 ms are admitted.\<close>

theorem global_bound:
  assumes "limiter_ok lib" and "sorted (map rq_time (past @ rs))" and "rs \<noteq> []"
  shows "passed (request_step lib) (\<lambda>r c. True) rs (run_events (request_step lib) past (NewControl lib trusted maximum False))
    \<le> 200 + nat ((rq_time (last rs) - rq_time (hd rs)) div (minute div 1000))"
  using assms control_ok_New [of lib trusted maximum False]
  by (intro global.passed_bound) (simp_all add: NewControl_def)

text \<open>Five creations of one client, and eleven minutes later eight more within a few seconds.\<close>

definition creation_at :: "time \<Rightarrow> request" where
  "creation_at t = \<lparr>rq_time = 1700000000000000000 + t, rq_remote = ''203.0.113.7:5000'', rq_xff = [], rq_kind = CreateKind\<rparr>"

definition past_requests :: "request list" where
  "past_requests = map creation_at [0, 1, 2, 3, 4]"

definition sample_requests :: "request list" where
  "sample_requests = map (\<lambda>n. creation_at (11 * minute + int n)) [0..<8]"

lemma sample_requests_ok:
  "sorted (map rq_time (past_requests @ sample_requests))" "sample_requests \<noteq> []"
  by code_simp+

lemma global_bound_witness:
  "passed (request_step bucket_lib) (\<lambda>r c. True) sample_requests
      (run_events (request_step bucket_lib) past_requests (NewControl bucket_lib proxies 0 False))
    \<le> 200 + nat ((rq_time (last sample_requests) - rq_time (hd sample_requests)) div (minute div 1000))"
  by (rule global_bound [OF bucket_ok sample_requests_ok])

text \<open>C20: No client gets more than its own limiter grants, not even by pausing: whatever requests of
  whichever clients the controller has seen since it was made, of the requests of a kind that are
  attributed to one key in any window that follows, however long, at most the kind's burst and one more
  per interval are admitted (creations 5 and one per 6 s, changes 10 and one per 2 s, reads 60 and one
  per 500 ms).  An entry of the table is dropped, and its limiter replaced by a new one, only after ten
  minutes without a request of the client, which is long enough for the old one to refill.\<close>

theorem client_bound:
  assumes "limiter_ok lib" and "sorted (map rq_time (past @ rs))" and "rs \<noteq> []" and "kind < 3"
  shows "passed (request_step lib) (attributed k kind) rs (run_events (request_step lib) past (NewControl lib trusted maximum False))
    \<le> snd (rate_of kind) + nat ((rq_time (last rs) - rq_time (hd rs)) div fst (rate_of kind))"
  using assms control_ok_New [of lib trusted maximum False]
  by (intro client.passed_bound) (simp_all add: NewControl_def client_limiter_def active_since_def case_prod_unfold)

lemma client_bound_witness:
  "passed (request_step bucket_lib) (attributed ''203.0.113.7'' CreateKind) sample_requests
     (run_events (request_step bucket_lib) past_requests (NewControl bucket_lib proxies 0 False)) \<le> 5"
proof -
  have w: "snd (rate_of CreateKind) + nat ((rq_time (last sample_requests) - rq_time (hd sample_requests)) div fst (rate_of CreateKind)) = 5"
    by code_simp
  have "CreateKind < 3" by (simp add: CreateKind_def)
  from client_bound [OF bucket_ok sample_requests_ok this] w show ?thesis by metis
qed

text \<open>C22: The state of the controller stays bounded whatever is called on it: at most \<open>max\<close> client
  entries with distinct keys, each with its three limiters, at most four uploads and 32 downloads
  in flight.\<close>

theorem control_bounded:
  assumes "control_ok c"
  shows "control_ok (fst (Allow lib now remote xff kind c)) \<and> control_ok (fst (TryUpload c))
    \<and> control_ok (fst (TryDownload c)) \<and> (ReleaseUpload c = Some c' \<longrightarrow> control_ok c')
    \<and> (ReleaseDownload c = Some c'' \<longrightarrow> control_ok c'') \<and> control_ok (sweep_clients now c)
    \<and> length (ct_clients (fst (Allow lib now remote xff kind c))) \<le> ct_max c"
proof -
  have "ct_max (fst (Allow lib now remote xff kind c)) = ct_max c"
    by (auto simp: Allow_def admit_client_def Let_def split: prod.splits bool.splits option.splits if_splits)
  then have "length (ct_clients (fst (Allow lib now remote xff kind c))) \<le> ct_max c"
    using control_ok_Allow [OF assms, of lib now remote xff kind] by (auto simp: control_ok_def)
  then show ?thesis
    using control_ok_Allow [OF assms] control_ok_slots [OF assms] control_ok_sweep [OF assms] by auto
qed

lemma control_bounded_witness:
  "control_ok (fst (Allow bucket_lib 1700000000000000000 ''203.0.113.7:5000'' [] 0 (NewControl bucket_lib proxies 2 False)))"
  using control_bounded [OF control_ok_New [of bucket_lib proxies 2 False]] by blast

end
