(* ===== verification/AdminSession.thy ===== *)
theory AdminSession
  imports RateLimit Capability
begin

text \<open>
  Package \<open>internal/admin\<close> (\<open>manager.go\<close>): the in-memory Superadmin sessions, keyed by the
  SHA-256 of the cookie, their CSRF tokens and expiry, and the per-address limit on logins.
  Operations hold the mutex while they touch the state; \<open>Login\<close> holds it twice, once for the
  login limits and once for the sessions, and what it touches each time is disjoint, so calls one
  after another show every state an interleaving reaches.
\<close>

section \<open>Data\<close>

definition defaultSessionTTL :: duration where "defaultSessionTTL = 8 * hour"
definition sessionRandomSize :: nat where "sessionRandomSize = 32"
definition maxSessions :: nat where "maxSessions = 64"
definition loginBurst :: nat where "loginBurst = 5"
definition loginInterval :: duration where "loginInterval = 12 * second"
definition loginIdleTTL :: duration where "loginIdleTTL = 10 * minute"
definition maxLoginIPs :: nat where "maxLoginIPs = 4096"

record session =
  CSRFToken :: string
  SessionExpiresAt :: time

record session_record =
  sr_key :: bytes
  sr_csrf :: string
  sr_expires :: time

record 'l login_entry =
  le_key :: string
  le_limiter :: 'l
  le_last :: time

record 'l manager =
  mg_verifier :: bytes
  mg_ttl :: duration
  mg_secure :: bool
  mg_sessions :: "session_record list"
  mg_logins :: "'l login_entry list"
  mg_lastSweep :: time

definition NewManager :: "bytes \<Rightarrow> duration \<Rightarrow> bool \<Rightarrow> 'l manager" where
  "NewManager verifier ttl secure =
     \<lparr>mg_verifier = verifier, mg_ttl = (if ttl \<le> 0 then defaultSessionTTL else ttl), mg_secure = secure,
      mg_sessions = [], mg_logins = [], mg_lastSweep = zero_time\<rparr>"

section \<open>The login limit\<close>

definition sweep_logins :: "time \<Rightarrow> 'l manager \<Rightarrow> 'l manager" where
  "sweep_logins now m =
     (if time_sub now (mg_lastSweep m) \<ge> loginIdleTTL
      then m\<lparr>mg_logins := filter (\<lambda>e. \<not> time_sub now (le_last e) \<ge> loginIdleTTL) (mg_logins m),
             mg_lastSweep := now\<rparr>
      else m)"

definition allowLogin :: "'l limiter_lib \<Rightarrow> string \<Rightarrow> time \<Rightarrow> 'l manager \<Rightarrow> 'l manager \<times> bool" where
  "allowLogin lib clientIP now m =
     (let m1 = sweep_logins now m
      in if row_of le_key clientIP (mg_logins m1) = None \<and> length (mg_logins m1) \<ge> maxLoginIPs
         then (m1, False)
         else
           (let m2 = (if row_of le_key clientIP (mg_logins m1) = None
                      then m1\<lparr>mg_logins := mg_logins m1 @
                             [\<lparr>le_key = clientIP, le_limiter = new_limiter lib loginInterval loginBurst,
                               le_last = now\<rparr>]\<rparr>
                      else m1)
            in case row_of le_key clientIP (mg_logins m2) of
                 None \<Rightarrow> (m2, False)
               | Some e \<Rightarrow>
                   (case allow_one lib (le_limiter e) now of
                      (ok, l) \<Rightarrow>
                        (m2\<lparr>mg_logins := update_rows le_key clientIP
                               (\<lambda>e. e\<lparr>le_last := now, le_limiter := l\<rparr>) (mg_logins m2)\<rparr>, ok))))"

section \<open>Sessions\<close>

definition sweepLocked :: "time \<Rightarrow> 'l manager \<Rightarrow> 'l manager" where
  "sweepLocked now m = m\<lparr>mg_sessions := filter (\<lambda>r. now < sr_expires r) (mg_sessions m)\<rparr>"

text \<open>A map assignment replaces the record at the key.\<close>

definition put_session :: "session_record \<Rightarrow> session_record list \<Rightarrow> session_record list" where
  "put_session r rs = delete_rows sr_key (sr_key r) rs @ [r]"

definition Login ::
  "'l limiter_lib \<Rightarrow> (bytes \<Rightarrow> bytes) \<Rightarrow> time \<Rightarrow> bytes option \<Rightarrow> bytes option \<Rightarrow> string \<Rightarrow> string
     \<Rightarrow> 'l manager \<Rightarrow> 'l manager \<times> (err + string \<times> string)" where
  "Login lib sha now rnd1 rnd2 candidate clientIP m =
     (case allowLogin lib clientIP now m of
        (m1, False) \<Rightarrow> (m1, Inl ErrRateLimited)
      | (m1, True) \<Rightarrow>
          if \<not> VerifyToken sha candidate (mg_verifier m1) then (m1, Inl ErrUnauthorized)
          else (case randomBase64URL rnd1 of
            Inl e \<Rightarrow> (m1, Inl e)
          | Inr raw \<Rightarrow>
              (case randomBase64URL rnd2 of
                 Inl e \<Rightarrow> (m1, Inl e)
               | Inr csrf \<Rightarrow>
                   (let m2 = sweepLocked now m1
                    in if length (mg_sessions m2) \<ge> maxSessions then (m2, Inl ErrRateLimited)
                       else (m2\<lparr>mg_sessions := put_session
                                 \<lparr>sr_key = sha raw, sr_csrf = csrf, sr_expires = now + mg_ttl m2\<rparr>
                                 (mg_sessions m2)\<rparr>, Inr (raw, csrf))))))"

definition Lookup :: "(bytes \<Rightarrow> bytes) \<Rightarrow> time \<Rightarrow> string \<Rightarrow> 'l manager \<Rightarrow> 'l manager \<times> session option" where
  "Lookup sha now raw m =
     (let m1 = sweepLocked now m
      in case row_of sr_key (sha raw) (mg_sessions m1) of
           None \<Rightarrow> (m1, None)
         | Some r \<Rightarrow>
             if \<not> now < sr_expires r
             then (m1\<lparr>mg_sessions := delete_rows sr_key (sha raw) (mg_sessions m1)\<rparr>, None)
             else (m1, Some \<lparr>CSRFToken = sr_csrf r, SessionExpiresAt = sr_expires r\<rparr>))"

definition CSRFMatches :: "(bytes \<Rightarrow> bytes) \<Rightarrow> time \<Rightarrow> string \<Rightarrow> string \<Rightarrow> 'l manager \<Rightarrow> 'l manager \<times> bool" where
  "CSRFMatches sha now raw csrf m =
     (let m1 = sweepLocked now m
      in case row_of sr_key (sha raw) (mg_sessions m1) of
           None \<Rightarrow> (m1, False)
         | Some r \<Rightarrow>
             if \<not> now < sr_expires r then (m1, False)
             else if length csrf \<noteq> length (sr_csrf r) then (m1, False)
             else (m1, csrf = sr_csrf r))"

definition Logout :: "(bytes \<Rightarrow> bytes) \<Rightarrow> string \<Rightarrow> 'l manager \<Rightarrow> 'l manager" where
  "Logout sha raw m = m\<lparr>mg_sessions := delete_rows sr_key (sha raw) (mg_sessions m)\<rparr>"

definition ActiveSessions :: "time \<Rightarrow> 'l manager \<Rightarrow> 'l manager \<times> nat" where
  "ActiveSessions now m = (let m1 = sweepLocked now m in (m1, length (mg_sessions m1)))"

section \<open>Laws\<close>

definition manager_ok :: "'l manager \<Rightarrow> bool" where
  "manager_ok m \<longleftrightarrow>
     length (mg_sessions m) \<le> maxSessions \<and> distinct (map sr_key (mg_sessions m))
     \<and> length (mg_logins m) \<le> maxLoginIPs \<and> distinct (map le_key (mg_logins m)) \<and> 0 < mg_ttl m"

lemma manager_ok_New: "manager_ok (NewManager verifier ttl secure)"
  by (simp add: manager_ok_def NewManager_def defaultSessionTTL_def hour_def minute_def second_def)

lemma sweep_logins_fields [simp]:
  "mg_sessions (sweep_logins now m) = mg_sessions m" "mg_verifier (sweep_logins now m) = mg_verifier m"
  "mg_ttl (sweep_logins now m) = mg_ttl m"
  by (simp_all add: sweep_logins_def)

lemma sweep_logins_ok:
  assumes "manager_ok m"
  shows "manager_ok (sweep_logins now m)"
  using assms by (simp add: manager_ok_def sweep_logins_def distinct_map_filter length_filter_bound)

text \<open>\<open>allowLogin\<close> by its outcome: the table is full, or the address has an entry and its limiter
  is asked.\<close>

lemma allowLogin_cases:
  assumes "allowLogin lib ip now m = (m', b)"
  obtains (full) "m' = sweep_logins now m" "\<not> b"
      "row_of le_key ip (mg_logins (sweep_logins now m)) = None"
      "length (mg_logins (sweep_logins now m)) \<ge> maxLoginIPs"
  | (asked) es e l where
      "es = (if row_of le_key ip (mg_logins (sweep_logins now m)) = None
         then mg_logins (sweep_logins now m) @ [\<lparr>le_key = ip, le_limiter = new_limiter lib loginInterval loginBurst, le_last = now\<rparr>]
         else mg_logins (sweep_logins now m))"
      "row_of le_key ip (mg_logins (sweep_logins now m)) = None \<Longrightarrow> length (mg_logins (sweep_logins now m)) < maxLoginIPs"
      "row_of le_key ip es = Some e" "allow_one lib (le_limiter e) now = (b, l)"
      "m' = (sweep_logins now m)\<lparr>mg_logins := update_rows le_key ip (\<lambda>e. e\<lparr>le_last := now, le_limiter := l\<rparr>) es\<rparr>"
proof -
  let ?m1 = "sweep_logins now m"
  let ?new = "\<lparr>le_key = ip, le_limiter = new_limiter lib loginInterval loginBurst, le_last = now\<rparr>"
  show thesis
  proof (cases "row_of le_key ip (mg_logins ?m1)")
    case None
    then have r: "row_of le_key ip (mg_logins ?m1 @ [?new]) = Some ?new" by (simp add: row_of_append row_of_Cons)
    obtain ok l where l: "allow_one lib (le_limiter ?new) now = (ok, l)" by fastforce
    show thesis
    proof (cases "length (mg_logins ?m1) \<ge> maxLoginIPs")
      case True
      with None assms show thesis by (intro full) (auto simp: allowLogin_def Let_def)
    next
      case False
      with None assms r l show thesis
        by (intro asked [of "mg_logins ?m1 @ [?new]" ?new l]) (auto simp: allowLogin_def Let_def)
    qed
  next
    case (Some e)
    obtain ok l where l: "allow_one lib (le_limiter e) now = (ok, l)" by fastforce
    with Some assms show thesis
      by (intro asked [of "mg_logins ?m1" e l]) (auto simp: allowLogin_def Let_def)
  qed
qed

lemma allowLogin_fields:
  "allowLogin lib ip now m = (m', b) \<Longrightarrow>
     mg_sessions m' = mg_sessions m \<and> mg_verifier m' = mg_verifier m \<and> mg_ttl m' = mg_ttl m"
  by (erule allowLogin_cases) simp_all

lemma allowLogin_ok:
  assumes "manager_ok m" "allowLogin lib ip now m = (m', b)"
  shows "manager_ok m'"
  using assms(2)
proof (cases rule: allowLogin_cases)
  case full
  with sweep_logins_ok [OF assms(1)] show ?thesis by simp
next
  case (asked es e l)
  note ok = sweep_logins_ok [OF assms(1), of now]
  have "length es \<le> maxLoginIPs" "distinct (map le_key es)"
    using ok asked(1,2) by (auto simp: manager_ok_def row_of_None_iff keys_of_def split: if_splits)
  moreover have "map le_key (update_rows le_key ip (\<lambda>e. e\<lparr>le_last := now, le_limiter := l\<rparr>) es) = map le_key es"
    by (rule map_key_update) simp
  ultimately show ?thesis using ok asked(5) by (simp add: manager_ok_def) (simp add: update_rows_def)
qed

lemma sweepLocked_fields [simp]:
  "mg_verifier (sweepLocked now m) = mg_verifier m" "mg_ttl (sweepLocked now m) = mg_ttl m"
  "mg_logins (sweepLocked now m) = mg_logins m"
  by (simp_all add: sweepLocked_def)

lemma sweepLocked_ok:
  assumes "manager_ok m"
  shows "manager_ok (sweepLocked now m)"
  using assms by (simp add: manager_ok_def sweepLocked_def distinct_map_filter length_filter_bound)

lemma sweepLocked_row:
  "manager_ok m \<Longrightarrow> row_of sr_key k (mg_sessions (sweepLocked now m)) = Some r \<longleftrightarrow>
     row_of sr_key k (mg_sessions m) = Some r \<and> now < sr_expires r"
  by (simp add: sweepLocked_def manager_ok_def row_of_filter_Some_iff)

lemma put_session_row:
  "row_of sr_key k (put_session r rs) = (if k = sr_key r then Some r else row_of sr_key k rs)"
  by (simp add: put_session_def row_of_append row_of_Cons row_of_delete split: option.split)

text \<open>A login by its outcome.\<close>

lemma Login_cases:
  assumes "Login lib sha now rnd1 rnd2 candidate ip m = (m', r)"
  obtains (failed) e m1 where "r = Inl e" "fst (allowLogin lib ip now m) = m1" "m' = m1 \<or> m' = sweepLocked now m1"
  | (opened) raw csrf m1 where "r = Inr (raw, csrf)" "allowLogin lib ip now m = (m1, True)"
      "VerifyToken sha candidate (mg_verifier m)" "randomBase64URL rnd1 = Inr raw" "randomBase64URL rnd2 = Inr csrf"
      "length (mg_sessions (sweepLocked now m1)) < maxSessions"
      "m' = (sweepLocked now m1)\<lparr>mg_sessions := put_session
          \<lparr>sr_key = sha raw, sr_csrf = csrf, sr_expires = now + mg_ttl m\<rparr> (mg_sessions (sweepLocked now m1))\<rparr>"
proof -
  obtain m1 a where al: "allowLogin lib ip now m = (m1, a)" by fastforce
  note f = allowLogin_fields [OF al]
  show thesis
  proof (cases "a \<and> VerifyToken sha candidate (mg_verifier m) \<and> length (mg_sessions (sweepLocked now m1)) < maxSessions
      \<and> (\<exists>raw. randomBase64URL rnd1 = Inr raw) \<and> (\<exists>csrf. randomBase64URL rnd2 = Inr csrf)")
    case True
    with assms al f show thesis by (auto simp: Login_def Let_def intro!: opened)
  next
    case False
    with assms al f have "\<exists>e. r = Inl e \<and> (m' = m1 \<or> m' = sweepLocked now m1)"
      by (cases a; cases "randomBase64URL rnd1"; cases "randomBase64URL rnd2")
         (auto simp: Login_def Let_def split: if_splits)
    with al show thesis using failed by fastforce
  qed
qed

lemma manager_ok_Login [preserves]:
  assumes ok: "manager_ok m"
  shows "manager_ok (fst (Login lib sha now rnd1 rnd2 candidate ip m))"
proof (cases "Login lib sha now rnd1 rnd2 candidate ip m")
  case (Pair m' r)
  have ok1: "manager_ok (fst (allowLogin lib ip now m))"
    using allowLogin_ok [OF ok] by (metis prod.collapse)
  from Pair show ?thesis
  proof (cases rule: Login_cases)
    case (failed e m1)
    with ok1 sweepLocked_ok [OF ok1, of now] Pair show ?thesis by auto
  next
    case (opened raw csrf m1)
    have ok2: "manager_ok (sweepLocked now m1)" using ok1 opened(2) sweepLocked_ok [of m1 now] by simp
    let ?s = "mg_sessions (sweepLocked now m1)"
    let ?r = "\<lparr>sr_key = sha raw, sr_csrf = csrf, sr_expires = now + mg_ttl m\<rparr>"
    have "length (put_session ?r ?s) \<le> maxSessions"
      using opened(6) length_delete_bound [of ?s "length ?s" sr_key "sha raw"] by (simp add: put_session_def)
    moreover have "distinct (map sr_key (put_session ?r ?s))"
      using ok2 by (auto simp: manager_ok_def put_session_def distinct_delete_rows)
    ultimately show ?thesis using ok2 opened(7) Pair by (simp add: manager_ok_def)
  qed
qed

lemma manager_ok_others [preserves]:
  assumes ok: "manager_ok m"
  shows "manager_ok (fst (Lookup sha now raw m))" "manager_ok (fst (CSRFMatches sha now raw csrf m))"
    "manager_ok (Logout sha raw m)" "manager_ok (fst (ActiveSessions now m))"
proof -
  have d: "manager_ok (x\<lparr>mg_sessions := delete_rows sr_key k (mg_sessions x)\<rparr>)" if "manager_ok x" for x :: "'a manager" and k
    using that by (simp add: manager_ok_def distinct_delete_rows length_delete_bound)
  show "manager_ok (fst (Lookup sha now raw m))" "manager_ok (fst (CSRFMatches sha now raw csrf m))"
    "manager_ok (Logout sha raw m)" "manager_ok (fst (ActiveSessions now m))"
    using sweepLocked_ok [OF ok, of now] d d [OF ok]
    by (auto simp: Lookup_def CSRFMatches_def Logout_def ActiveSessions_def Let_def split: option.splits)
qed

end
