(* ===== verification/AdminTrace.thy ===== *)
theory AdminTrace
  imports AdminSession
begin

text \<open>
  Sequences of calls on the session manager of \<open>internal/admin\<close>: where a session comes from,
  how long it lasts, and how many login attempts an address gets.
\<close>

datatype call =
    CallLogin time "bytes option" "bytes option" string string
  | CallLookup time string
  | CallCSRF time string string
  | CallLogout string
  | CallActive time

fun run_call :: "'l limiter_lib \<Rightarrow> (bytes \<Rightarrow> bytes) \<Rightarrow> call \<Rightarrow> 'l manager \<Rightarrow> 'l manager" where
  "run_call lib sha (CallLogin now r1 r2 candidate ip) m = fst (Login lib sha now r1 r2 candidate ip m)"
| "run_call lib sha (CallLookup now raw) m = fst (Lookup sha now raw m)"
| "run_call lib sha (CallCSRF now raw csrf) m = fst (CSRFMatches sha now raw csrf m)"
| "run_call lib sha (CallLogout raw) m = Logout sha raw m"
| "run_call lib sha (CallActive now) m = fst (ActiveSessions now m)"

definition run_calls :: "'l limiter_lib \<Rightarrow> (bytes \<Rightarrow> bytes) \<Rightarrow> call list \<Rightarrow> 'l manager \<Rightarrow> 'l manager" where
  "run_calls lib sha cs m = foldl (\<lambda>m c. run_call lib sha c m) m cs"

lemma run_calls_simps [simp]:
  "run_calls lib sha [] m = m"
  "run_calls lib sha (cs @ [c]) m = run_call lib sha c (run_calls lib sha cs m)"
  by (simp_all add: run_calls_def)

lemma manager_ok_run_call [preserves]: "manager_ok m \<Longrightarrow> manager_ok (run_call lib sha c m)"
  by (cases c) (simp_all add: manager_ok_Login manager_ok_others)

lemma manager_ok_run_calls: "manager_ok m \<Longrightarrow> manager_ok (run_calls lib sha cs m)"
  by (induction cs rule: rev_induct) (simp_all add: manager_ok_run_call)

lemma run_call_fixed: "mg_verifier (run_call lib sha c m) = mg_verifier m \<and> mg_ttl (run_call lib sha c m) = mg_ttl m"
proof (cases c)
  case (CallLogin now r1 r2 candidate ip)
  obtain m' r where l: "Login lib sha now r1 r2 candidate ip m = (m', r)" by fastforce
  obtain m1 a where al: "allowLogin lib ip now m = (m1, a)" by fastforce
  from l show ?thesis
    by (cases rule: Login_cases) (use l CallLogin al allowLogin_fields [OF al] in auto)
qed (auto simp: Lookup_def CSRFMatches_def Logout_def ActiveSessions_def Let_def split: option.splits)

lemma run_calls_fixed:
  "mg_verifier (run_calls lib sha cs m) = mg_verifier m \<and> mg_ttl (run_calls lib sha cs m) = mg_ttl m"
  by (induction cs rule: rev_induct) (simp_all add: run_call_fixed)

text \<open>One call: the record at a key is the old one, or the call is the login that made it.\<close>

definition opens :: "'l limiter_lib \<Rightarrow> (bytes \<Rightarrow> bytes) \<Rightarrow> call \<Rightarrow> 'l manager \<Rightarrow> session_record \<Rightarrow> bool" where
  "opens lib sha c m r \<longleftrightarrow>
     (case c of
        CallLogin now r1 r2 candidate ip \<Rightarrow>
          VerifyToken sha candidate (mg_verifier m) \<and> sr_expires r = now + mg_ttl m
          \<and> (\<exists>raw. snd (Login lib sha now r1 r2 candidate ip m) = Inr (raw, sr_csrf r) \<and> sha raw = sr_key r)
      | _ \<Rightarrow> False)"

definition closes :: "(bytes \<Rightarrow> bytes) \<Rightarrow> call \<Rightarrow> bytes \<Rightarrow> bool" where
  "closes sha c k \<longleftrightarrow> (case c of CallLogout raw \<Rightarrow> sha raw = k | _ \<Rightarrow> False)"

lemma Lookup_state: "manager_ok m \<Longrightarrow> fst (Lookup sha now raw m) = sweepLocked now m"
  using sweepLocked_row [of m "sha raw" now] by (auto simp: Lookup_def Let_def split: option.split)

lemma run_call_row:
  assumes ok: "manager_ok m" and r: "row_of sr_key k (mg_sessions (run_call lib sha c m)) = Some r"
  shows "opens lib sha c m r \<or> (row_of sr_key k (mg_sessions m) = Some r \<and> \<not> closes sha c k)"
proof (cases c)
  case (CallLogin now r1 r2 candidate ip)
  obtain m' x where l: "Login lib sha now r1 r2 candidate ip m = (m', x)" by fastforce
  obtain m1 a where al: "allowLogin lib ip now m = (m1, a)" by fastforce
  have ok1: "manager_ok m1" using allowLogin_ok [OF ok al] .
  have s1: "mg_sessions m1 = mg_sessions m" using allowLogin_fields [OF al] by simp
  from l show ?thesis
  proof (cases rule: Login_cases)
    case (failed e m2)
    then have "row_of sr_key k (mg_sessions m1) = Some r"
      using l r CallLogin al sweepLocked_row [OF ok1, of k now r] by auto
    then show ?thesis using s1 CallLogin by (simp add: closes_def)
  next
    case (opened raw csrf m2)
    then have "m2 = m1" using al by simp
    have "row_of sr_key k (mg_sessions m) = Some r" if "k \<noteq> sha raw"
      using r l CallLogin opened(7) that sweepLocked_row [OF ok1, of k now r] s1 \<open>m2 = m1\<close>
      by (simp add: put_session_row)
    moreover have "opens lib sha c m r" if "k = sha raw"
      using r l CallLogin opened that by (simp add: put_session_row opens_def) auto
    ultimately show ?thesis using CallLogin by (auto simp: closes_def)
  qed
next
  case (CallLookup now raw)
  then show ?thesis using r sweepLocked_row [OF ok, of k now r] by (simp add: Lookup_state [OF ok] closes_def)
next
  case (CallCSRF now raw csrf)
  have "fst (CSRFMatches sha now raw csrf m) = sweepLocked now m"
    by (auto simp: CSRFMatches_def Let_def split: option.split)
  with CallCSRF show ?thesis using r sweepLocked_row [OF ok, of k now r] by (simp add: closes_def)
next
  case (CallLogout raw)
  then show ?thesis using r by (auto simp: Logout_def closes_def row_of_delete split: if_splits)
next
  case (CallActive now)
  then show ?thesis using r sweepLocked_row [OF ok, of k now r] by (simp add: ActiveSessions_def Let_def closes_def)
qed

lemma session_from_login:
  assumes "manager_ok m" "row_of sr_key k (mg_sessions (run_calls lib sha cs m)) = Some r"
    and "row_of sr_key k (mg_sessions m) = None"
  shows "\<exists>pre c post. cs = pre @ c # post \<and> opens lib sha c (run_calls lib sha pre m) r \<and> (\<forall>d\<in>set post. \<not> closes sha d k)"
  using assms(2)
proof (induction cs rule: rev_induct)
  case Nil
  with assms(3) show ?case by simp
next
  case (snoc c cs)
  from run_call_row [OF manager_ok_run_calls [OF assms(1)]] snoc.prems
  consider "opens lib sha c (run_calls lib sha cs m) r"
    | "row_of sr_key k (mg_sessions (run_calls lib sha cs m)) = Some r" "\<not> closes sha c k"
    by fastforce
  then show ?case
  proof cases
    case 1
    then show ?thesis by (metis append_Nil2 empty_iff list.set(1) append_is_Nil_conv)
  next
    case 2
    from snoc.IH [OF 2(1)] obtain pre d post where
      "cs = pre @ d # post" "opens lib sha d (run_calls lib sha pre m) r" "\<forall>e\<in>set post. \<not> closes sha e k" by blast
    with 2(2) have "cs @ [c] = pre @ d # (post @ [c])" "opens lib sha d (run_calls lib sha pre m) r"
      "\<forall>e\<in>set (post @ [c]). \<not> closes sha e k" by auto
    then show ?thesis by blast
  qed
qed

section \<open>A session lasts\<close>

text \<open>The calls that may end or replace the session at \<open>k\<close> before \<open>until\<close>.\<close>

definition spares :: "'l limiter_lib \<Rightarrow> (bytes \<Rightarrow> bytes) \<Rightarrow> bytes \<Rightarrow> time \<Rightarrow> 'l manager \<Rightarrow> call \<Rightarrow> bool" where
  "spares lib sha k until m c \<longleftrightarrow>
     \<not> closes sha c k
     \<and> (case c of
          CallLogin now r1 r2 candidate ip \<Rightarrow>
            now < until \<and> (\<forall>raw csrf. snd (Login lib sha now r1 r2 candidate ip m) = Inr (raw, csrf) \<longrightarrow> sha raw \<noteq> k)
        | CallLookup now raw \<Rightarrow> now < until
        | CallCSRF now raw csrf \<Rightarrow> now < until
        | CallLogout raw \<Rightarrow> True
        | CallActive now \<Rightarrow> now < until)"

lemma run_call_spares:
  assumes ok: "manager_ok m" and r: "row_of sr_key k (mg_sessions m) = Some r"
    and sp: "spares lib sha k (sr_expires r) m c"
  shows "row_of sr_key k (mg_sessions (run_call lib sha c m)) = Some r"
proof (cases c)
  case (CallLogin now r1 r2 candidate ip)
  obtain m' x where l: "Login lib sha now r1 r2 candidate ip m = (m', x)" by fastforce
  obtain m1 a where al: "allowLogin lib ip now m = (m1, a)" by fastforce
  have row: "row_of sr_key k (mg_sessions (sweepLocked now m1)) = Some r" "row_of sr_key k (mg_sessions m1) = Some r"
    using sweepLocked_row [OF allowLogin_ok [OF ok al], of k now r] allowLogin_fields [OF al] r sp CallLogin
    by (auto simp: spares_def)
  from l show ?thesis
    by (cases rule: Login_cases) (use l CallLogin al row sp in \<open>auto simp: spares_def put_session_row\<close>)
next
  case (CallLookup now raw)
  then show ?thesis using r sp sweepLocked_row [OF ok, of k now r] by (simp add: Lookup_state [OF ok] spares_def)
next
  case (CallCSRF now raw csrf)
  have "fst (CSRFMatches sha now raw csrf m) = sweepLocked now m"
    by (auto simp: CSRFMatches_def Let_def split: option.split)
  with CallCSRF show ?thesis using r sp sweepLocked_row [OF ok, of k now r] by (simp add: spares_def)
next
  case (CallLogout raw)
  then show ?thesis using r sp by (auto simp: Logout_def spares_def closes_def row_of_delete)
next
  case (CallActive now)
  then show ?thesis using r sp sweepLocked_row [OF ok, of k now r] by (simp add: ActiveSessions_def Let_def spares_def)
qed

fun all_spare :: "'l limiter_lib \<Rightarrow> (bytes \<Rightarrow> bytes) \<Rightarrow> bytes \<Rightarrow> time \<Rightarrow> 'l manager \<Rightarrow> call list \<Rightarrow> bool" where
  "all_spare lib sha k until m [] = True"
| "all_spare lib sha k until m (c # cs) \<longleftrightarrow>
     spares lib sha k until m c \<and> all_spare lib sha k until (run_call lib sha c m) cs"

lemma session_lasts:
  assumes "manager_ok m" "row_of sr_key k (mg_sessions m) = Some r" "all_spare lib sha k (sr_expires r) m cs"
  shows "row_of sr_key k (mg_sessions (run_calls lib sha cs m)) = Some r"
  using assms
proof (induction cs arbitrary: m)
  case (Cons c cs)
  then have "row_of sr_key k (mg_sessions (run_calls lib sha cs (run_call lib sha c m))) = Some r"
    by (intro Cons.IH) (simp_all add: run_call_spares manager_ok_run_call)
  then show ?case by (simp add: run_calls_def)
qed simp

lemma Lookup_row:
  assumes "manager_ok m"
  shows "snd (Lookup sha now raw m) =
    (case row_of sr_key (sha raw) (mg_sessions m) of
       None \<Rightarrow> None
     | Some r \<Rightarrow> if now < sr_expires r then Some \<lparr>CSRFToken = sr_csrf r, SessionExpiresAt = sr_expires r\<rparr> else None)"
proof (cases "row_of sr_key (sha raw) (mg_sessions (sweepLocked now m))")
  case None
  then have "\<not> (\<exists>r. row_of sr_key (sha raw) (mg_sessions m) = Some r \<and> now < sr_expires r)"
    using sweepLocked_row [OF assms, of "sha raw" now] by auto
  with None show ?thesis by (auto simp: Lookup_def Let_def split: option.split)
next
  case (Some r)
  then show ?thesis using sweepLocked_row [OF assms, of "sha raw" now r] by (simp add: Lookup_def Let_def)
qed

section \<open>Login attempts\<close>

record attempt =
  at_time :: time
  at_ip :: string
  at_rnd1 :: "bytes option"
  at_rnd2 :: "bytes option"
  at_candidate :: string

text \<open>A login attempt passes when the limit lets its token be compared.\<close>

definition attempt_step ::
  "'l limiter_lib \<Rightarrow> (bytes \<Rightarrow> bytes) \<Rightarrow> attempt \<Rightarrow> 'l manager \<Rightarrow> 'l manager \<times> bool" where
  "attempt_step lib sha a m =
     (fst (Login lib sha (at_time a) (at_rnd1 a) (at_rnd2 a) (at_candidate a) (at_ip a) m),
      snd (allowLogin lib (at_ip a) (at_time a) m))"

definition login_limiter :: "'l limiter_lib \<Rightarrow> string \<Rightarrow> 'l manager \<Rightarrow> 'l" where
  "login_limiter lib ip m =
     (case row_of le_key ip (mg_logins m) of
        None \<Rightarrow> new_limiter lib loginInterval loginBurst | Some e \<Rightarrow> le_limiter e)"

definition tried_since :: "time \<Rightarrow> string \<Rightarrow> 'l manager \<Rightarrow> bool" where
  "tried_since t0 ip m \<longleftrightarrow> (\<forall>e. row_of le_key ip (mg_logins m) = Some e \<longrightarrow> t0 \<le> le_last e)"

lemma long_idle_login: "time_sub now seen \<ge> loginIdleTTL \<Longrightarrow> seen + loginIdleTTL \<le> now"
  by (auto simp: time_sub_def loginIdleTTL_def minute_def second_def)

lemma sweep_logins_row:
  assumes "tried_since t0 ip m" "manager_ok m"
  shows "row_of le_key ip (mg_logins (sweep_logins now m)) = row_of le_key ip (mg_logins m)
    \<or> row_of le_key ip (mg_logins (sweep_logins now m)) = None \<and> t0 + loginIdleTTL \<le> now"
proof (cases "row_of le_key ip (mg_logins m)")
  case None
  then show ?thesis by (simp add: sweep_logins_def row_of_filter_None)
next
  case (Some e)
  show ?thesis
  proof (cases "time_sub now (le_last e) \<ge> loginIdleTTL")
    case True
    with assms(1) Some long_idle_login have "t0 + loginIdleTTL \<le> now" by (fastforce simp: tried_since_def)
    moreover have "distinct (map le_key (mg_logins m))" using assms(2) by (simp add: manager_ok_def)
    then have "row_of le_key ip (filter (\<lambda>e. \<not> time_sub now (le_last e) \<ge> loginIdleTTL) (mg_logins m)) \<noteq> Some w" for w
      using Some True by (auto simp: row_of_filter_Some_iff)
    then have "row_of le_key ip (filter (\<lambda>e. \<not> time_sub now (le_last e) \<ge> loginIdleTTL) (mg_logins m)) = None"
      by (metis not_None_eq)
    ultimately show ?thesis by (simp add: sweep_logins_def)
  next
    case False
    with Some show ?thesis by (simp add: sweep_logins_def row_of_filter_Some)
  qed
qed

lemma Login_logins:
  "mg_logins (fst (Login lib sha now r1 r2 candidate ip m)) = mg_logins (fst (allowLogin lib ip now m))"
proof (cases "Login lib sha now r1 r2 candidate ip m")
  case (Pair m' r)
  then show ?thesis by (cases rule: Login_cases) (use Pair in auto)
qed

text \<open>The limiter of an address after the sweep: the old one, or a new one after a time out of use.\<close>

lemma sweep_logins_limiter:
  assumes "tried_since t0 k m" "manager_ok m" "t0 \<le> now"
  obtains l t1 where "login_limiter lib k (sweep_logins now m) = l" "tried_since t1 k (sweep_logins now m)" "t1 \<le> now"
    "l = login_limiter lib k m \<and> t1 = t0
      \<or> l = new_limiter lib loginInterval loginBurst \<and> t0 + loginIdleTTL \<le> now \<and> t1 = now"
proof (cases "row_of le_key k (mg_logins (sweep_logins now m)) = row_of le_key k (mg_logins m)")
  case True
  with assms(1,3) show thesis
    by (intro that [of "login_limiter lib k m" t0]) (simp_all add: login_limiter_def tried_since_def)
next
  case False
  with sweep_logins_row [OF assms(1,2), of now] have "row_of le_key k (mg_logins (sweep_logins now m)) = None"
    "t0 + loginIdleTTL \<le> now" by auto
  then show thesis
    by (intro that [of "new_limiter lib loginInterval loginBurst" now]) (simp_all add: login_limiter_def tried_since_def)
qed

lemma allowLogin_limiter:
  assumes al: "allowLogin lib ip now m = (m', b)" and s: "tried_since t0 k m" "manager_ok m" "t0 \<le> now"
  shows "\<exists>l t1. (l = login_limiter lib k m \<and> t1 = t0
      \<or> l = new_limiter lib loginInterval loginBurst \<and> t0 + loginIdleTTL \<le> now \<and> t1 = now)
    \<and> (login_limiter lib k m' = l \<and> tried_since t1 k m' \<and> (ip = k \<longrightarrow> \<not> b)
      \<or> (\<exists>ok. allow_one lib l now = (ok, login_limiter lib k m') \<and> tried_since now k m' \<and> (ip = k \<and> b \<longrightarrow> ok)))"
proof -
  from sweep_logins_limiter [OF s] obtain l t1 where l: "login_limiter lib k (sweep_logins now m) = l"
    "tried_since t1 k (sweep_logins now m)" "t1 \<le> now" "l = login_limiter lib k m \<and> t1 = t0
      \<or> l = new_limiter lib loginInterval loginBurst \<and> t0 + loginIdleTTL \<le> now \<and> t1 = now" by blast
  from al show ?thesis
  proof (cases rule: allowLogin_cases)
    case full
    with l show ?thesis by blast
  next
    case (asked es e x)
    show ?thesis
    proof (cases "ip = k")
      case True
      have "l = le_limiter e"
        using asked(1,3) l(1) True by (auto simp: login_limiter_def row_of_append row_of_Cons split: if_splits option.splits)
      moreover have "row_of le_key k (mg_logins m') = Some (e\<lparr>le_last := now, le_limiter := x\<rparr>)"
        using asked(3,5) True by (simp add: row_of_update)
      ultimately have "allow_one lib l now = (b, login_limiter lib k m')" "tried_since now k m'"
        using asked(4) by (simp_all add: login_limiter_def tried_since_def)
      with l(4) show ?thesis by blast
    next
      case False
      have "row_of le_key k es = row_of le_key k (mg_logins (sweep_logins now m))"
        using asked(1) False by (auto simp: row_of_append row_of_Cons split: option.splits)
      then have "row_of le_key k (mg_logins m') = row_of le_key k (mg_logins (sweep_logins now m))"
        using asked(5) False by (simp add: row_of_update)
      then have "login_limiter lib k m' = l" "tried_since t1 k m'"
        using l(1,2) by (simp_all add: login_limiter_def tried_since_def)
      with l(4) False show ?thesis by blast
    qed
  qed
qed

text \<open>The address asks its limiter at every attempt, and no other attempt touches it.\<close>

interpretation login: behind_limiter lib "attempt_step lib sha" at_time "\<lambda>a m. at_ip a = k"
    "login_limiter lib k" loginInterval loginBurst loginIdleTTL manager_ok "\<lambda>t m. tried_since t k m" for lib sha k
proof (unfold_locales, goal_cases)
  case (3 s t0 e s' b)
  obtain m1 b1 where al: "allowLogin lib (at_ip e) (at_time e) s = (m1, b1)" by fastforce
  have s': "s' = fst (Login lib sha (at_time e) (at_rnd1 e) (at_rnd2 e) (at_candidate e) (at_ip e) s)" "b = b1"
    using 3(4) al by (auto simp: attempt_step_def)
  have same: "mg_logins s' = mg_logins m1" using Login_logins al s' by (metis fst_conv)
  then have "login_limiter lib k s' = login_limiter lib k m1" "tried_since t k s' = tried_since t k m1" for t
    by (simp_all add: login_limiter_def tried_since_def)
  moreover have "manager_ok s'" using 3(1) s' by (simp add: manager_ok_Login)
  ultimately show ?case using allowLogin_limiter [OF al 3(2,1,3)] s'(2) by simp
qed (simp_all add: loginInterval_def loginBurst_def loginIdleTTL_def minute_def second_def)

end
