(* ===== verification/AdminProps.thy ===== *)
theory AdminProps
  imports AdminTrace AbuseProps
begin

text \<open>
  The properties of the Superadmin session manager of \<open>internal/admin\<close>: a session is opened only
  by a login with the administrator token, lasts until it expires, and an address cannot try
  tokens faster than the login limit.
\<close>

text \<open>Concrete inputs: one token, two cookies.\<close>

definition sample_hash :: "bytes \<Rightarrow> bytes" where
  "sample_hash b = b"

definition admin_token_text :: string where
  "admin_token_text = ''up_a1_YmJiYmJiYmJiYmJiYmJiYmJiYmJiYmJiYmJiYmJiYmI''"

definition sample_manager :: "bucket manager" where
  "sample_manager = NewManager (sample_hash admin_token_text) 0 True"

definition cookie :: string where
  "cookie = ''Y2NjY2NjY2NjY2NjY2NjY2NjY2NjY2NjY2NjY2NjY2M''"

definition csrf_token :: string where
  "csrf_token = ''ZGRkZGRkZGRkZGRkZGRkZGRkZGRkZGRkZGRkZGRkZGQ''"

definition sample_login :: "time \<Rightarrow> call" where
  "sample_login t = CallLogin t (Some (replicate 32 (CHR ''c''))) (Some (replicate 32 (CHR ''d'')))
     admin_token_text ''203.0.113.7''"

section \<open>Where a session comes from\<close>

lemma Lookup_Some:
  assumes "manager_ok m" "snd (Lookup sha now raw m) = Some s"
  obtains r where "row_of sr_key (sha raw) (mg_sessions m) = Some r" "now < sr_expires r"
    "s = \<lparr>CSRFToken = sr_csrf r, SessionExpiresAt = sr_expires r\<rparr>"
  using assms(2) by (auto simp: Lookup_row [OF assms(1)] split: option.splits if_splits)

lemma opens_login:
  assumes "opens lib sha c m r"
  obtains t r1 r2 candidate ip raw where "c = CallLogin t r1 r2 candidate ip"
    "VerifyToken sha candidate (mg_verifier m)" "sr_expires r = t + mg_ttl m"
    "snd (Login lib sha t r1 r2 candidate ip m) = Inr (raw, sr_csrf r)" "sha raw = sr_key r"
  using assms by (cases c) (auto simp: opens_def)

text \<open>C23: Whatever calls were made on a fresh manager, a cookie that opens a session was handed out
  by a successful login that presented the administrator token itself (as long as no other token
  has its hash), with the CSRF token of that login, less than the session lifetime ago, and the
  session has not been logged out since.\<close>

theorem session_needs_token:
  assumes "admin_accepts token" and "\<And>w. admin_accepts w \<Longrightarrow> sha w = sha token \<Longrightarrow> w = token"
    and "snd (Lookup sha now raw (run_calls lib sha cs (NewManager (sha token) ttl secure))) = Some s"
  shows "\<exists>pre t r1 r2 ip post raw'. cs = pre @ CallLogin t r1 r2 token ip # post
    \<and> snd (Login lib sha t r1 r2 token ip (run_calls lib sha pre (NewManager (sha token) ttl secure)))
        = Inr (raw', CSRFToken s)
    \<and> sha raw' = sha raw \<and> (\<forall>d\<in>set post. \<not> closes sha d (sha raw)) \<and> now < SessionExpiresAt s
    \<and> SessionExpiresAt s = t + (if ttl \<le> 0 then defaultSessionTTL else ttl)"
proof -
  let ?m0 = "NewManager (sha token) ttl secure"
  have ok: "manager_ok ?m0" by (rule manager_ok_New)
  obtain r where r: "row_of sr_key (sha raw) (mg_sessions (run_calls lib sha cs ?m0)) = Some r"
    "now < sr_expires r" "s = \<lparr>CSRFToken = sr_csrf r, SessionExpiresAt = sr_expires r\<rparr>"
    using Lookup_Some [OF manager_ok_run_calls [OF ok] assms(3)] by blast
  have key: "sr_key r = sha raw" using row_of_SomeD [OF r(1)] by simp
  have "row_of sr_key (sha raw) (mg_sessions ?m0) = None" by (simp add: NewManager_def)
  from session_from_login [OF ok r(1) this] obtain pre c post where
    c: "cs = pre @ c # post" "opens lib sha c (run_calls lib sha pre ?m0) r"
    "\<forall>d\<in>set post. \<not> closes sha d (sha raw)" by blast
  from opens_login [OF c(2)] obtain t r1 r2 candidate ip raw' where
    o: "c = CallLogin t r1 r2 candidate ip" "VerifyToken sha candidate (mg_verifier (run_calls lib sha pre ?m0))"
    "sr_expires r = t + mg_ttl (run_calls lib sha pre ?m0)"
    "snd (Login lib sha t r1 r2 candidate ip (run_calls lib sha pre ?m0)) = Inr (raw', sr_csrf r)"
    "sha raw' = sr_key r" by metis
  have f: "mg_verifier (run_calls lib sha pre ?m0) = sha token"
    "mg_ttl (run_calls lib sha pre ?m0) = (if ttl \<le> 0 then defaultSessionTTL else ttl)"
    using run_calls_fixed [of lib sha pre ?m0] by (simp_all add: NewManager_def)
  have "candidate = token" using o(2) superadmin.verify_unique [OF assms(1,2)] f(1) by simp
  with c o r f key show ?thesis by fastforce
qed

lemma admin_token_accepted: "admin_accepts admin_token_text"
  by code_simp

lemma session_needs_token_witness:
  "\<exists>pre t r1 r2 ip post raw'. [sample_login 0, CallActive 5] = pre @ CallLogin t r1 r2 admin_token_text ip # post
    \<and> snd (Login bucket_lib sample_hash t r1 r2 admin_token_text ip (run_calls bucket_lib sample_hash pre sample_manager))
        = Inr (raw', csrf_token)
    \<and> sample_hash raw' = sample_hash cookie"
proof -
  have "snd (Lookup sample_hash 10 cookie (run_calls bucket_lib sample_hash [sample_login 0, CallActive 5]
      (NewManager (sample_hash admin_token_text) 0 True)))
    = Some \<lparr>CSRFToken = csrf_token, SessionExpiresAt = 28800000000000\<rparr>"
    by code_simp
  from session_needs_token [OF admin_token_accepted _ this] show ?thesis
    unfolding sample_manager_def by (fastforce simp: sample_hash_def)
qed

section \<open>A session lasts\<close>

text \<open>C24: A login that succeeds opens a session that lasts: whatever other calls follow before it
  expires, as long as none logs it out and no other login draws a cookie with the same hash, its
  cookie looks it up with its CSRF token and expiry, and a CSRF check accepts exactly that token.\<close>

theorem session_lasts_until_expiry:
  assumes "manager_ok m" and "Login lib sha t r1 r2 candidate ip m = (m1, Inr (raw, csrf))"
    and "all_spare lib sha (sha raw) (t + mg_ttl m) m1 cs" and "now < t + mg_ttl m"
  shows "snd (Lookup sha now raw (run_calls lib sha cs m1))
      = Some \<lparr>CSRFToken = csrf, SessionExpiresAt = t + mg_ttl m\<rparr>
    \<and> (snd (CSRFMatches sha now raw x (run_calls lib sha cs m1)) \<longleftrightarrow> x = csrf)"
proof -
  let ?r = "\<lparr>sr_key = sha raw, sr_csrf = csrf, sr_expires = t + mg_ttl m\<rparr>"
  have ok1: "manager_ok m1" using manager_ok_Login [OF assms(1)] assms(2) by (metis fst_conv)
  from assms(2) have "row_of sr_key (sha raw) (mg_sessions m1) = Some ?r"
    by (cases rule: Login_cases) (auto simp: put_session_row)
  from session_lasts [OF ok1 this] assms(3)
  have row: "row_of sr_key (sha raw) (mg_sessions (run_calls lib sha cs m1)) = Some ?r" by simp
  have ok2: "manager_ok (run_calls lib sha cs m1)" by (rule manager_ok_run_calls [OF ok1])
  have "row_of sr_key (sha raw) (mg_sessions (sweepLocked now (run_calls lib sha cs m1))) = Some ?r"
    using sweepLocked_row [OF ok2, of "sha raw" now ?r] row assms(4) by simp
  then show ?thesis
    using row assms(4) by (auto simp: Lookup_row [OF ok2] CSRFMatches_def Let_def)
qed

lemma session_lasts_until_expiry_witness:
  "snd (Lookup sample_hash 28799999999999 cookie (run_calls bucket_lib sample_hash
      [CallLogout ''other'', CallLookup 77 ''other''] (fst (Login bucket_lib sample_hash 0
        (Some (replicate 32 (CHR ''c''))) (Some (replicate 32 (CHR ''d''))) admin_token_text ''203.0.113.7'' sample_manager))))
    = Some \<lparr>CSRFToken = csrf_token, SessionExpiresAt = 28800000000000\<rparr>"
proof -
  let ?l = "Login bucket_lib sample_hash 0 (Some (replicate 32 (CHR ''c''))) (Some (replicate 32 (CHR ''d'')))
    admin_token_text ''203.0.113.7'' sample_manager"
  have r: "snd ?l = Inr (cookie, csrf_token)" by code_simp
  have sp: "all_spare bucket_lib sample_hash (sample_hash cookie) 28800000000000 (fst ?l)
    [CallLogout ''other'', CallLookup 77 ''other'']"
    by (simp add: spares_def closes_def sample_hash_def cookie_def)
  have ttl: "mg_ttl sample_manager = 28800000000000" by code_simp
  have ok: "manager_ok sample_manager" unfolding sample_manager_def by (rule manager_ok_New)
  have "?l = (fst ?l, Inr (cookie, csrf_token))" using r by (metis prod.collapse)
  from session_lasts_until_expiry [OF ok this, of _ 28799999999999] sp ttl show ?thesis by simp
qed

section \<open>How fast tokens can be tried\<close>

text \<open>C25: An address cannot try tokens faster than the login limit, not even by pausing, whatever other
  addresses do in between: whatever attempts there have been since the manager was made, of the
  attempts of an address in any window that follows, however long, at most five and one more per 12 s
  get as far as the comparison of the token; the others are answered as rate limited.  An entry is
  dropped, and its limiter replaced, only after ten minutes without an attempt of the address.\<close>

theorem login_attempts_bound:
  assumes "limiter_ok lib" and "sorted (map at_time (past @ as))" and "as \<noteq> []"
  shows "passed (attempt_step lib sha) (\<lambda>a m. at_ip a = ip) as (run_events (attempt_step lib sha) past (NewManager verifier ttl secure))
      \<le> loginBurst + nat ((at_time (last as) - at_time (hd as)) div loginInterval)
    \<and> (\<not> snd (attempt_step lib sha a m) \<longrightarrow>
        snd (Login lib sha (at_time a) (at_rnd1 a) (at_rnd2 a) (at_candidate a) (at_ip a) m) = Inl ErrRateLimited)"
proof
  show "passed (attempt_step lib sha) (\<lambda>a m. at_ip a = ip) as (run_events (attempt_step lib sha) past (NewManager verifier ttl secure))
      \<le> loginBurst + nat ((at_time (last as) - at_time (hd as)) div loginInterval)"
    using assms manager_ok_New [of verifier ttl secure]
    by (intro login.passed_bound) (simp_all add: login_limiter_def tried_since_def NewManager_def)
  show "\<not> snd (attempt_step lib sha a m) \<longrightarrow>
      snd (Login lib sha (at_time a) (at_rnd1 a) (at_rnd2 a) (at_candidate a) (at_ip a) m) = Inl ErrRateLimited"
    by (auto simp: attempt_step_def Login_def split: prod.splits bool.splits)
qed

text \<open>Guesses once a second for 24 seconds, after a first series more than ten minutes before.\<close>

definition guesses :: "nat list \<Rightarrow> attempt list" where
  "guesses = map (\<lambda>n. \<lparr>at_time = int n * second, at_ip = ''203.0.113.7'', at_rnd1 = None, at_rnd2 = None,
     at_candidate = ''guess''\<rparr>)"

lemma login_attempts_bound_witness:
  "passed (attempt_step bucket_lib sample_hash) (\<lambda>a m. at_ip a = ''203.0.113.7'') (guesses [700..<724])
     (run_events (attempt_step bucket_lib sample_hash) (guesses [0..<24]) sample_manager) \<le> 6"
proof -
  have s: "sorted (map at_time (guesses [0..<24] @ guesses [700..<724]))" "guesses [700..<724] \<noteq> []" by code_simp+
  have v: "loginBurst + nat ((at_time (last (guesses [700..<724])) - at_time (hd (guesses [700..<724]))) div loginInterval) = 6"
    by code_simp
  show ?thesis
    using login_attempts_bound [OF bucket_ok s, of sample_hash "''203.0.113.7''"] v unfolding sample_manager_def by metis
qed

text \<open>C26: The state of the manager stays bounded whatever is called on it: at most 64 sessions and
  4096 login limits, one for each key.\<close>

theorem manager_bounded:
  shows "manager_ok (run_calls lib sha cs (NewManager verifier ttl secure))
    \<and> length (mg_sessions (run_calls lib sha cs (NewManager verifier ttl secure))) \<le> 64
    \<and> length (mg_logins (run_calls lib sha cs (NewManager verifier ttl secure))) \<le> 4096"
  using manager_ok_run_calls [OF manager_ok_New [of verifier ttl secure], of lib sha cs]
  by (simp add: manager_ok_def maxSessions_def maxLoginIPs_def)

end
