(* ===== verification/Json.thy ===== *)
theory Json
  imports Encoding
begin

text \<open>
  UTF-8 and JSON as the packages \<open>unicode/utf8\<close>, \<open>encoding/json/v2\<close> (request bodies of the public
  API) and \<open>encoding/json\<close> (responses, and request bodies of the administrator API) treat them.
  A decoded string is again its UTF-8 bytes.  The main result is that a decoder reads back what
  the encoder writes.
\<close>

section \<open>UTF-8\<close>

definition byte_in :: "char \<Rightarrow> nat \<Rightarrow> nat \<Rightarrow> bool" where
  "byte_in c a b \<longleftrightarrow> a \<le> byte c \<and> byte c \<le> b"

text \<open>The length of the rune at the front, 0 when there is none (\<open>utf8.DecodeRune\<close> reports
  \<open>RuneError\<close> with width one or zero).\<close>

definition rune_len :: "string \<Rightarrow> nat" where
  "rune_len s =
     (case s of
        [] \<Rightarrow> 0
      | a # r \<Rightarrow>
          if byte a < 128 then 1
          else (case r of
            [] \<Rightarrow> 0
          | b # r1 \<Rightarrow>
              if byte_in a 194 223 then (if byte_in b 128 191 then 2 else 0)
              else (case r1 of
                [] \<Rightarrow> 0
              | c # r2 \<Rightarrow>
                  if byte_in a 224 239
                  then (if byte_in b (if byte a = 224 then 160 else 128) (if byte a = 237 then 159 else 191)
                          \<and> byte_in c 128 191 then 3 else 0)
                  else (case r2 of
                    [] \<Rightarrow> 0
                  | d # r3 \<Rightarrow>
                      if byte_in a 240 244 \<and> byte_in b (if byte a = 240 then 144 else 128) (if byte a = 244 then 143 else 191)
                         \<and> byte_in c 128 191 \<and> byte_in d 128 191 then 4 else 0))))"

lemma rune_len_Nil [simp]: "rune_len [] = 0"
  by (simp add: rune_len_def)

lemma rune_len_ascii [simp]: "byte c < 128 \<Longrightarrow> rune_len (c # s) = 1"
  by (simp add: rune_len_def)

lemma rune_len_high:
  assumes "128 \<le> byte c"
  shows "rune_len (c # s) \<in> {0, 2, 3, 4} \<and> rune_len (c # s) \<le> length (c # s)"
proof (cases s)
  case (Cons b r1)
  show ?thesis
  proof (cases r1)
    case Nil
    with Cons assms show ?thesis by (simp add: rune_len_def)
  next
    case (Cons d r2)
    note r1 = Cons
    show ?thesis
    proof (cases r2)
      case Nil
      with \<open>s = b # r1\<close> r1 assms show ?thesis by (simp add: rune_len_def)
    next
      case (Cons e r3)
      with \<open>s = b # r1\<close> r1 assms show ?thesis by (simp add: rune_len_def)
    qed
  qed
qed (use assms in \<open>simp add: rune_len_def\<close>)

lemma rune_len_le: "rune_len s \<le> length s"
proof (cases s)
  case (Cons c r)
  then show ?thesis using rune_len_high [of c r] by (cases "byte c < 128") auto
qed simp

lemma rune_len_take:
  assumes "0 < rune_len s"
  shows "rune_len (take (rune_len s) s @ t) = rune_len s"
proof (cases s)
  case (Cons a r)
  show ?thesis
  proof (cases "byte a < 128")
    case False
    then have "rune_len s = 2 \<or> rune_len s = 3 \<or> rune_len s = 4" and len: "rune_len s \<le> length s"
      using rune_len_high [of a r] rune_len_le [of s] Cons assms by auto
    then show ?thesis
    proof (elim disjE)
      assume 2: "rune_len s = 2"
      with len Cons obtain b q where "r = b # q" by (cases r) auto
      with 2 Cons False show ?thesis by (auto simp: rune_len_def split: list.splits if_splits)
    next
      assume 3: "rune_len s = 3"
      with len Cons obtain b c q where "r = b # c # q" by (cases r; cases "tl r") auto
      with 3 Cons False show ?thesis by (auto simp: rune_len_def split: list.splits if_splits)
    next
      assume 4: "rune_len s = 4"
      with len Cons obtain b c d q where "r = b # c # d # q" by (cases r; cases "tl r"; cases "tl (tl r)") auto
      with 4 Cons False show ?thesis by (auto simp: rune_len_def split: if_splits)
    qed
  qed (use Cons in simp)
qed (use assms in simp)

text \<open>\<open>utf8.ValidString\<close>\<close>

function valid_utf8 :: "string \<Rightarrow> bool" where
  "valid_utf8 s =
     (if s = [] then True else if rune_len s = 0 then False else valid_utf8 (drop (rune_len s) s))"
  by pat_completeness auto
termination
  by (relation "measure length") auto

declare valid_utf8.simps [simp del]

lemma valid_utf8_Nil [simp]: "valid_utf8 []"
  by (simp add: valid_utf8.simps)

lemma valid_utf8_induct [consumes 1, case_names Nil Rune]:
  assumes "valid_utf8 s" "P []"
    and "\<And>r s. r = take (rune_len (r @ s)) (r @ s) \<Longrightarrow> 0 < rune_len (r @ s) \<Longrightarrow> s = drop (rune_len (r @ s)) (r @ s)
           \<Longrightarrow> valid_utf8 s \<Longrightarrow> P s \<Longrightarrow> P (r @ s)"
  shows "P s"
  using assms(1)
proof (induction s rule: valid_utf8.induct)
  case (1 s)
  show ?case
  proof (cases "s = []")
    case False
    with 1(2) have v: "rune_len s \<noteq> 0" "valid_utf8 (drop (rune_len s) s)"
      by (simp_all add: valid_utf8.simps [of s] split: if_splits)
    have s: "take (rune_len s) s @ drop (rune_len s) s = s" by simp
    show ?thesis
      using assms(3) [of "take (rune_len s) s" "drop (rune_len s) s"] 1(1) [OF False v] v unfolding s by blast
  qed (simp add: assms(2))
qed

lemma valid_utf8_ascii: "list_all (\<lambda>c. byte c < 128) s \<Longrightarrow> valid_utf8 s"
  by (induction s) (simp_all add: valid_utf8.simps [of "_ # _"])

text \<open>\<open>utf8.AppendRune\<close> for a code point outside the surrogates.\<close>

definition encode_rune :: "nat \<Rightarrow> string" where
  "encode_rune n =
     map char_of
       (if n < 128 then [n]
        else if n < 2048 then [192 + n div 64, 128 + n mod 64]
        else if n < 65536 then [224 + n div 4096, 128 + n div 64 mod 64, 128 + n mod 64]
        else [240 + n div 262144, 128 + n div 4096 mod 64, 128 + n div 64 mod 64, 128 + n mod 64])"

definition replacement :: string where
  "replacement = encode_rune 65533"

section \<open>Values\<close>

datatype json =
    JNull
  | JBool bool
  | JNumber string
  | JString string
  | JArray "json list"
  | JObject "(string \<times> json) list"

section \<open>The encoder\<close>

text \<open>\<open>json.Encoder\<close> of \<open>encoding/json\<close> with its default HTML escaping.\<close>

definition unicode_escape :: "nat \<Rightarrow> string" where
  "unicode_escape n =
     CHR 0x5C # CHR ''u'' # map hex_digit [n div 4096 mod 16, n div 256 mod 16, n div 16 mod 16, n mod 16]"

definition escape_rune :: "string \<Rightarrow> string" where
  "escape_rune r =
     (case r of
        [c] \<Rightarrow>
          if c = CHR 0x22 \<or> c = CHR 0x5C then [CHR 0x5C, c]
          else if byte c = 8 then [CHR 0x5C, CHR ''b'']
          else if byte c = 9 then [CHR 0x5C, CHR ''t'']
          else if byte c = 10 then [CHR 0x5C, CHR ''n'']
          else if byte c = 12 then [CHR 0x5C, CHR ''f'']
          else if byte c = 13 then [CHR 0x5C, CHR ''r'']
          else if byte c < 32 \<or> c = CHR ''<'' \<or> c = CHR ''>'' \<or> c = CHR ''&'' then unicode_escape (byte c)
          else [c]
      | _ \<Rightarrow>
          if r = encode_rune 8232 then unicode_escape 8232
          else if r = encode_rune 8233 then unicode_escape 8233
          else r)"

function escape :: "string \<Rightarrow> string" where
  "escape s =
     (if s = [] then []
      else if rune_len s = 0 then unicode_escape 65533 @ escape (tl s)
      else escape_rune (take (rune_len s) s) @ escape (drop (rune_len s) s))"
  by pat_completeness auto
termination
  by (relation "measure length") auto

declare escape.simps [simp del]

definition quote :: "string \<Rightarrow> string" where
  "quote s = CHR 0x22 # escape s @ [CHR 0x22]"

fun encode_json :: "json \<Rightarrow> string" and encode_elems :: "json list \<Rightarrow> string"
  and encode_members :: "(string \<times> json) list \<Rightarrow> string" where
  "encode_json JNull = ''null''"
| "encode_json (JBool b) = (if b then ''true'' else ''false'')"
| "encode_json (JNumber n) = n"
| "encode_json (JString s) = quote s"
| "encode_json (JArray []) = ''[]''"
| "encode_json (JArray (v # vs)) = CHR ''['' # encode_json v @ encode_elems vs"
| "encode_json (JObject []) = ''{}''"
| "encode_json (JObject ((k, v) # ms)) = CHR ''{'' # quote k @ CHR '':'' # encode_json v @ encode_members ms"
| "encode_elems [] = '']''"
| "encode_elems (v # vs) = CHR '','' # encode_json v @ encode_elems vs"
| "encode_members [] = ''}''"
| "encode_members ((k, v) # ms) = CHR '','' # quote k @ CHR '':'' # encode_json v @ encode_members ms"

section \<open>The decoder\<close>

text \<open>\<open>lax\<close> selects \<open>encoding/json\<close>: ill-formed UTF-8 and unpaired surrogates become the replacement
  character and a repeated member name is accepted; \<open>encoding/json/v2\<close> rejects all three.\<close>

definition json_space :: "char \<Rightarrow> bool" where
  "json_space c \<longleftrightarrow> c = CHR '' '' \<or> byte c = 9 \<or> byte c = 10 \<or> byte c = 13"

definition skip_ws :: "string \<Rightarrow> string" where
  "skip_ws s = dropWhile json_space s"

definition hex4 :: "string \<Rightarrow> nat option" where
  "hex4 s =
     (case s of
        a # b # c # d # r \<Rightarrow>
          (case (unhex_digit a, unhex_digit b, unhex_digit c, unhex_digit d) of
             (Some w, Some x, Some y, Some z) \<Rightarrow> Some (((w * 16 + x) * 16 + y) * 16 + z)
           | _ \<Rightarrow> None)
      | _ \<Rightarrow> None)"

text \<open>The text after a backslash: its meaning and how many bytes it takes.\<close>

definition scan_escape :: "bool \<Rightarrow> string \<Rightarrow> (string \<times> nat) option" where
  "scan_escape lax s =
     (case s of
        [] \<Rightarrow> None
      | e # r \<Rightarrow>
          if e = CHR 0x22 \<or> e = CHR 0x5C \<or> e = CHR ''/'' then Some ([e], 1)
          else if e = CHR ''b'' then Some ([CHR 0x08], 1)
          else if e = CHR ''f'' then Some ([CHR 0x0C], 1)
          else if e = CHR ''n'' then Some ([CHR 0x0A], 1)
          else if e = CHR ''r'' then Some ([CHR 0x0D], 1)
          else if e = CHR ''t'' then Some ([CHR 0x09], 1)
          else if e = CHR ''u''
          then (case hex4 r of
                  None \<Rightarrow> None
                | Some n \<Rightarrow>
                    if n < 55296 \<or> 57344 \<le> n then Some (encode_rune n, 5)
                    else (case (if n < 56320 \<and> has_prefix (drop 4 r) [CHR 0x5C, CHR ''u''] then hex4 (drop 6 r) else None) of
                            None \<Rightarrow> if lax then Some (replacement, 5) else None
                          | Some m \<Rightarrow>
                              if 56320 \<le> m \<and> m < 57344
                              then Some (encode_rune (65536 + (n - 55296) * 1024 + (m - 56320)), 11)
                              else if lax then Some (replacement, 5) else None))
          else None)"

definition prepend :: "'a list \<Rightarrow> ('a list \<times> 'b) option \<Rightarrow> ('a list \<times> 'b) option" where
  "prepend t x = (case x of None \<Rightarrow> None | Some (s, r) \<Rightarrow> Some (t @ s, r))"

lemma prepend_Some [simp]: "prepend t (Some (s, r)) = Some (t @ s, r)"
  by (simp add: prepend_def)

text \<open>The rest of a string literal after its opening quote.\<close>

function scan_string :: "bool \<Rightarrow> string \<Rightarrow> (string \<times> string) option" where
  "scan_string lax [] = None"
| "scan_string lax (c # r) =
     (if c = CHR 0x22 then Some ([], r)
      else if c = CHR 0x5C
      then (case scan_escape lax r of None \<Rightarrow> None | Some (t, k) \<Rightarrow> prepend t (scan_string lax (drop k r)))
      else if byte c < 32 then None
      else if rune_len (c # r) = 0
      then (if lax then prepend replacement (scan_string lax r) else None)
      else prepend (take (rune_len (c # r)) (c # r)) (scan_string lax (drop (rune_len (c # r)) (c # r))))"
  by pat_completeness auto
termination
  by (relation "measure (\<lambda>(lax, s). length s)") auto

declare scan_string.simps(2) [simp del]

definition scan_number :: "string \<Rightarrow> (string \<times> string) option" where
  "scan_number s =
     (let sign = takeWhile (\<lambda>c. c = CHR ''-'') s;
          s1 = drop (length sign) s;
          int = takeWhile is_digit s1;
          s2 = dropWhile is_digit s1;
          frac = (case s2 of [] \<Rightarrow> [] | c # r \<Rightarrow> if c = CHR ''.'' then c # takeWhile is_digit r else []);
          s3 = drop (length frac) s2;
          expo = (case s3 of [] \<Rightarrow> []
                  | e # r \<Rightarrow>
                      if e = CHR ''e'' \<or> e = CHR ''E''
                      then (case r of [] \<Rightarrow> [e]
                            | g # q \<Rightarrow> if g = CHR ''+'' \<or> g = CHR ''-'' then e # g # takeWhile is_digit q
                                       else e # takeWhile is_digit r)
                      else [])
      in if length sign > 1 \<or> int = [] \<or> (hd int = CHR ''0'' \<and> length int > 1)
            \<or> length frac = 1 \<or> (expo \<noteq> [] \<and> \<not> is_digit (last expo))
         then None
         else Some (sign @ int @ frac @ expo, drop (length expo) s3))"

text \<open>The recursive calls are on what is left of the text; the comparisons of lengths always hold.\<close>

function (sequential) parse_value :: "bool \<Rightarrow> string \<Rightarrow> (json \<times> string) option"
  and parse_elems :: "bool \<Rightarrow> string \<Rightarrow> (json list \<times> string) option"
  and parse_members :: "bool \<Rightarrow> string \<Rightarrow> ((string \<times> json) list \<times> string) option" where
  "parse_value lax s =
     (case skip_ws s of
        [] \<Rightarrow> None
      | c # r \<Rightarrow>
          if c = CHR 0x22 then map_option (\<lambda>(t, r'). (JString t, r')) (scan_string lax r)
          else if c = CHR ''{''
          then (if has_prefix (skip_ws r) ''}'' then Some (JObject [], tl (skip_ws r))
                else if length r < length s
                then (case parse_members lax r of
                        None \<Rightarrow> None
                      | Some (ms, r') \<Rightarrow> if lax \<or> distinct (map fst ms) then Some (JObject ms, r') else None)
                else None)
          else if c = CHR ''[''
          then (if has_prefix (skip_ws r) '']'' then Some (JArray [], tl (skip_ws r))
                else if length r < length s
                then map_option (\<lambda>(vs, r'). (JArray vs, r')) (parse_elems lax r)
                else None)
          else if has_prefix (c # r) ''null'' then Some (JNull, drop 4 (c # r))
          else if has_prefix (c # r) ''true'' then Some (JBool True, drop 4 (c # r))
          else if has_prefix (c # r) ''false'' then Some (JBool False, drop 5 (c # r))
          else map_option (\<lambda>(t, r'). (JNumber t, r')) (scan_number (c # r)))"
| "parse_elems lax s =
     (case parse_value lax s of
        None \<Rightarrow> None
      | Some (v, r) \<Rightarrow>
          (case skip_ws r of
             [] \<Rightarrow> None
           | c # r' \<Rightarrow>
               if c = CHR '']'' then Some ([v], r')
               else if c = CHR '','' \<and> length r' < length s then prepend [v] (parse_elems lax r')
               else None))"
| "parse_members lax s =
     (case skip_ws s of
        [] \<Rightarrow> None
      | q # r \<Rightarrow>
          if q \<noteq> CHR 0x22 then None
          else (case scan_string lax r of
            None \<Rightarrow> None
          | Some (k, r1) \<Rightarrow>
              (case skip_ws r1 of
                 [] \<Rightarrow> None
               | d # r2 \<Rightarrow>
                   if d \<noteq> CHR '':'' \<or> \<not> length r2 < length s then None
                   else (case parse_value lax r2 of
                     None \<Rightarrow> None
                   | Some (v, r3) \<Rightarrow>
                       (case skip_ws r3 of
                          [] \<Rightarrow> None
                        | c # r4 \<Rightarrow>
                            if c = CHR ''}'' then Some ([(k, v)], r4)
                            else if c = CHR '','' \<and> length r4 < length s
                            then prepend [(k, v)] (parse_members lax r4)
                            else None)))))"
  by pat_completeness auto
termination
  by (relation "measure (\<lambda>x. case x of Inl (lax, s) \<Rightarrow> 2 * length s
        | Inr (Inl (lax, s)) \<Rightarrow> 2 * length s + 1 | Inr (Inr (lax, s)) \<Rightarrow> 2 * length s + 1)") auto

declare parse_value.simps [simp del] parse_elems.simps [simp del] parse_members.simps [simp del]

definition decode_json :: "bool \<Rightarrow> string \<Rightarrow> json option" where
  "decode_json lax s =
     (case parse_value lax s of
        None \<Rightarrow> None
      | Some (v, r) \<Rightarrow> if skip_ws r = [] then Some v else None)"

section \<open>The decoder reads what the encoder writes\<close>

lemma hex4_digits:
  assumes "n < 65536"
  shows "hex4 (map hex_digit [n div 4096 mod 16, n div 256 mod 16, n div 16 mod 16, n mod 16] @ t) = Some n"
proof -
  let ?a = "n div 16" let ?b = "?a div 16" let ?c = "?b div 16"
  have e: "n div 4096 = ?c" "n div 256 = ?b" by (simp_all add: div_mult2_eq [symmetric])
  have "?c < 16" using assms by (simp add: div_mult2_eq [symmetric] less_mult_imp_div_less)
  then have "((?c mod 16 * 16 + ?b mod 16) * 16 + ?a mod 16) * 16 + n mod 16 = n"
    by (simp only: mod_less div_mult_mod_eq)
  then show ?thesis by (simp add: hex4_def e)
qed

lemma scan_unicode_escape:
  assumes "n < 55296"
  shows "scan_string lax (unicode_escape n @ t) = prepend (encode_rune n) (scan_string lax t)"
proof -
  have "scan_escape lax (tl (unicode_escape n @ t)) = Some (encode_rune n, 5)"
    using hex4_digits [of n t] assms by (simp add: scan_escape_def unicode_escape_def)
  then show ?thesis by (simp add: unicode_escape_def scan_string.simps(2))
qed

lemma encode_rune_ascii: "byte c < 128 \<Longrightarrow> encode_rune (byte c) = [c]"
  by (simp add: encode_rune_def)

lemma scan_plain:
  assumes "c \<noteq> CHR 0x22" "c \<noteq> CHR 0x5C" "\<not> byte c < 32" "byte c < 128"
  shows "scan_string lax (c # t) = prepend [c] (scan_string lax t)"
  using assms by (simp add: scan_string.simps(2))

lemma scan_short:
  assumes "scan_escape lax (e # t) = Some (s, 1)"
  shows "scan_string lax (CHR 0x5C # e # t) = prepend s (scan_string lax t)"
  using assms by (simp add: scan_string.simps(2))

lemma byte_named:
  "byte c = 8 \<longleftrightarrow> c = CHR 0x08" "byte c = 9 \<longleftrightarrow> c = CHR 0x09" "byte c = 10 \<longleftrightarrow> c = CHR 0x0A"
  "byte c = 12 \<longleftrightarrow> c = CHR 0x0C" "byte c = 13 \<longleftrightarrow> c = CHR 0x0D"
  by (auto simp: byte_eq_iff [symmetric]) (simp_all add: byte_def)

lemma scan_rune:
  assumes r: "r = take (rune_len (r @ s)) (r @ s)" and pos: "0 < rune_len (r @ s)"
  shows "scan_string lax (escape_rune r @ t) = prepend r (scan_string lax t)"
proof (cases r)
  case Nil
  with r pos show ?thesis by (auto simp: take_eq_Nil)
next
  case (Cons c q)
  have len: "rune_len (r @ t) = length r" and l: "length r = rune_len (r @ s)"
    using rune_len_take [OF pos, of t] r rune_len_le [of "r @ s"] by (metis length_take min.absorb2)+
  show ?thesis
  proof (cases "byte c < 128")
    case True
    with len Cons have "q = []" by simp
    with Cons True show ?thesis
      using scan_unicode_escape [of "byte c" lax t] encode_rune_ascii [OF True]
      by (auto simp: escape_rune_def byte_named scan_short scan_escape_def scan_plain)
  next
    case False
    then have "2 \<le> length r" using rune_len_high [of c "q @ s"] Cons pos l by auto
    then obtain d p where q: "q = d # p" using Cons by (cases q) auto
    have e: "escape_rune r =
        (if r = encode_rune 8232 then unicode_escape 8232 else if r = encode_rune 8233 then unicode_escape 8233 else r)"
      using Cons q by (simp add: escape_rune_def)
    have "scan_string lax (r @ t) = prepend r (scan_string lax t)"
    proof -
      have "c \<noteq> CHR 0x22" "c \<noteq> CHR 0x5C" "\<not> byte c < 32" using False by (auto simp: byte_def)
      moreover have "0 < rune_len (c # q @ t)" "take (rune_len (c # q @ t)) (c # q @ t) = r"
        "drop (rune_len (c # q @ t)) (c # q @ t) = t" using len Cons by auto
      ultimately show ?thesis using Cons by (simp add: scan_string.simps(2))
    qed
    then show ?thesis
      using e scan_unicode_escape [of 8232 lax t] scan_unicode_escape [of 8233 lax t] by auto
  qed
qed

lemma escape_rune_step:
  assumes "r = take (rune_len (r @ s)) (r @ s)" "0 < rune_len (r @ s)" "s = drop (rune_len (r @ s)) (r @ s)"
  shows "escape (r @ s) = escape_rune r @ escape s"
  using assms by (subst escape.simps) (metis append_is_Nil_conv less_not_refl rune_len_Nil)

lemma scan_escape_string:
  "valid_utf8 s \<Longrightarrow> scan_string lax (escape s @ CHR 0x22 # t) = Some (s, t)"
proof (induction rule: valid_utf8_induct)
  case Nil
  then show ?case by (simp add: escape.simps scan_string.simps(2))
next
  case (Rune r s)
  then show ?case by (simp add: escape_rune_step [OF Rune(1,2,3)] scan_rune [OF Rune(1,2)])
qed

text \<open>Numbers\<close>

definition ends :: "string \<Rightarrow> bool" where
  "ends t \<longleftrightarrow> (case t of [] \<Rightarrow> True | c # r \<Rightarrow> c \<in> {CHR '','', CHR '']'', CHR ''}''} \<or> json_space c)"

lemma ends_next:
  assumes "ends t"
  shows "takeWhile is_digit t = []" "dropWhile is_digit t = t"
    "(case t of [] \<Rightarrow> [] | c # r \<Rightarrow> if c = CHR ''.'' then x c r else []) = []"
    "(case t of [] \<Rightarrow> [] | c # r \<Rightarrow> if c = CHR ''e'' \<or> c = CHR ''E'' then y c r else []) = []"
  using assms by (auto simp: ends_def is_digit_def json_space_def byte_def split: list.splits)

lemma format_nat_no_zero: "hd (format_nat n) = CHR ''0'' \<Longrightarrow> length (format_nat n) = 1"
proof (induction n rule: format_nat.induct)
  case (1 n)
  show ?case
  proof (cases "n < 10")
    case False
    then have e: "format_nat n = format_nat (n div 10) @ [char_of (48 + n mod 10)]" by (simp add: format_nat.simps [of n])
    obtain c q where f: "format_nat (n div 10) = c # q" using format_nat_head by blast
    with 1 e False have "c = CHR ''0''" "q = []" by auto
    with f have "digits_value (format_nat (n div 10)) = 0" by (simp add: digits_value_def)
    with False show ?thesis by (simp add: digits_value_format)
  qed (simp add: format_nat.simps [of n])
qed

lemma takeWhile_all: "list_all P xs \<Longrightarrow> takeWhile P ys = [] \<Longrightarrow> takeWhile P (xs @ ys) = xs \<and> dropWhile P (xs @ ys) = dropWhile P ys"
  by (induction xs) auto

lemma scan_number_format:
  assumes "ends t"
  shows "scan_number (format_int i @ t) = Some (format_int i, t)"
proof -
  have "\<exists>n sign. format_int i = sign @ format_nat n \<and> (sign = [] \<or> sign = [CHR ''-''])"
  proof (cases "i < 0")
    case True
    then have "format_int i = [CHR ''-''] @ format_nat (nat (- i))" by (simp add: format_int_def)
    then show ?thesis by blast
  next
    case False
    then have "format_int i = [] @ format_nat (nat i)" by (simp add: format_int_def)
    then show ?thesis by blast
  qed
  then obtain n sign where f: "format_int i = sign @ format_nat n" "sign = [] \<or> sign = [CHR ''-'']" by blast
  obtain c q where h: "format_nat n = c # q" "is_digit c" using format_nat_head by blast
  have d: "list_all is_digit (format_nat n)" using format_nat_digits by blast
  have "c \<noteq> CHR ''-''" using h(2) by (auto simp: is_digit_def)
  then have s: "takeWhile (\<lambda>c. c = CHR ''-'') (format_int i @ t) = sign" using f h by auto
  have tw: "takeWhile is_digit (format_nat n @ t) = format_nat n" "dropWhile is_digit (format_nat n @ t) = t"
    using takeWhile_all [OF d ends_next(1) [OF assms]] ends_next(2) [OF assms] by auto
  have z: "\<not> (hd (format_nat n) = CHR ''0'' \<and> length (format_nat n) > 1)" using format_nat_no_zero [of n] by auto
  show ?thesis
    unfolding scan_number_def Let_def s
    using f h(1) tw z by (auto simp: ends_next [OF assms])
qed

lemma format_int_start: "\<exists>c q. format_int i = c # q \<and> (is_digit c \<or> c = CHR ''-'')"
  using format_nat_head [of "nat i"] format_nat_head [of "nat (- i)"] by (auto simp: format_int_def)

text \<open>Values as the program writes them: valid strings, formatted integers, distinct member names.\<close>

fun json_ok :: "json \<Rightarrow> bool" and elems_ok :: "json list \<Rightarrow> bool" and members_ok :: "(string \<times> json) list \<Rightarrow> bool" where
  "json_ok JNull = True"
| "json_ok (JBool b) = True"
| "json_ok (JNumber n) = (\<exists>i. n = format_int i)"
| "json_ok (JString s) = valid_utf8 s"
| "json_ok (JArray vs) = elems_ok vs"
| "json_ok (JObject ms) = (distinct (map fst ms) \<and> members_ok ms)"
| "elems_ok [] = True"
| "elems_ok (v # vs) = (json_ok v \<and> elems_ok vs)"
| "members_ok [] = True"
| "members_ok ((k, v) # ms) = (valid_utf8 k \<and> json_ok v \<and> members_ok ms)"

lemma skip_ws_Cons [simp]: "skip_ws (c # s) = (if json_space c then skip_ws s else c # s)"
  by (simp add: skip_ws_def)

lemma json_space_simps [simp]:
  "\<not> json_space (CHR 0x22)" "\<not> json_space (CHR ''{'')" "\<not> json_space (CHR ''['')" "\<not> json_space (CHR ''}'')"
  "\<not> json_space (CHR '']'')" "\<not> json_space (CHR '','')" "\<not> json_space (CHR '':'')" "\<not> json_space (CHR ''n'')"
  "\<not> json_space (CHR ''t'')" "\<not> json_space (CHR ''f'')"
  by (simp_all add: json_space_def byte_def)

lemma encode_start:
  assumes "json_ok v"
  shows "\<exists>c q. encode_json v = c # q \<and> \<not> json_space c \<and> c \<noteq> CHR '']''"
proof (cases v)
  case (JNumber n)
  with assms obtain i where "n = format_int i" by auto
  with JNumber format_int_start [of i] show ?thesis by (auto simp: json_space_def is_digit_def byte_def)
next
  case (JArray vs)
  then show ?thesis by (cases vs) auto
next
  case (JObject ms)
  then show ?thesis by (cases ms) auto
qed (auto simp: quote_def)

lemma parse_null: "parse_value lax (''null'' @ t) = Some (JNull, t)"
  "parse_value lax (''true'' @ t) = Some (JBool True, t)" "parse_value lax (''false'' @ t) = Some (JBool False, t)"
  by (simp_all add: parse_value.simps has_prefix_def)

lemma parse_string: "valid_utf8 s \<Longrightarrow> parse_value lax (quote s @ t) = Some (JString s, t)"
  by (simp add: parse_value.simps quote_def scan_escape_string)

lemma parse_number:
  assumes "ends t"
  shows "parse_value lax (format_int i @ t) = Some (JNumber (format_int i), t)"
proof -
  obtain c q where f: "format_int i = c # q" "is_digit c \<or> c = CHR ''-''" using format_int_start by blast
  then have "\<not> json_space c" "c \<noteq> CHR 0x22" "c \<noteq> CHR ''{''" "c \<noteq> CHR ''[''" "c \<noteq> CHR ''n''" "c \<noteq> CHR ''t''" "c \<noteq> CHR ''f''"
    by (auto simp: json_space_def is_digit_def byte_def)
  then show ?thesis using scan_number_format [OF assms, of i] f(1) by (simp add: parse_value.simps has_prefix_def)
qed

lemma ends_elems: "ends (encode_elems vs @ t)"
  by (cases vs) (simp_all add: ends_def)

lemma ends_members: "ends (encode_members ms @ t)"
  by (cases ms) (auto simp: ends_def)

lemma parse_encoded:
  "json_ok v \<Longrightarrow> ends t \<Longrightarrow> parse_value lax (encode_json v @ t) = Some (v, t)"
  "elems_ok vs \<Longrightarrow> parse_value lax s = Some (w, encode_elems vs @ t) \<Longrightarrow> length (encode_elems vs @ t) \<le> length s
     \<Longrightarrow> parse_elems lax s = Some (w # vs, t)"
  "members_ok ms \<Longrightarrow> valid_utf8 k \<Longrightarrow> parse_value lax s = Some (w, encode_members ms @ t)
     \<Longrightarrow> length (encode_members ms @ t) \<le> length s
     \<Longrightarrow> parse_members lax (quote k @ CHR '':'' # s) = Some ((k, w) # ms, t)"
proof (induction v and vs and ms arbitrary: t and s w t and s w k t rule: encode_json_encode_elems_encode_members.induct)
  case (6 v vs)
  obtain c q where c: "encode_json v = c # q" "\<not> json_space c" "c \<noteq> CHR '']''" using encode_start [of v] 6 by auto
  have "parse_value lax (encode_json v @ encode_elems vs @ t) = Some (v, encode_elems vs @ t)"
    using 6 ends_elems by simp
  then have "parse_elems lax (encode_json v @ encode_elems vs @ t) = Some (v # vs, t)" using 6 by simp
  then show ?case using c by (simp add: parse_value.simps has_prefix_def)
next
  case (8 k v ms)
  have "parse_value lax (encode_json v @ encode_members ms @ t) = Some (v, encode_members ms @ t)"
    using 8 ends_members by simp
  then have "parse_members lax (quote k @ CHR '':'' # encode_json v @ encode_members ms @ t) = Some ((k, v) # ms, t)"
    using 8 by simp
  then show ?case using 8(3) by (simp add: parse_value.simps [of _ "CHR ''{'' # _"] has_prefix_def quote_def)
next
  case (10 v vs)
  have "parse_value lax (encode_json v @ encode_elems vs @ t) = Some (v, encode_elems vs @ t)"
    using 10 ends_elems by simp
  then have "parse_elems lax (encode_json v @ encode_elems vs @ t) = Some (v # vs, t)" using 10 by simp
  then show ?case using 10 by (simp add: parse_elems.simps [of _ s])
next
  case (12 k' v ms)
  have "parse_value lax (encode_json v @ encode_members ms @ t) = Some (v, encode_members ms @ t)"
    using 12 ends_members by simp
  then have "parse_members lax (quote k' @ CHR '':'' # encode_json v @ encode_members ms @ t) = Some ((k', v) # ms, t)"
    using 12 by simp
  then show ?case using 12 by (subst parse_members.simps) (simp add: quote_def scan_escape_string)
qed (auto simp: parse_null [simplified] parse_string [simplified quote_def, simplified] parse_number
       parse_value.simps [of _ "CHR ''['' # _"] parse_value.simps [of _ "CHR ''{'' # _"] has_prefix_def
       parse_elems.simps parse_members.simps quote_def scan_escape_string)

text \<open>\<open>json.Encoder\<close> ends the value with a newline.\<close>

theorem decode_encode_json:
  assumes "json_ok v"
  shows "decode_json lax (encode_json v @ [CHR 0x0A]) = Some v"
proof -
  have "ends [CHR 0x0A]" "skip_ws [CHR 0x0A] = []" by (simp_all add: ends_def json_space_def byte_def skip_ws_def)
  then show ?thesis using parse_encoded(1) [OF assms] by (simp add: decode_json_def)
qed

end
