(* ===== verification/Rfc3339.thy ===== *)
theory Rfc3339
  imports Prelude "HOL-Library.Monad_Syntax"
begin

text \<open>
  Time stamps in requests and responses: \<open>Time.Format\<close> and \<open>time.Parse\<close> with the layout
  \<open>time.RFC3339Nano\<close>, and the round trip between them.
\<close>

section \<open>The calendar\<close>

text \<open>Days since the epoch and proleptic Gregorian dates.  Years are counted from March, in cycles of
  400 years.\<close>

definition days_from_civil :: "int \<Rightarrow> int \<Rightarrow> int \<Rightarrow> int" where
  "days_from_civil y m d =
     (let y1 = (if m \<le> 2 then y - 1 else y);
          yoe = y1 mod 400;
          doy = (153 * (if m > 2 then m - 3 else m + 9) + 2) div 5 + d - 1
      in y1 div 400 * 146097 + (yoe * 365 + yoe div 4 - yoe div 100 + doy) - 719468)"

definition civil_from_days :: "int \<Rightarrow> int \<times> int \<times> int" where
  "civil_from_days z =
     (let doe = (z + 719468) mod 146097;
          c = min 3 (doe div 36524);
          doc = doe - 36524 * c;
          q = doc div 1461;
          doq = doc mod 1461;
          r = min 3 (doq div 365);
          doy = doq - 365 * r;
          mp = (5 * doy + 2) div 153;
          y = (z + 719468) div 146097 * 400 + 100 * c + 4 * q + r
      in if mp < 10 then (y, mp + 3, doy - (153 * mp + 2) div 5 + 1)
         else (y + 1, mp - 9, doy - (153 * mp + 2) div 5 + 1))"

definition is_leap :: "int \<Rightarrow> bool" where
  "is_leap y \<longleftrightarrow> y mod 4 = 0 \<and> (y mod 100 \<noteq> 0 \<or> y mod 400 = 0)"

definition days_in :: "int \<Rightarrow> int \<Rightarrow> int" where
  "days_in y m = (if m = 2 then (if is_leap y then 29 else 28) else if m \<in> {4, 6, 9, 11} then 30 else 31)"

section \<open>Formatting\<close>

definition pad :: "nat \<Rightarrow> int \<Rightarrow> string" where
  "pad n i =
     (let s = format_nat (nat (abs i))
      in (if i < 0 then [CHR ''-''] else []) @ replicate (n - length s) (CHR ''0'') @ s)"

definition trim_zeros :: "string \<Rightarrow> string" where
  "trim_zeros s = rev (dropWhile (\<lambda>c. c = CHR ''0'') (rev s))"

definition format_rfc3339 :: "time \<Rightarrow> string" where
  "format_rfc3339 t =
     (let ns = t mod 1000000000;
          secs = t div 1000000000;
          sod = secs mod 86400
      in case civil_from_days (secs div 86400) of
           (y, m, d) \<Rightarrow>
             pad 4 y @ ''-'' @ pad 2 m @ ''-'' @ pad 2 d @ ''T''
             @ pad 2 (sod div 3600) @ '':'' @ pad 2 (sod div 60 mod 60) @ '':'' @ pad 2 (sod mod 60)
             @ (if ns = 0 then [] else CHR ''.'' # trim_zeros (pad 9 ns)) @ ''Z'')"

section \<open>Parsing\<close>

text \<open>One or two digits, or exactly two.\<close>

definition getnum :: "bool \<Rightarrow> string \<Rightarrow> (int \<times> string) option" where
  "getnum fixed s =
     (case s of
        a # b # r \<Rightarrow>
          if \<not> is_digit a then None
          else if is_digit b then Some (int (digits_value [a, b]), r)
          else if fixed then None else Some (int (digits_value [a]), b # r)
      | [a] \<Rightarrow> if is_digit a \<and> \<not> fixed then Some (int (digits_value [a]), []) else None
      | [] \<Rightarrow> None)"

definition literal :: "string \<Rightarrow> string \<Rightarrow> string option" where
  "literal p s = (if has_prefix s p then Some (drop (length p) s) else None)"

definition in_range :: "int \<Rightarrow> int \<Rightarrow> int \<Rightarrow> unit option" where
  "in_range a b i = (if a \<le> i \<and> i \<le> b then Some () else None)"

definition get_year :: "string \<Rightarrow> (int \<times> string) option" where
  "get_year s =
     (if length s \<ge> 4 \<and> list_all is_digit (take 4 s) then Some (int (digits_value (take 4 s)), drop 4 s) else None)"

text \<open>A fraction of any number of digits after a point or comma, read to the nanosecond.\<close>

definition get_fraction :: "string \<Rightarrow> int \<times> string" where
  "get_fraction s =
     (case s of
        c # d # r \<Rightarrow>
          if (c = CHR ''.'' \<or> c = CHR '','') \<and> is_digit d
          then (let ds = takeWhile is_digit (d # r); nine = take 9 ds
                in (int (digits_value nine) * 10 ^ (9 - length nine), drop (length ds) (d # r)))
          else (0, s)
      | _ \<Rightarrow> (0, s))"

definition get_zone :: "string \<Rightarrow> (int \<times> string) option" where
  "get_zone s =
     (case s of
        [] \<Rightarrow> None
      | c # r \<Rightarrow>
          if c = CHR ''Z'' then Some (0, r)
          else if length s < 6 \<or> s ! 3 \<noteq> CHR '':'' then None
          else do {
            (hr, _) \<leftarrow> getnum True (take 2 r);
            (mm, _) \<leftarrow> getnum True (take 2 (drop 4 s));
            in_range 0 24 hr;
            in_range 0 60 mm;
            if c = CHR ''+'' then Some ((hr * 60 + mm) * 60, drop 6 s)
            else if c = CHR ''-'' then Some (- ((hr * 60 + mm) * 60), drop 6 s)
            else None })"

definition parse_rfc3339 :: "string \<Rightarrow> time option" where
  "parse_rfc3339 s =
     do {
       (y, s) \<leftarrow> get_year s;
       s \<leftarrow> literal ''-'' s;
       (m, s) \<leftarrow> getnum True s;
       in_range 1 12 m;
       s \<leftarrow> literal ''-'' s;
       (d, s) \<leftarrow> getnum True s;
       s \<leftarrow> literal ''T'' s;
       (hh, s) \<leftarrow> getnum False s;
       in_range 0 23 hh;
       s \<leftarrow> literal '':'' s;
       (mi, s) \<leftarrow> getnum True s;
       in_range 0 59 mi;
       s \<leftarrow> literal '':'' s;
       (sec, s) \<leftarrow> getnum True s;
       in_range 0 59 sec;
       let (ns, s) = get_fraction s;
       (off, s) \<leftarrow> get_zone s;
       (if s = [] then Some () else None);
       in_range 1 (days_in y m) d;
       Some ((days_from_civil y m d * 86400 + hh * 3600 + mi * 60 + sec - off) * 1000000000 + ns) }"

section \<open>The round trip\<close>

definition civil_ok :: "int \<Rightarrow> int \<Rightarrow> int \<Rightarrow> int \<Rightarrow> int \<Rightarrow> int \<Rightarrow> bool" where
  "civil_ok z e c q r doy \<longleftrightarrow>
     0 \<le> c \<and> c \<le> 3 \<and> 0 \<le> q \<and> q \<le> 24 \<and> 0 \<le> r \<and> r \<le> 3 \<and> 0 \<le> doy \<and> doy \<le> 365
     \<and> z + 719468 = e * 146097 + 36524 * c + 1461 * q + 365 * r + doy
     \<and> (doy = 365 \<longrightarrow> r = 3 \<and> (q = 24 \<longrightarrow> c = 3))
     \<and> civil_from_days z = (let mp = (5 * doy + 2) div 153; y = e * 400 + 100 * c + 4 * q + r
         in if mp < 10 then (y, mp + 3, doy - (153 * mp + 2) div 5 + 1)
            else (y + 1, mp - 9, doy - (153 * mp + 2) div 5 + 1))"

lemma civil_parts: "\<exists>e c q r doy. civil_ok z e c q r doy"
proof -
  define doe where "doe = (z + 719468) mod 146097"
  define c where "c = min 3 (doe div 36524)"
  define doc where "doc = doe - 36524 * c"
  define q where "q = doc div 1461"
  define doq where "doq = doc mod 1461"
  define r where "r = min 3 (doq div 365)"
  define doy where "doy = doq - 365 * r"
  have doe: "0 \<le> doe" "doe \<le> 146096" by (simp_all add: doe_def)
  have c: "0 \<le> c" "c \<le> 3" using doe by (auto simp: c_def pos_imp_zdiv_nonneg_iff)
  have doc: "0 \<le> doc" "doc \<le> 36524" "doc = 36524 \<longrightarrow> c = 3"
    using doe by (auto simp: doc_def c_def min_def)
  have q: "0 \<le> q" "q \<le> 24" using doc by (auto simp: q_def)
  have doq: "0 \<le> doq" "doq \<le> 1460" "doc = 1461 * q + doq" by (simp_all add: doq_def q_def)
  have r: "0 \<le> r" "r \<le> 3" using doq by (auto simp: r_def pos_imp_zdiv_nonneg_iff)
  have doy: "0 \<le> doy" "doy \<le> 365" "doy = 365 \<longrightarrow> r = 3"
    using doq by (auto simp: doy_def r_def min_def)
  have "doy = 365 \<longrightarrow> r = 3 \<and> (q = 24 \<longrightarrow> c = 3)"
    using doy(3) doq(3) doc by (auto simp: doy_def)
  moreover have "z + 719468 = (z + 719468) div 146097 * 146097 + 36524 * c + 1461 * q + 365 * r + doy"
  proof -
    have "(z + 719468) div 146097 * 146097 + doe = z + 719468" by (simp add: doe_def)
    then show ?thesis using doq(3) doc_def doy_def by linarith
  qed
  moreover have "civil_from_days z = (let mp = (5 * doy + 2) div 153; y = (z + 719468) div 146097 * 400 + 100 * c + 4 * q + r
      in if mp < 10 then (y, mp + 3, doy - (153 * mp + 2) div 5 + 1)
         else (y + 1, mp - 9, doy - (153 * mp + 2) div 5 + 1))"
    unfolding civil_from_days_def Let_def doe_def c_def doc_def q_def doq_def r_def doy_def ..
  ultimately have "civil_ok z ((z + 719468) div 146097) c q r doy"
    using c q r doy(1,2) unfolding civil_ok_def by blast
  then show ?thesis by blast
qed

lemma year_days:
  assumes "0 \<le> (c::int)" "c \<le> 3" "0 \<le> q" "q \<le> 24" "0 \<le> r" "r \<le> 3"
  shows "(e * 400 + 100 * c + 4 * q + r) mod 400 = 100 * c + 4 * q + r"
    "(e * 400 + 100 * c + 4 * q + r) div 400 = e"
    "(100 * c + 4 * q + r) div 4 = 25 * c + q" "(100 * c + 4 * q + r) div 100 = c"
proof -
  have y: "e * 400 + 100 * c + 4 * q + r = 400 * e + (100 * c + 4 * q + r)"
    "100 * c + 4 * q + r = 4 * (25 * c + q) + r" "100 * c + 4 * q + r = 100 * c + (4 * q + r)" by simp_all
  show "(e * 400 + 100 * c + 4 * q + r) mod 400 = 100 * c + 4 * q + r"
    using assms by (intro int_mod_pos_eq [OF y(1)]) auto
  show "(e * 400 + 100 * c + 4 * q + r) div 400 = e"
    using assms by (intro int_div_pos_eq [OF y(1)]) auto
  show "(100 * c + 4 * q + r) div 4 = 25 * c + q" using assms by (intro int_div_pos_eq [OF y(2)]) auto
  show "(100 * c + 4 * q + r) div 100 = c" using assms by (intro int_div_pos_eq [OF y(3)]) auto
qed

lemma civil_from_days_inverse:
  assumes "civil_from_days z = (y, m, d)"
  shows "1 \<le> m \<and> m \<le> 12 \<and> 1 \<le> d \<and> d \<le> days_in y m \<and> days_from_civil y m d = z"
proof -
  obtain e c q r doy where ok: "civil_ok z e c q r doy" using civil_parts by blast
  have b: "0 \<le> c" "c \<le> 3" "0 \<le> q" "q \<le> 24" "0 \<le> r" "r \<le> 3" "0 \<le> doy" "doy \<le> 365"
    and z: "z + 719468 = e * 146097 + 36524 * c + 1461 * q + 365 * r + doy"
    and leap: "doy = 365 \<longrightarrow> r = 3 \<and> (q = 24 \<longrightarrow> c = 3)"
    using ok by (simp_all add: civil_ok_def)
  have civ: "civil_from_days z = (let mp = (5 * doy + 2) div 153; y = e * 400 + 100 * c + 4 * q + r
      in if mp < 10 then (y, mp + 3, doy - (153 * mp + 2) div 5 + 1)
         else (y + 1, mp - 9, doy - (153 * mp + 2) div 5 + 1))"
    using ok by (simp only: civil_ok_def)
  define mp where "mp = (5 * doy + 2) div 153"
  define y0 where "y0 = e * 400 + 100 * c + 4 * q + r"
  have yd: "y0 mod 400 = 100 * c + 4 * q + r" "y0 div 400 = e"
    "(100 * c + 4 * q + r) div 4 = 25 * c + q" "(100 * c + 4 * q + r) div 100 = c"
    unfolding y0_def by (fact year_days [OF b(1-6)])+
  have mp: "0 \<le> mp" "mp \<le> 11" "(153 * mp + 2) div 5 \<le> doy" "doy \<le> (153 * mp + 2) div 5 + 30"
  proof -
    define w where "w = (153 * mp + 2) div 5"
    have k: "mp * 153 + (5 * doy + 2) mod 153 = 5 * doy + 2" "0 \<le> (5 * doy + 2) mod 153" "(5 * doy + 2) mod 153 < 153"
      unfolding mp_def by (simp_all only: div_mult_mod_eq pos_mod_bound pos_mod_sign zero_less_numeral)
    have l: "w * 5 + (153 * mp + 2) mod 5 = 153 * mp + 2" "0 \<le> (153 * mp + 2) mod 5" "(153 * mp + 2) mod 5 < 5"
      unfolding w_def by (simp_all only: div_mult_mod_eq pos_mod_bound pos_mod_sign zero_less_numeral)
    show "0 \<le> mp" "mp \<le> 11" using k b(7,8) by linarith+
    show "(153 * mp + 2) div 5 \<le> doy" "doy \<le> (153 * mp + 2) div 5 + 30"
      unfolding w_def [symmetric] using k l by linarith+
  qed
  have ymd: "y = (if mp < 10 then y0 else y0 + 1)" "m = (if mp < 10 then mp + 3 else mp - 9)"
    "d = doy - (153 * mp + 2) div 5 + 1"
    using civ assms by (auto simp: Let_def mp_def y0_def split: if_splits)
  have "days_from_civil y m d = y0 div 400 * 146097
      + (y0 mod 400 * 365 + y0 mod 400 div 4 - y0 mod 400 div 100 + doy) - 719468"
    using ymd mp(1,2) by (auto simp: days_from_civil_def Let_def)
  then have "days_from_civil y m d = z" using z yd by simp
  moreover have "d \<le> days_in y m"
  proof -
    have short: "d \<le> 30" if "mp \<in> {1, 3, 6, 8}"
      using that b(7,8) ymd(3) by (auto simp: mp_def)
    show ?thesis
    proof (cases "mp = 11")
      case True
      then have "d \<le> 29" "d = 29 \<longrightarrow> doy = 365" "m = 2" "y = y0 + 1" using ymd b(8) by auto
      moreover have "is_leap (y0 + 1)" if "doy = 365"
      proof -
        note l = leap [rule_format, OF that]
        then have y: "y0 + 1 = e * 400 + 100 * c + 4 * (q + 1)" by (simp add: y0_def)
        show ?thesis
        proof (cases "q = 24")
          case True
          with l y have "y0 + 1 = (e + 1) * 400" by simp
          then show ?thesis by (simp add: is_leap_def)
        next
          case False
          have "y0 + 1 = 4 * (100 * e + 25 * c + q + 1)" and h: "y0 + 1 = 100 * (4 * e + c) + 4 * (q + 1)"
            using y by simp_all
          then have "(y0 + 1) mod 4 = 0" by simp
          moreover have "(y0 + 1) mod 100 = 4 * (q + 1)"
            using b False by (intro int_mod_pos_eq [OF h]) auto
          ultimately show ?thesis using b by (simp only: is_leap_def) simp
        qed
      qed
      ultimately show ?thesis by (auto simp: days_in_def)
    next
      case False
      have "m \<in> {4, 6, 9, 11} \<Longrightarrow> mp \<in> {1, 3, 6, 8}" "m \<noteq> 2" using ymd(2) mp(1,2) False by (auto split: if_splits)
      then show ?thesis using short ymd(3) mp(4) by (auto simp: days_in_def)
    qed
  qed
  ultimately show ?thesis using ymd mp by auto
qed

text \<open>Digits\<close>

lemma digits_value_Cons_zero [simp]: "digits_value (CHR ''0'' # s) = digits_value s"
  by (simp add: digits_value_def)

lemma digits_value_replicate [simp]: "digits_value (replicate n (CHR ''0'') @ s) = digits_value s"
  by (induction n) simp_all

lemma digits_value_append_zeros: "digits_value (s @ replicate n (CHR ''0'')) = digits_value s * 10 ^ n"
proof (induction n)
  case (Suc n)
  have "s @ replicate (Suc n) (CHR ''0'') = (s @ replicate n (CHR ''0'')) @ [CHR ''0'']"
    by (simp add: replicate_append_same)
  then show ?case using Suc by (simp only: digits_value_snoc) simp
qed simp

lemma length_format_nat: "n < 10 ^ k \<Longrightarrow> 0 < k \<Longrightarrow> length (format_nat n) \<le> k"
proof (induction n arbitrary: k rule: format_nat.induct)
  case (1 n)
  show ?case
  proof (cases "n < 10")
    case False
    obtain j where j: "k = Suc j" using 1(3) by (cases k) auto
    have "0 < j" using False 1(2) j by (cases j) auto
    note k = j this
    then have "n div 10 < 10 ^ j" using 1(2) by (simp add: less_mult_imp_div_less mult.commute)
    from 1(1) [OF False this k(2)] k show ?thesis using False by (simp add: format_nat.simps [of n])
  qed (use 1 in \<open>simp add: format_nat.simps [of n]\<close>)
qed

lemma pad_digits:
  assumes "0 \<le> i" "i < 10 ^ n" "0 < n"
  shows "length (pad n i) = n" "list_all is_digit (pad n i)" "int (digits_value (pad n i)) = i"
proof -
  have "nat i < 10 ^ n" using assms(1,2) by (simp add: nat_less_iff)
  then have "length (format_nat (nat i)) \<le> n" using length_format_nat assms(3) by blast
  then show "length (pad n i) = n" using assms(1) by (simp add: pad_def Let_def)
  show "list_all is_digit (pad n i)" using format_nat_digits [of "nat i"] assms(1) by (auto simp: pad_def Let_def is_digit_def list_all_iff)
  show "int (digits_value (pad n i)) = i" using assms(1) by (simp add: pad_def Let_def digits_value_format)
qed

lemma getnum_pad:
  assumes "0 \<le> i" "i < 100"
  shows "getnum fixed (pad 2 i @ s) = Some (i, s)"
proof -
  note p = pad_digits [of i 2] assms
  then have "length (pad 2 i) = 2" by simp
  then obtain a b where "pad 2 i = [a, b]" by (auto simp: numeral_2_eq_2 length_Suc_conv)
  with p show ?thesis by (simp add: getnum_def)
qed

lemma get_year_pad:
  assumes "0 \<le> y" "y \<le> 9999"
  shows "get_year (pad 4 y @ s) = Some (y, s)"
  using pad_digits [of y 4] assms by (simp add: get_year_def)

lemma trim_zeros_split: "trim_zeros s @ replicate (length s - length (trim_zeros s)) (CHR ''0'') = s"
proof -
  let ?t = "takeWhile (\<lambda>c. c = CHR ''0'') (rev s)"
  have s: "s = trim_zeros s @ rev ?t"
    unfolding trim_zeros_def by (metis rev_append rev_rev_ident takeWhile_dropWhile_id)
  have "?t = replicate (length ?t) (CHR ''0'')"
    by (metis (full_types) replicate_eqI set_takeWhileD)
  then have "rev ?t = replicate (length s - length (trim_zeros s)) (CHR ''0'')"
    using s by (metis add_diff_cancel_left' length_append length_rev rev_replicate)
  with s show ?thesis by metis
qed

lemma get_fraction_format:
  assumes "0 \<le> ns" "ns < 1000000000"
  shows "get_fraction ((if ns = 0 then [] else CHR ''.'' # trim_zeros (pad 9 ns)) @ ''Z'') = (ns, ''Z'')"
proof (cases "ns = 0")
  case False
  let ?p = "pad 9 ns" and ?t = "trim_zeros (pad 9 ns)"
  note p = pad_digits [of ns 9] assms
  have split: "?t @ replicate (length ?p - length ?t) (CHR ''0'') = ?p" by (rule trim_zeros_split)
  have len: "length ?t \<le> 9" "length ?p = 9" using p split by (auto dest: arg_cong [of _ _ length])
  have "list_all is_digit (?t @ replicate (length ?p - length ?t) (CHR ''0''))" using p unfolding split by simp
  then have "list_all is_digit ?t" by simp
  moreover have val: "int (digits_value ?t) * 10 ^ (9 - length ?t) = ns"
    using digits_value_append_zeros [of ?t "length ?p - length ?t"] split p len by simp
  moreover from val False obtain c r where "?t = c # r" by (cases ?t) (auto simp: digits_value_def)
  moreover have "\<not> is_digit (CHR ''Z'')" by (simp add: is_digit_def)
  ultimately show ?thesis using False len
    by (simp add: get_fraction_def Let_def list_all_iff takeWhile_append2)
qed (simp add: get_fraction_def)

lemma literal_append [simp]: "literal p (p @ s) = Some s"
  by (simp add: literal_def)

lemma literal_Cons [simp]: "literal [c] (c # s) = Some s"
  using literal_append [of "[c]" s] by simp

text \<open>The times with a year of four digits.\<close>

definition wire_time :: "time \<Rightarrow> bool" where
  "wire_time t \<longleftrightarrow> (case civil_from_days (t div 1000000000 div 86400) of (y, m, d) \<Rightarrow> 0 \<le> y \<and> y \<le> 9999)"

lemma parse_parts:
  assumes "0 \<le> y" "y \<le> 9999" "1 \<le> m" "m \<le> 12" "1 \<le> d" "d \<le> days_in y m" "0 \<le> hh" "hh \<le> 23"
    and "0 \<le> mi" "mi \<le> 59" "0 \<le> sec" "sec \<le> 59" "0 \<le> ns" "ns < 1000000000"
  shows "parse_rfc3339 (pad 4 y @ ''-'' @ pad 2 m @ ''-'' @ pad 2 d @ ''T'' @ pad 2 hh @ '':'' @ pad 2 mi @ '':'' @ pad 2 sec
      @ (if ns = 0 then [] else CHR ''.'' # trim_zeros (pad 9 ns)) @ ''Z'')
    = Some ((days_from_civil y m d * 86400 + hh * 3600 + mi * 60 + sec) * 1000000000 + ns)"
proof -
  have "d < 100" using assms(6) by (auto simp: days_in_def split: if_splits)
  with assms have "getnum f (pad 2 m @ s) = Some (m, s)" "getnum f (pad 2 d @ s) = Some (d, s)"
    "getnum f (pad 2 hh @ s) = Some (hh, s)" "getnum f (pad 2 mi @ s) = Some (mi, s)"
    "getnum f (pad 2 sec @ s) = Some (sec, s)" "get_year (pad 4 y @ s) = Some (y, s)" for f s
    by (simp_all add: getnum_pad get_year_pad)
  moreover have "get_zone ''Z'' = Some (0, [])" by (simp add: get_zone_def)
  ultimately show ?thesis
    unfolding parse_rfc3339_def using assms
    by (simp only: bind.simps literal_append case_prod_conv in_range_def get_fraction_format Let_def if_True simp_thms) simp
qed

lemma parse_format_rfc3339:
  assumes "wire_time t"
  shows "parse_rfc3339 (format_rfc3339 t) = Some t"
proof -
  let ?secs = "t div 1000000000" and ?ns = "t mod 1000000000"
  let ?sod = "?secs mod 86400"
  obtain y m d where c: "civil_from_days (?secs div 86400) = (y, m, d)" by (metis prod_cases3)
  note inv = civil_from_days_inverse [OF c]
  have y: "0 \<le> y" "y \<le> 9999" using assms c by (simp_all add: wire_time_def)
  have sod: "0 \<le> ?sod div 3600" "?sod div 3600 \<le> 23" "0 \<le> ?sod div 60 mod 60" "?sod div 60 mod 60 \<le> 59"
    "0 \<le> ?sod mod 60" "?sod mod 60 \<le> 59" "0 \<le> ?ns" "?ns < 1000000000"
    by (auto simp: pos_imp_zdiv_nonneg_iff)
  have hms: "?sod div 3600 * 3600 + ?sod div 60 mod 60 * 60 + ?sod mod 60 = ?sod"
  proof -
    have e: "?sod div 3600 = ?sod div 60 div 60" by (simp add: zdiv_zmult2_eq [symmetric])
    show ?thesis
      unfolding e using div_mult_mod_eq [of "?sod div 60" 60] div_mult_mod_eq [of ?sod 60] by linarith
  qed
  have "days_from_civil y m d = ?secs div 86400" using inv by simp
  then have "(days_from_civil y m d * 86400 + (?sod div 3600 * 3600 + ?sod div 60 mod 60 * 60 + ?sod mod 60)) * 1000000000 + ?ns = t"
    by (simp only: hms div_mult_mod_eq)
  then have val: "(days_from_civil y m d * 86400 + ?sod div 3600 * 3600 + ?sod div 60 mod 60 * 60 + ?sod mod 60) * 1000000000 + ?ns = t"
    by (simp only: add.assoc)
  have md: "1 \<le> m" "m \<le> 12" "1 \<le> d" "d \<le> days_in y m" using inv by simp_all
  from parse_parts [OF y md sod] show ?thesis
    unfolding val format_rfc3339_def Let_def c by (simp only: case_prod_conv)
qed

end
