(* ===== verification/Mime.thy ===== *)
theory Mime
  imports Encoding
begin

text \<open>
  \<open>mime.ParseMediaType\<close>, which the APIs apply to \<open>Content-Type\<close> and \<open>Content-Disposition\<close>: the
  lower-cased type and its parameters, with the RFC 2231 continuations and encodings.
\<close>

definition tspecials :: string where
  "tspecials = ''()<>@,;:/[]?='' @ [CHR 0x22, CHR 0x5C]"

definition token_char :: "char \<Rightarrow> bool" where
  "token_char c \<longleftrightarrow> 33 \<le> byte c \<and> byte c \<le> 126 \<and> c \<notin> set tspecials"

definition trim_left :: "string \<Rightarrow> string" where
  "trim_left s = trim_lead spaces s"

text \<open>\<open>strings.Cut\<close> at a byte.\<close>

definition cut :: "char \<Rightarrow> string \<Rightarrow> (string \<times> string) option" where
  "cut c s = (if c \<in> set s then Some (takeWhile (\<lambda>x. x \<noteq> c) s, tl (dropWhile (\<lambda>x. x \<noteq> c) s)) else None)"

text \<open>A quoted string after its opening quote; \<open>None\<close> when it does not end.\<close>

fun consume_quoted :: "string \<Rightarrow> (string \<times> string) option" where
  "consume_quoted [] = None"
| "consume_quoted (c # r) =
     (if c = CHR 0x22 then Some ([], r)
      else (case r of
        [] \<Rightarrow> None
      | d # q \<Rightarrow>
          if c = CHR 0x5C \<and> d \<in> set tspecials
          then map_option (\<lambda>(v, z). (d # v, z)) (consume_quoted q)
          else if c = CHR 0x0D \<or> c = CHR 0x0A then None
          else map_option (\<lambda>(v, z). (c # v, z)) (consume_quoted r)))"

definition consume_value :: "string \<Rightarrow> string \<times> string" where
  "consume_value s =
     (case s of
        [] \<Rightarrow> ([], [])
      | c # r \<Rightarrow>
          if c \<noteq> CHR 0x22 then (takeWhile token_char s, dropWhile token_char s)
          else (case consume_quoted r of None \<Rightarrow> ([], s) | Some (v, z) \<Rightarrow> (v, z)))"

definition consume_param :: "string \<Rightarrow> (string \<times> string \<times> string) option" where
  "consume_param s =
     (case trim_left s of
        [] \<Rightarrow> None
      | c # r \<Rightarrow>
          if c \<noteq> CHR '';'' then None
          else
            (let r1 = trim_left r;
                 param = to_lower (takeWhile token_char r1);
                 r2 = trim_left (dropWhile token_char r1)
             in if param = [] then None
                else (case r2 of
                  [] \<Rightarrow> None
                | d # q \<Rightarrow>
                    if d \<noteq> CHR ''='' then None
                    else (case consume_value (trim_left q) of
                            (value, rest) \<Rightarrow>
                              if value = [] \<and> rest = trim_left q then None else Some (param, value, rest)))))"

text \<open>The parameters in the order they are written.  A name may repeat only with the same value.\<close>

function media_params :: "string \<Rightarrow> (string \<times> string) list option" where
  "media_params s =
     (if trim_left s = [] then Some []
      else case consume_param (trim_left s) of
        None \<Rightarrow> if trim_space (trim_left s) = '';'' then Some [] else None
      | Some (k, v, rest) \<Rightarrow>
          if length rest < length s
          then (case media_params rest of
                  None \<Rightarrow> None
                | Some ps \<Rightarrow> if \<exists>(k', v')\<in>set ps. k' = k \<and> v' \<noteq> v then None else Some ((k, v) # ps))
          else None)"
  by pat_completeness auto
termination
  by (relation "measure length") auto

declare media_params.simps [simp del]

fun percent_unescape :: "string \<Rightarrow> string option" where
  "percent_unescape [] = Some []"
| "percent_unescape (c # s) =
     (if c \<noteq> CHR ''%'' then map_option ((#) c) (percent_unescape s)
      else (case s of
        a # b # r \<Rightarrow>
          (case (unhex_digit a, unhex_digit b) of
             (Some i, Some j) \<Rightarrow> map_option ((#) (char_of (16 * i + j))) (percent_unescape r)
           | _ \<Rightarrow> None)
      | _ \<Rightarrow> None))"

definition decode_2231 :: "string \<Rightarrow> string option" where
  "decode_2231 v =
     (case cut (CHR 0x27) v of
        None \<Rightarrow> None
      | Some (charset, r) \<Rightarrow>
          (case cut (CHR 0x27) r of
             None \<Rightarrow> None
           | Some (lang, enc) \<Rightarrow>
               if to_lower charset \<in> {''us-ascii'', ''utf-8''} then percent_unescape enc else None))"

text \<open>The pieces \<open>key*n\<close> and \<open>key*n*\<close> of one parameter from number \<open>n\<close> on.\<close>

fun pieces :: "nat \<Rightarrow> nat \<Rightarrow> string \<Rightarrow> (string \<times> string) list \<Rightarrow> string option" where
  "pieces 0 n key ps = None"
| "pieces (Suc fuel) n key ps =
     (let part = key @ ''*'' @ format_nat n
      in case map_of ps part of
           Some v \<Rightarrow> Some (v @ (case pieces fuel (Suc n) key ps of None \<Rightarrow> [] | Some w \<Rightarrow> w))
         | None \<Rightarrow>
             (case map_of ps (part @ ''*'') of
                None \<Rightarrow> None
              | Some v \<Rightarrow>
                  Some ((case (if n = 0 then decode_2231 v else percent_unescape v) of None \<Rightarrow> [] | Some d \<Rightarrow> d)
                        @ (case pieces fuel (Suc n) key ps of None \<Rightarrow> [] | Some w \<Rightarrow> w))))"

text \<open>The value of a parameter: its continuation when it has one that decodes, else the plain one.
  There are fewer pieces than parameters.\<close>

definition media_param :: "(string \<times> string) list \<Rightarrow> string \<Rightarrow> string option" where
  "media_param ps key =
     (case map_of ps (key @ ''*'') of
        Some v \<Rightarrow> (case decode_2231 v of Some d \<Rightarrow> Some d | None \<Rightarrow> map_of ps key)
      | None \<Rightarrow>
          (case pieces (Suc (length ps)) 0 key ps of Some v \<Rightarrow> Some v | None \<Rightarrow> map_of ps key))"

definition media_type_ok :: "string \<Rightarrow> bool" where
  "media_type_ok s =
     (let rest = dropWhile token_char s
      in takeWhile token_char s \<noteq> []
         \<and> (rest = []
            \<or> (hd rest = CHR ''/'' \<and> takeWhile token_char (tl rest) \<noteq> [] \<and> dropWhile token_char (tl rest) = [])))"

definition ParseMediaType :: "string \<Rightarrow> (string \<times> (string \<times> string) list) option" where
  "ParseMediaType v =
     (let base = takeWhile (\<lambda>c. c \<noteq> CHR '';'') v; mediatype = trim_space (to_lower base)
      in if \<not> media_type_ok mediatype then None
         else map_option (\<lambda>ps. (mediatype, ps)) (media_params (drop (length base) v)))"

end
