(* ===== verification/Http.thy ===== *)
theory Http
  imports ShareService Abuse Json Rfc3339 Mime
begin

text \<open>
  Requests and responses as the handlers of the program see them (\<open>net/http\<close>), and the reading of
  JSON bodies.  Header names are in their canonical form.  The body is the stream of bytes it
  delivers and the error that ends it, if any; a multipart body is the sequence of parts
  \<open>multipart.Reader.NextPart\<close> delivers, ended by an error or by \<open>io.EOF\<close>.
\<close>

section \<open>Headers\<close>

type_synonym headers = "(string \<times> string) list"

definition hdr_values :: "string \<Rightarrow> headers \<Rightarrow> string list" where
  "hdr_values k h = map snd (filter (\<lambda>p. fst p = k) h)"

definition hdr_get :: "string \<Rightarrow> headers \<Rightarrow> string" where
  "hdr_get k h = (case hdr_values k h of [] \<Rightarrow> [] | v # vs \<Rightarrow> v)"

definition hdr_set :: "string \<Rightarrow> string \<Rightarrow> headers \<Rightarrow> headers" where
  "hdr_set k v h = delete_rows fst k h @ [(k, v)]"

definition hdr_del :: "string \<Rightarrow> headers \<Rightarrow> headers" where
  "hdr_del k h = delete_rows fst k h"

definition hdr_add :: "string \<Rightarrow> string \<Rightarrow> headers \<Rightarrow> headers" where
  "hdr_add k v h = h @ [(k, v)]"

lemma hdr_values_set [simp]:
  "hdr_values k (hdr_set k' v h) = (if k = k' then [v] else hdr_values k h)"
  by (auto simp: hdr_values_def hdr_set_def delete_rows_def intro!: arg_cong [where f = "map snd"] filter_cong)

lemma hdr_get_set [simp]: "hdr_get k (hdr_set k' v h) = (if k = k' then v else hdr_get k h)"
  by (simp add: hdr_get_def)

section \<open>Requests\<close>

record part =
  pt_disposition :: string
  pt_type :: string
  pt_source :: source

datatype part_event = Part part | PartError err

record http_request =
  hr_method :: string
  hr_path :: string
  hr_query :: string
  hr_headers :: headers
  hr_remote :: string
  hr_tls :: bool
  hr_length :: int
  hr_body :: source
  hr_early :: bool
  hr_parts :: "part_event list option"

text \<open>What a request meets on its way: the environment of each call on the clock and the services in
  their order, the random bytes for a staged object, and whether the connection refuses a deadline.\<close>

record http_env =
  he_env :: "nat \<Rightarrow> env"
  he_key_rnd :: "bytes option"
  he_sufs :: "bytes option list"
  he_read_deadline :: bool
  he_write_deadline :: bool

section \<open>Responses\<close>

record http_response =
  rs_status :: nat
  rs_headers :: headers
  rs_body :: bytes

definition newline :: char where "newline = CHR 0x0A"

definition http_Error :: "headers \<Rightarrow> string \<Rightarrow> nat \<Rightarrow> http_response" where
  "http_Error h message code =
     \<lparr>rs_status = code,
      rs_headers = hdr_set ''X-Content-Type-Options'' ''nosniff''
        (hdr_set ''Content-Type'' ''text/plain; charset=utf-8'' (hdr_del ''Content-Length'' h)),
      rs_body = message @ [newline]\<rparr>"

definition http_NotFound :: "headers \<Rightarrow> http_response" where
  "http_NotFound h = http_Error h ''404 page not found'' 404"

definition http_status :: "headers \<Rightarrow> nat \<Rightarrow> http_response" where
  "http_status h code = \<lparr>rs_status = code, rs_headers = h, rs_body = []\<rparr>"

section \<open>JSON bodies\<close>

text \<open>
  \<open>http.MaxBytesReader\<close> fails with an \<open>http.MaxBytesError\<close> when more than the limit is read.  The
  decoder of \<open>encoding/json/v2\<close> reads as it goes, so of an overlong body it may reject the
  prefix before it reaches the limit; \<open>hr_early\<close> says whether it does.
\<close>

definition max_bytes_error :: err where
  "max_bytes_error = Message ''http: request body too large''"

definition json_error :: err where
  "json_error = Message ''json''"

definition read_json :: "nat \<Rightarrow> (json \<Rightarrow> 'a option) \<Rightarrow> http_request \<Rightarrow> err + 'a" where
  "read_json limit dec r =
     (if length (src_data (hr_body r)) > limit then Inl (if hr_early r then json_error else max_bytes_error)
      else case src_err (hr_body r) of
        Some e \<Rightarrow> Inl (if hr_early r then json_error else e)
      | None \<Rightarrow>
          (case decode_json False (src_data (hr_body r)) of
             None \<Rightarrow> Inl json_error
           | Some v \<Rightarrow> (case dec v of None \<Rightarrow> Inl json_error | Some x \<Rightarrow> Inr x)))"

text \<open>Struct fields under \<open>encoding/json/v2\<close>: names match exactly and unknown ones are rejected.\<close>

definition known :: "string list \<Rightarrow> (string \<times> json) list \<Rightarrow> bool" where
  "known names ms \<longleftrightarrow> list_all (\<lambda>m. fst m \<in> set names) ms"

text \<open>A \<open>*string\<close> field: absent or \<open>null\<close> is nil.\<close>

definition string_field :: "string \<Rightarrow> (string \<times> json) list \<Rightarrow> string option option" where
  "string_field name ms =
     (case map_of ms name of
        None \<Rightarrow> Some None
      | Some JNull \<Rightarrow> Some None
      | Some (JString s) \<Rightarrow> Some (Some s)
      | Some _ \<Rightarrow> None)"

end
