(* ===== verification/Url.thy ===== *)
theory Url
  imports Mime NetAddr
begin

text \<open>
  The parts of \<open>net/url\<close> the program uses: query strings, and \<open>url.Parse\<close> for configured origins
  and endpoints.  How a host is decoded and validated (\<open>url.parseHost\<close>) is the argument
  \<open>parse_host\<close>.
\<close>

section \<open>Escaping\<close>

definition unreserved :: "char \<Rightarrow> bool" where
  "unreserved c \<longleftrightarrow> is_digit c \<or> (65 \<le> byte c \<and> byte c \<le> 90) \<or> (97 \<le> byte c \<and> byte c \<le> 122) \<or> c \<in> set ''-_.~''"

definition upper_hex :: "nat \<Rightarrow> char" where
  "upper_hex n = (if n < 10 then char_of (48 + n) else char_of (55 + n))"

definition escape_byte :: "char \<Rightarrow> string" where
  "escape_byte c = [CHR ''%'', upper_hex (byte c div 16), upper_hex (byte c mod 16)]"

definition query_escape :: "string \<Rightarrow> string" where
  "query_escape s =
     concat (map (\<lambda>c. if c = CHR '' '' then ''+'' else if unreserved c then [c] else escape_byte c) s)"

definition path_escape :: "string \<Rightarrow> string" where
  "path_escape s = concat (map (\<lambda>c. if unreserved c \<or> c \<in> set ''$&+,/:;=@'' then [c] else escape_byte c) s)"

definition query_unescape :: "string \<Rightarrow> string option" where
  "query_unescape s = percent_unescape (map (\<lambda>c. if c = CHR ''+'' then CHR '' '' else c) s)"

section \<open>Query strings\<close>

text \<open>\<open>URL.Query\<close>: settings that contain a semicolon or do not decode are dropped.\<close>

definition parse_query :: "string \<Rightarrow> (string \<times> string) list" where
  "parse_query q =
     concat (map (\<lambda>part.
       if part = [] \<or> CHR '';'' \<in> set part then []
       else (case (case cut (CHR ''='') part of None \<Rightarrow> (part, []) | Some kv \<Rightarrow> kv) of
               (k, v) \<Rightarrow>
                 (case (query_unescape k, query_unescape v) of (Some k', Some v') \<Rightarrow> [(k', v')] | _ \<Rightarrow> [])))
       (split_on (CHR ''&'') q))"

definition query_get :: "(string \<times> string) list \<Rightarrow> string \<Rightarrow> string" where
  "query_get ps k = (case map_of ps k of None \<Rightarrow> [] | Some v \<Rightarrow> v)"

text \<open>\<open>url.Values.Encode\<close> of pairs that are already in the order of their keys.\<close>

definition encode_form :: "(string \<times> string) list \<Rightarrow> string" where
  "encode_form ps = join_with ''&'' (map (\<lambda>(k, v). query_escape k @ ''='' @ query_escape v) ps)"

section \<open>URLs\<close>

record url =
  u_scheme :: string
  u_user :: bool
  u_host :: string
  u_path :: string
  u_rawpath :: string
  u_rawquery :: string
  u_fragment :: string

definition is_alpha :: "char \<Rightarrow> bool" where
  "is_alpha c \<longleftrightarrow> (65 \<le> byte c \<and> byte c \<le> 90) \<or> (97 \<le> byte c \<and> byte c \<le> 122)"

definition get_scheme :: "string \<Rightarrow> (string \<times> string) option" where
  "get_scheme s =
     (let head = takeWhile (\<lambda>c. is_alpha c \<or> is_digit c \<or> c \<in> set ''+-.'') s; rest = drop (length head) s
      in if rest = [] \<or> hd rest \<noteq> CHR '':'' then Some ([], s)
         else if head = [] then None
         else if \<not> is_alpha (hd head) then Some ([], s)
         else Some (head, tl rest))"

definition split_query :: "string \<Rightarrow> string \<times> string" where
  "split_query s = (case cut (CHR ''?'') s of None \<Rightarrow> (s, []) | Some (a, q) \<Rightarrow> (a, q))"

text \<open>\<open>url.Parse\<close> of a URL with a scheme and an authority; of other URLs only the scheme and the
  empty host matter.\<close>

definition parse_url :: "(string \<Rightarrow> string option) \<Rightarrow> string \<Rightarrow> url option" where
  "parse_url parse_host raw =
     (let (u, frag) = (case cut (CHR ''#'') raw of None \<Rightarrow> (raw, []) | Some af \<Rightarrow> af)
      in if \<exists>c\<in>set u. byte c < 32 \<or> byte c = 127 then None
         else case get_scheme u of
           None \<Rightarrow> None
         | Some (scheme, r0) \<Rightarrow>
             (case split_query r0 of
                (rest, query) \<Rightarrow>
                  if \<not> has_prefix rest ''//''
                  then Some \<lparr>u_scheme = to_lower scheme, u_user = False, u_host = [], u_path = rest, u_rawpath = [],
                             u_rawquery = query, u_fragment = frag\<rparr>
                  else
                    (let authority = takeWhile (\<lambda>c. c \<noteq> CHR ''/'') (drop 2 rest);
                         path = drop (2 + length authority) rest;
                         host = (case split_last (CHR ''@'') authority of None \<Rightarrow> authority | Some (i, h) \<Rightarrow> h)
                     in case (parse_host host, percent_unescape path, percent_unescape frag) of
                          (Some h, Some p, Some f) \<Rightarrow>
                            Some \<lparr>u_scheme = to_lower scheme, u_user = (CHR ''@'' \<in> set authority), u_host = h,
                                  u_path = p, u_rawpath = (if path_escape p = path then [] else path),
                                  u_rawquery = query, u_fragment = f\<rparr>
                        | _ \<Rightarrow> None)))"

definition valid_optional_port :: "string \<Rightarrow> bool" where
  "valid_optional_port s \<longleftrightarrow> s = [] \<or> (hd s = CHR '':'' \<and> list_all is_digit (tl s))"

text \<open>\<open>URL.Hostname\<close>: without port and brackets.\<close>

definition url_hostname :: "string \<Rightarrow> string" where
  "url_hostname host =
     (let h = (case split_last (CHR '':'') host of
                 None \<Rightarrow> host
               | Some (a, p) \<Rightarrow> if valid_optional_port (CHR '':'' # p) then a else host)
      in if has_prefix h ''['' \<and> h \<noteq> [] \<and> last h = CHR '']'' then butlast (tl h) else h)"

end
