(* ===== verification/Challenge.thy ===== *)
theory Challenge
  imports Url Json
begin

text \<open>
  Package \<open>internal/challenge\<close>: the configuration of the one challenge provider and the
  verification of a token with it.  The HTTP client is the argument \<open>client\<close>: what it answers to a
  request, or nothing when the request fails or times out.  Both providers are instances of one
  contract: a token counts as verified only on a positive answer.
\<close>

section \<open>Configuration\<close>

definition ProviderCap :: string where "ProviderCap = ''cap''"
definition ProviderTurnstile :: string where "ProviderTurnstile = ''turnstile''"

record challenge_config =
  cc_Provider :: string
  cc_CapEndpoint :: string
  cc_CapSiteKey :: string
  cc_CapSecretKey :: string
  cc_TurnstileSiteKey :: string
  cc_TurnstileSecretKey :: string
  cc_TurnstileHostname :: string

definition no_challenge :: challenge_config where
  "no_challenge = \<lparr>cc_Provider = [], cc_CapEndpoint = [], cc_CapSiteKey = [], cc_CapSecretKey = [],
     cc_TurnstileSiteKey = [], cc_TurnstileSecretKey = [], cc_TurnstileHostname = []\<rparr>"

definition ParseProvider :: "string \<Rightarrow> err + string" where
  "ParseProvider value =
     (let p = to_lower (trim_space value)
      in if p = ProviderCap then Inr ProviderCap
         else if p = ProviderTurnstile then Inr ProviderTurnstile
         else Inl (Message ''unsupported challenge provider''))"

text \<open>\<open>strings.Trim(host, "[]")\<close>\<close>

definition trim_brackets :: "string \<Rightarrow> string" where
  "trim_brackets s =
     (let t = dropWhile (\<lambda>c. c \<in> set ''[]'') s in rev (dropWhile (\<lambda>c. c \<in> set ''[]'') (rev t)))"

definition isLoopbackHost :: "string \<Rightarrow> bool" where
  "isLoopbackHost host \<longleftrightarrow> trim_brackets host \<in> {''localhost'', ''127.0.0.1'', ''::1''}"

definition normalizeEndpoint :: "(string \<Rightarrow> string option) \<Rightarrow> string \<Rightarrow> err + string" where
  "normalizeEndpoint parse_host value =
     (case parse_url parse_host (trim_space value) of
        None \<Rightarrow> Inl (Message ''must be an absolute HTTP(S) origin'')
      | Some u \<Rightarrow>
          if u_scheme u = [] \<or> u_host u = [] then Inl (Message ''must be an absolute HTTP(S) origin'')
          else if u_scheme u \<noteq> ''http'' \<and> u_scheme u \<noteq> ''https'' then Inl (Message ''must use HTTP(S)'')
          else if u_user u \<or> u_rawquery u \<noteq> [] \<or> u_fragment u \<noteq> [] \<or> (u_path u \<noteq> [] \<and> u_path u \<noteq> ''/'')
               \<or> u_rawpath u \<noteq> []
          then Inl (Message ''must be an origin without credentials, path, query, or fragment'')
          else if u_scheme u = ''http'' \<and> \<not> isLoopbackHost (url_hostname (u_host u))
          then Inl (Message ''non-loopback endpoints must use HTTPS'')
          else Inr (u_scheme u @ ''://'' @ u_host u))"

definition validate_challenge :: "(string \<Rightarrow> string option) \<Rightarrow> challenge_config \<Rightarrow> err option" where
  "validate_challenge parse_host c =
     (if cc_Provider c = ProviderCap
      then (case normalizeEndpoint parse_host (cc_CapEndpoint c) of
              Inl e \<Rightarrow> Some (Wrapped ''cap endpoint'' e)
            | Inr endpoint \<Rightarrow>
                if trim_space (cc_CapSiteKey c) = [] then Some (Message ''cap site key is required'')
                else if trim_space (cc_CapSecretKey c) = [] then Some (Message ''cap secret key is required'')
                else None)
      else if cc_Provider c = ProviderTurnstile
      then (if trim_space (cc_TurnstileSiteKey c) = [] then Some (Message ''turnstile site key is required'')
            else if trim_space (cc_TurnstileSecretKey c) = [] then Some (Message ''turnstile secret key is required'')
            else if trim_space (cc_TurnstileHostname c) = [] then Some (Message ''turnstile hostname is required'')
            else None)
      else Some (Message ''unsupported challenge provider''))"

record public_challenge =
  pc_provider :: string
  pc_site_key :: string
  pc_endpoint :: string
  pc_hostname :: string

definition challenge_public :: "challenge_config \<Rightarrow> public_challenge" where
  "challenge_public c =
     (if cc_Provider c = ProviderCap
      then \<lparr>pc_provider = ProviderCap, pc_site_key = cc_CapSiteKey c, pc_endpoint = cc_CapEndpoint c, pc_hostname = []\<rparr>
      else if cc_Provider c = ProviderTurnstile
      then \<lparr>pc_provider = ProviderTurnstile, pc_site_key = cc_TurnstileSiteKey c, pc_endpoint = [],
            pc_hostname = cc_TurnstileHostname c\<rparr>
      else \<lparr>pc_provider = [], pc_site_key = [], pc_endpoint = [], pc_hostname = []\<rparr>)"

section \<open>Verification\<close>

record http_out =
  out_url :: string
  out_type :: string
  out_body :: bytes

text \<open>The answer: its status and the bytes of its body that arrive.\<close>

type_synonym client = "http_out \<Rightarrow> (nat \<times> bytes) option"

datatype verifier = CapVerifier string string | TurnstileVerifier string string string

text \<open>\<open>encoding/json\<close> into a struct: member names match without regard to case, \<open>null\<close> changes
  nothing, the last member wins, unknown members are skipped, and a value of the wrong type is
  an error.\<close>

fun v1_field :: "(json \<Rightarrow> 'a option) \<Rightarrow> string \<Rightarrow> (string \<times> json) list \<Rightarrow> 'a \<Rightarrow> 'a option" where
  "v1_field dec name [] x = Some x"
| "v1_field dec name ((k, v) # ms) x =
     (if equal_fold k name \<and> v \<noteq> JNull
      then (case dec v of None \<Rightarrow> None | Some y \<Rightarrow> v1_field dec name ms y)
      else v1_field dec name ms x)"

definition json_bool :: "json \<Rightarrow> bool option" where
  "json_bool v = (case v of JBool b \<Rightarrow> Some b | _ \<Rightarrow> None)"

definition json_string :: "json \<Rightarrow> string option" where
  "json_string v = (case v of JString s \<Rightarrow> Some s | _ \<Rightarrow> None)"

fun json_strings :: "json list \<Rightarrow> string list option" where
  "json_strings [] = Some []"
| "json_strings (v # vs) =
     (case (if v = JNull then Some [] else json_string v, json_strings vs) of
        (Some s, Some ss) \<Rightarrow> Some (s # ss) | _ \<Rightarrow> None)"

definition json_string_list :: "json \<Rightarrow> string list option" where
  "json_string_list v = (case v of JArray vs \<Rightarrow> json_strings vs | _ \<Rightarrow> None)"

text \<open>The members of the object at the front of a stream, \<open>null\<close> being the empty one.\<close>

definition v1_members :: "string \<Rightarrow> ((string \<times> json) list \<times> string) option" where
  "v1_members s =
     (case parse_value True s of
        Some (JObject ms, r) \<Rightarrow> Some (ms, r)
      | Some (JNull, r) \<Rightarrow> Some ([], r)
      | _ \<Rightarrow> None)"

record turnstile_response =
  tr_success :: bool
  tr_hostname :: string
  tr_action :: string
  tr_errors :: "string list"

definition decode_cap :: "bytes \<Rightarrow> bool option" where
  "decode_cap body = (case v1_members body of None \<Rightarrow> None | Some (ms, r) \<Rightarrow> v1_field json_bool ''success'' ms False)"

definition decode_turnstile :: "bytes \<Rightarrow> turnstile_response option" where
  "decode_turnstile body =
     (case v1_members body of
        None \<Rightarrow> None
      | Some (ms, r) \<Rightarrow>
          (case (v1_field json_bool ''success'' ms False, v1_field json_string ''hostname'' ms [],
                 v1_field json_string ''action'' ms [], v1_field json_string_list ''error-codes'' ms []) of
             (Some b, Some h, Some a, Some es) \<Rightarrow>
               Some \<lparr>tr_success = b, tr_hostname = h, tr_action = a, tr_errors = es\<rparr>
           | _ \<Rightarrow> None))"

definition turnstileSiteverifyURL :: string where
  "turnstileSiteverifyURL = ''https://challenges.cloudflare.com/turnstile/v0/siteverify''"

definition cap_request :: "string \<Rightarrow> string \<Rightarrow> string \<Rightarrow> http_out" where
  "cap_request endpoint secret token =
     \<lparr>out_url = endpoint @ ''/siteverify'', out_type = ''application/json'',
      out_body = encode_json (JObject [(''response'', JString token), (''secret'', JString secret)])\<rparr>"

definition cap_Verify :: "client \<Rightarrow> string \<Rightarrow> string \<Rightarrow> string \<Rightarrow> string \<Rightarrow> err option" where
  "cap_Verify client endpoint secret token remoteIP =
     (case client (cap_request endpoint secret token) of
        None \<Rightarrow> Some ErrChallengeUnavailable
      | Some (status, body) \<Rightarrow>
          if status < 200 \<or> status \<ge> 300 then Some ErrChallengeUnavailable
          else (case decode_cap (take 65536 body) of
            None \<Rightarrow> Some ErrChallengeUnavailable
          | Some success \<Rightarrow> if \<not> success then Some ErrChallengeInvalid else None))"

definition turnstile_request :: "string \<Rightarrow> string \<Rightarrow> string \<Rightarrow> string \<Rightarrow> http_out" where
  "turnstile_request url secret token remoteIP =
     \<lparr>out_url = url, out_type = ''application/x-www-form-urlencoded'',
      out_body = encode_form ((if remoteIP \<noteq> [] then [(''remoteip'', remoteIP)] else [])
        @ [(''response'', token), (''secret'', secret)])\<rparr>"

definition turnstile_Verify :: "client \<Rightarrow> string \<Rightarrow> string \<Rightarrow> string \<Rightarrow> string \<Rightarrow> string \<Rightarrow> err option" where
  "turnstile_Verify client secret hostname url token remoteIP =
     (case client (turnstile_request url secret token remoteIP) of
        None \<Rightarrow> Some ErrChallengeUnavailable
      | Some (status, body) \<Rightarrow>
          if status < 200 \<or> status \<ge> 300 then Some ErrChallengeUnavailable
          else (case decode_turnstile (take 65536 body) of
            None \<Rightarrow> Some ErrChallengeUnavailable
          | Some d \<Rightarrow>
              if \<not> tr_success d then Some ErrChallengeInvalid
              else if \<not> equal_fold (tr_hostname d) hostname then Some ErrChallengeInvalid
              else if tr_action d \<noteq> ''create_share'' then Some ErrChallengeInvalid
              else None))"

text \<open>The two implementations of the interface \<open>Verifier\<close>.\<close>

fun Verify :: "client \<Rightarrow> verifier \<Rightarrow> string \<Rightarrow> string \<Rightarrow> err option" where
  "Verify client (CapVerifier endpoint secret) token remoteIP = cap_Verify client endpoint secret token remoteIP"
| "Verify client (TurnstileVerifier secret hostname url) token remoteIP =
     turnstile_Verify client secret hostname url token remoteIP"

definition NewVerifier :: "(string \<Rightarrow> string option) \<Rightarrow> challenge_config \<Rightarrow> err + verifier" where
  "NewVerifier parse_host c =
     (case validate_challenge parse_host c of
        Some e \<Rightarrow> Inl e
      | None \<Rightarrow>
          if cc_Provider c = ProviderCap
          then (case normalizeEndpoint parse_host (cc_CapEndpoint c) of
                  Inl e \<Rightarrow> Inl e
                | Inr endpoint \<Rightarrow> Inr (CapVerifier endpoint (cc_CapSecretKey c)))
          else if cc_Provider c = ProviderTurnstile
          then Inr (TurnstileVerifier (cc_TurnstileSecretKey c) (cc_TurnstileHostname c) turnstileSiteverifyURL)
          else Inl (Message ''unsupported challenge provider''))"

section \<open>The contract of a verifier\<close>

text \<open>
  One request per token; the token is verified exactly when the provider answers with a 2xx
  status and a body that confirms it; everything else is an error of one of two kinds.
\<close>

locale challenge_verifier =
  fixes verify :: "client \<Rightarrow> string \<Rightarrow> string \<Rightarrow> err option"
    and ask :: "string \<Rightarrow> string \<Rightarrow> http_out" and confirms :: "bytes \<Rightarrow> bool"
  assumes verify_None: "verify client token ip = None \<longleftrightarrow>
      (\<exists>status body. client (ask token ip) = Some (status, body) \<and> 200 \<le> status \<and> status < 300 \<and> confirms body)"
    and verify_Some: "verify client token ip = Some e \<Longrightarrow> e = ErrChallengeInvalid \<or> e = ErrChallengeUnavailable"
    and no_answer: "client (ask token ip) = None \<Longrightarrow> verify client token ip = Some ErrChallengeUnavailable"
begin

lemma fails_closed:
  assumes "\<And>status body. client (ask token ip) = Some (status, body) \<Longrightarrow> status < 200 \<or> 300 \<le> status \<or> \<not> confirms body"
  shows "verify client token ip \<in> {Some ErrChallengeInvalid, Some ErrChallengeUnavailable}"
  using assms verify_None [of client token ip] verify_Some [of client token ip]
  by (cases "verify client token ip") force+

lemma only_answer_matters:
  assumes "client (ask token ip) = client' (ask token ip)"
  shows "verify client token ip = None \<longleftrightarrow> verify client' token ip = None"
  using assms by (simp add: verify_None)

end

definition cap_confirms :: "bytes \<Rightarrow> bool" where
  "cap_confirms body \<longleftrightarrow> decode_cap (take 65536 body) = Some True"

definition turnstile_confirms :: "string \<Rightarrow> bytes \<Rightarrow> bool" where
  "turnstile_confirms hostname body \<longleftrightarrow>
     (case decode_turnstile (take 65536 body) of
        None \<Rightarrow> False
      | Some d \<Rightarrow> tr_success d \<and> equal_fold (tr_hostname d) hostname \<and> tr_action d = ''create_share'')"

interpretation cap: challenge_verifier "\<lambda>client. cap_Verify client endpoint secret"
    "\<lambda>token ip. cap_request endpoint secret token" cap_confirms for endpoint secret
  by unfold_locales (auto simp: cap_Verify_def cap_confirms_def split: option.splits if_splits)

interpretation turnstile: challenge_verifier "\<lambda>client. turnstile_Verify client secret hostname url"
    "turnstile_request url secret" "turnstile_confirms hostname" for secret hostname url
  by unfold_locales (auto simp: turnstile_Verify_def turnstile_confirms_def split: option.splits if_splits)

text \<open>The same for whichever verifier is configured.\<close>

fun verifier_ask :: "verifier \<Rightarrow> string \<Rightarrow> string \<Rightarrow> http_out" where
  "verifier_ask (CapVerifier endpoint secret) token ip = cap_request endpoint secret token"
| "verifier_ask (TurnstileVerifier secret hostname url) token ip = turnstile_request url secret token ip"

fun verifier_confirms :: "verifier \<Rightarrow> bytes \<Rightarrow> bool" where
  "verifier_confirms (CapVerifier endpoint secret) = cap_confirms"
| "verifier_confirms (TurnstileVerifier secret hostname url) = turnstile_confirms hostname"

interpretation configured: challenge_verifier "\<lambda>client. Verify client v" "verifier_ask v" "verifier_confirms v" for v
proof (unfold_locales, goal_cases)
  case 1
  then show ?case by (cases v) (simp_all add: cap.verify_None turnstile.verify_None)
next
  case 2
  then show ?case by (cases v) (simp_all add: cap.verify_Some turnstile.verify_Some)
next
  case 3
  then show ?case by (cases v) (simp_all add: cap.no_answer turnstile.no_answer)
qed

lemma NewVerifier_valid:
  assumes "NewVerifier parse_host c = Inr v"
  shows "validate_challenge parse_host c = None"
  using assms by (auto simp: NewVerifier_def split: option.splits)

text \<open>The secret leaves the server over HTTPS only, or to the loopback.\<close>

lemma normalizeEndpoint_secure:
  assumes "normalizeEndpoint parse_host value = Inr endpoint"
  obtains host where "endpoint = ''https://'' @ host" "host \<noteq> []"
  | host where "endpoint = ''http://'' @ host" "isLoopbackHost (url_hostname host)"
  using assms by (auto simp: normalizeEndpoint_def split: option.splits if_splits)

end
