(* ===== verification/HttpApi.thy ===== *)
theory HttpApi
  imports Http Challenge
begin

text \<open>
  Package \<open>internal/httpapi\<close>: the public API under \<open>/api/v1/\<close> and the raw view.  A handler takes
  the state of the process, the request and the headers set so far, and returns the state and
  the response; the rate limiter, the challenge, the owner's authorization, the validation of the
  body and the service call come in the order the code has them.
\<close>

section \<open>State and options\<close>

definition maxJSONBytes :: nat where "maxJSONBytes = 2097152"
definition maxFileWireBytes :: nat where "maxFileWireBytes = 69206016"
definition maxFileMetadataBytes :: nat where "maxFileMetadataBytes = 65536"

record 'l api_state =
  as_shares :: service
  as_abuse :: "'l control"

record api_options =
  ao_fileOrigin :: string
  ao_Public :: bool
  ao_DefaultTTL :: duration
  ao_MaxTTL :: duration
  ao_Challenge :: "verifier option"
  ao_ChallengeConfig :: public_challenge
  ao_AdminEnabled :: bool

text \<open>The libraries behind the handlers: the limiters and the HTTP client.\<close>

record 'l lib =
  lb_limiter :: "'l limiter_lib"
  lb_client :: client

section \<open>Responses\<close>

definition writeJSON :: "headers \<Rightarrow> nat \<Rightarrow> json \<Rightarrow> http_response" where
  "writeJSON h status value =
     \<lparr>rs_status = status, rs_headers = hdr_set ''Content-Type'' ''application/json; charset=utf-8'' h,
      rs_body = encode_json value @ [newline]\<rparr>"

definition error_json :: "string \<Rightarrow> string \<Rightarrow> json" where
  "error_json code message =
     JObject [(''error'', JObject [(''code'', JString code), (''message'', JString message)])]"

definition writeError :: "headers \<Rightarrow> nat \<Rightarrow> string \<Rightarrow> string \<Rightarrow> http_response" where
  "writeError h status code message = writeJSON h status (error_json code message)"

definition rateLimited :: "headers \<Rightarrow> nat \<Rightarrow> http_response" where
  "rateLimited h retry =
     writeError (hdr_set ''Retry-After'' (format_nat retry) h) 429 ''rate_limited'' ''too many requests''"

definition unauthorized :: "headers \<Rightarrow> http_response" where
  "unauthorized h =
     writeError (hdr_set ''WWW-Authenticate'' ''Bearer'' h) 401 ''unauthorized'' ''owner authorization required''"

definition notFound :: "headers \<Rightarrow> http_response" where
  "notFound h = writeError h 404 ''not_found'' ''share not found''"

definition badRequest :: "headers \<Rightarrow> string \<Rightarrow> http_response" where
  "badRequest h message = writeError h 400 ''invalid_request'' message"

definition internalError :: "headers \<Rightarrow> http_response" where
  "internalError h = writeError h 500 ''internal_error'' ''internal server error''"

definition decodeError :: "headers \<Rightarrow> err \<Rightarrow> http_response" where
  "decodeError h e =
     (if errors_is e ErrBodyTooLarge then writeError h 413 ''request_too_large'' ''request body is too large''
      else badRequest h ''request body is invalid'')"

text \<open>\<open>err.Error()\<close> of the errors whose text a client sees.\<close>

fun error_text :: "err \<Rightarrow> string" where
  "error_text ErrExpiration = ''expiration must be in the future''"
| "error_text ErrRetention = ''expiration exceeds the configured public retention limit''"
| "error_text ErrEmptyPatch = ''patch must change text or expiration''"
| "error_text (Wrapped m e) = m @ '': '' @ error_text e"
| "error_text (Joined a b) = error_text a @ newline # error_text b"
| "error_text e = []"

definition serviceError :: "headers \<Rightarrow> err \<Rightarrow> http_response" where
  "serviceError h e =
     (if errors_is e ErrNotFound then notFound h
      else if errors_is e ErrExpired then writeError h 410 ''expired'' ''share expired''
      else if errors_is e ErrUnauthorized then unauthorized h
      else if errors_is e ErrExpiration \<or> errors_is e ErrEmptyPatch \<or> errors_is e ErrRetention
      then badRequest h (error_text e)
      else if errors_is e ErrInvalidText then badRequest h ''text content is invalid''
      else if errors_is e ErrInvalidEncryptedText then badRequest h ''encrypted text payload is invalid''
      else internalError h)"

definition text_json :: "text_body \<Rightarrow> json" where
  "text_json t = JObject [(''format'', JString (Format t)), (''content'', JString (Content t))]"

definition encrypted_json :: "encrypted_text \<Rightarrow> json" where
  "encrypted_json e =
     JObject [(''protocol'', JString (Protocol e)), (''nonce'', JString (b64_encode (Nonce e))),
              (''ciphertext'', JString (b64_encode (Ciphertext e)))]"

definition file_json :: "string \<Rightarrow> share_id \<Rightarrow> file_meta \<Rightarrow> json" where
  "file_json origin i f =
     JObject [(''filename'', JString (Filename f)), (''size'', JNumber (format_int (Size f))),
              (''media_type'', JString (MediaType f)), (''sha256'', JString (hex_encode (SHA256 f))),
              (''download_url'', JString (origin @ ''/f/'' @ id_string i))]"

definition time_json :: "time option \<Rightarrow> json" where
  "time_json t = (case t of None \<Rightarrow> JNull | Some x \<Rightarrow> JString (format_rfc3339 x))"

text \<open>A member with \<open>omitempty\<close>.\<close>

definition optional :: "string \<Rightarrow> ('a \<Rightarrow> json) \<Rightarrow> 'a option \<Rightarrow> (string \<times> json) list" where
  "optional name f v = (case v of None \<Rightarrow> [] | Some x \<Rightarrow> [(name, f x)])"

definition responseFromShare :: "string \<Rightarrow> share \<Rightarrow> json" where
  "responseFromShare origin v =
     JObject ([(''id'', JString (id_string (ID v))), (''payload_kind'', JString (kind_string (PayloadKind v))),
               (''privacy_mode'', JString (privacy_string (PrivacyMode v)))]
       @ optional ''text'' text_json (Text v)
       @ optional ''encrypted_text'' encrypted_json (EncryptedText v)
       @ optional ''file'' (file_json origin (ID v)) (File v)
       @ [(''created_at'', JString (format_rfc3339 (CreatedAt v))),
          (''updated_at'', JString (format_rfc3339 (UpdatedAt v))), (''expires_at'', time_json (ExpiresAt v))])"

definition shareResponse :: "string \<Rightarrow> share \<Rightarrow> json" where
  "shareResponse origin v = JObject [(''share'', responseFromShare origin v)]"

definition createResponse :: "string \<Rightarrow> share \<Rightarrow> owner_token \<Rightarrow> json" where
  "createResponse origin v token =
     JObject [(''share'', responseFromShare origin v), (''owner_token'', JString (reveal token))]"

definition created :: "headers \<Rightarrow> string \<Rightarrow> share \<Rightarrow> owner_token \<Rightarrow> http_response" where
  "created h origin v token =
     writeJSON (hdr_set ''Location'' (''/api/v1/shares/'' @ id_string (ID v)) h) 201 (createResponse origin v token)"

section \<open>Request bodies\<close>

record text_request =
  tq_format :: "string option"
  tq_content :: "string option"

record encrypted_request =
  eq_protocol :: "string option"
  eq_nonce :: "string option"
  eq_ciphertext :: "string option"

text \<open>An optional member: absent, \<open>null\<close>, or a value.\<close>

datatype 'a member = Absent | Null | Given 'a

definition is_set :: "'a member \<Rightarrow> bool" where
  "is_set m \<longleftrightarrow> m \<noteq> Absent"

definition member_value :: "'a member \<Rightarrow> 'a option" where
  "member_value m = (case m of Given x \<Rightarrow> Some x | _ \<Rightarrow> None)"

definition member_field :: "(json \<Rightarrow> 'a option) \<Rightarrow> string \<Rightarrow> (string \<times> json) list \<Rightarrow> 'a member option" where
  "member_field dec name ms =
     (case map_of ms name of
        None \<Rightarrow> Some Absent
      | Some v \<Rightarrow> if v = JNull then Some Null else map_option Given (dec v))"

definition dec_time :: "json \<Rightarrow> time option" where
  "dec_time v = (case v of JString s \<Rightarrow> parse_rfc3339 s | _ \<Rightarrow> None)"

definition dec_text :: "json \<Rightarrow> text_request option" where
  "dec_text v =
     (case v of
        JObject ms \<Rightarrow>
          if \<not> known [''format'', ''content''] ms then None
          else do {
            f \<leftarrow> string_field ''format'' ms;
            c \<leftarrow> string_field ''content'' ms;
            Some \<lparr>tq_format = f, tq_content = c\<rparr> }
      | _ \<Rightarrow> None)"

definition dec_encrypted :: "json \<Rightarrow> encrypted_request option" where
  "dec_encrypted v =
     (case v of
        JObject ms \<Rightarrow>
          if \<not> known [''protocol'', ''nonce'', ''ciphertext''] ms then None
          else do {
            p \<leftarrow> string_field ''protocol'' ms;
            n \<leftarrow> string_field ''nonce'' ms;
            c \<leftarrow> string_field ''ciphertext'' ms;
            Some \<lparr>eq_protocol = p, eq_nonce = n, eq_ciphertext = c\<rparr> }
      | _ \<Rightarrow> None)"

record create_request =
  cq_PayloadKind :: "string option"
  cq_PrivacyMode :: "string option"
  cq_Text :: "text_request member"
  cq_EncryptedText :: "encrypted_request member"
  cq_ExpiresAt :: "time member"

record patch_request =
  pq_Text :: "text_request member"
  pq_EncryptedText :: "encrypted_request member"
  pq_ExpiresAt :: "time member"

record file_request =
  fq_PayloadKind :: "string option"
  fq_PrivacyMode :: "string option"
  fq_ExpiresAt :: "time member"

text \<open>The members of a struct; \<open>null\<close> is the zero struct.\<close>

definition struct_members :: "string list \<Rightarrow> json \<Rightarrow> (string \<times> json) list option" where
  "struct_members names v =
     (case v of
        JNull \<Rightarrow> Some []
      | JObject ms \<Rightarrow> if known names ms then Some ms else None
      | _ \<Rightarrow> None)"

definition dec_create :: "json \<Rightarrow> create_request option" where
  "dec_create v =
     do {
       ms \<leftarrow> struct_members [''payload_kind'', ''privacy_mode'', ''text'', ''encrypted_text'', ''expires_at''] v;
       k \<leftarrow> string_field ''payload_kind'' ms;
       p \<leftarrow> string_field ''privacy_mode'' ms;
       t \<leftarrow> member_field dec_text ''text'' ms;
       e \<leftarrow> member_field dec_encrypted ''encrypted_text'' ms;
       x \<leftarrow> member_field dec_time ''expires_at'' ms;
       Some \<lparr>cq_PayloadKind = k, cq_PrivacyMode = p, cq_Text = t, cq_EncryptedText = e, cq_ExpiresAt = x\<rparr> }"

definition dec_patch :: "json \<Rightarrow> patch_request option" where
  "dec_patch v =
     do {
       ms \<leftarrow> struct_members [''text'', ''encrypted_text'', ''expires_at''] v;
       t \<leftarrow> member_field dec_text ''text'' ms;
       e \<leftarrow> member_field dec_encrypted ''encrypted_text'' ms;
       x \<leftarrow> member_field dec_time ''expires_at'' ms;
       Some \<lparr>pq_Text = t, pq_EncryptedText = e, pq_ExpiresAt = x\<rparr> }"

definition dec_file :: "json \<Rightarrow> file_request option" where
  "dec_file v =
     do {
       ms \<leftarrow> struct_members [''payload_kind'', ''privacy_mode'', ''expires_at''] v;
       k \<leftarrow> string_field ''payload_kind'' ms;
       p \<leftarrow> string_field ''privacy_mode'' ms;
       x \<leftarrow> member_field dec_time ''expires_at'' ms;
       Some \<lparr>fq_PayloadKind = k, fq_PrivacyMode = p, fq_ExpiresAt = x\<rparr> }"

definition decodeJSON :: "(json \<Rightarrow> 'a option) \<Rightarrow> http_request \<Rightarrow> err + 'a" where
  "decodeJSON dec r =
     (if hr_length r > int maxJSONBytes then Inl ErrBodyTooLarge
      else case read_json maxJSONBytes dec r of
        Inl e \<Rightarrow> Inl (if errors_is e max_bytes_error then ErrBodyTooLarge else e)
      | Inr x \<Rightarrow> Inr x)"

text \<open>\<open>validateText\<close> and \<open>validateEncryptedText\<close> of the API; on failure they write the response.\<close>

definition api_validateText :: "headers \<Rightarrow> text_request \<Rightarrow> http_response + text_body" where
  "api_validateText h q =
     (case (tq_format q, tq_content q) of
        (Some f, Some c) \<Rightarrow>
          (case ParseTextFormat f of
             Inl e \<Rightarrow> Inl (badRequest h ''invalid text format'')
           | Inr fmt \<Rightarrow>
               if length c = 0 then Inl (badRequest h ''text content must not be empty'')
               else if length c > MaxTextBytes
               then Inl (writeError h 413 ''request_too_large'' ''text content is too large'')
               else Inr \<lparr>Format = format_string fmt, Content = c\<rparr>)
      | _ \<Rightarrow> Inl (badRequest h ''text format and content are required''))"

definition decodeBase64URL :: "string \<Rightarrow> nat \<Rightarrow> nat \<Rightarrow> err + bytes" where
  "decodeBase64URL value minimum maximum =
     (if \<not> list_all is_b64 value then Inl (Message ''invalid canonical base64url'')
      else if length value > encoded_len maximum then Inl ErrCiphertextTooLarge
      else case b64_decode value of
        None \<Rightarrow> Inl (Message ''invalid canonical base64url'')
      | Some d \<Rightarrow>
          if length d < minimum \<or> length d > maximum \<or> b64_encode d \<noteq> value
          then Inl (Message ''invalid canonical base64url'') else Inr d)"

definition api_validateEncryptedText :: "headers \<Rightarrow> encrypted_request \<Rightarrow> http_response + encrypted_text" where
  "api_validateEncryptedText h q =
     (case (eq_protocol q, eq_nonce q, eq_ciphertext q) of
        (Some p, Some n, Some c) \<Rightarrow>
          if p \<noteq> EncryptedTextProtocolV1 then Inl (badRequest h ''invalid encrypted_text protocol'')
          else (case decodeBase64URL n EncryptedNonceBytes EncryptedNonceBytes of
            Inl e \<Rightarrow> Inl (badRequest h ''invalid encrypted_text nonce'')
          | Inr nonce \<Rightarrow>
              (case decodeBase64URL c MinEncryptedCipherBytes MaxEncryptedCipherBytes of
                 Inl e \<Rightarrow>
                   if errors_is e ErrCiphertextTooLarge
                   then Inl (writeError h 413 ''request_too_large'' ''encrypted ciphertext is too large'')
                   else Inl (badRequest h ''invalid encrypted_text ciphertext'')
               | Inr ct \<Rightarrow> Inr \<lparr>Protocol = p, Nonce = nonce, Ciphertext = ct\<rparr>))
      | _ \<Rightarrow> Inl (badRequest h ''encrypted_text fields are required''))"

end
