(* ===== verification/HttpHandlers.thy ===== *)
theory HttpHandlers
  imports HttpApi
begin

text \<open>
  The handlers of \<open>internal/httpapi\<close> and their dispatch.
\<close>

section \<open>Rate limiting and the challenge\<close>

definition allow :: "'l lib \<Rightarrow> env \<Rightarrow> http_request \<Rightarrow> nat \<Rightarrow> 'l api_state \<Rightarrow> 'l api_state \<times> bool" where
  "allow lib env r kind st =
     (case Allow (lb_limiter lib) (ev_now env) (hr_remote r) (hdr_get ''X-Forwarded-For'' (hr_headers r)) kind (as_abuse st) of
        (c, b) \<Rightarrow> (st\<lparr>as_abuse := c\<rparr>, b))"

definition remoteIP :: "http_request \<Rightarrow> string" where
  "remoteIP r = (case SplitHostPort (hr_remote r) of None \<Rightarrow> hr_remote r | Some (host, port) \<Rightarrow> host)"

definition challengeRemoteIP :: "'l control \<Rightarrow> http_request \<Rightarrow> string" where
  "challengeRemoteIP c r =
     (let address = ClientIP (hr_remote r) (hdr_get ''X-Forwarded-For'' (hr_headers r)) (ct_trusted c)
      in if address \<noteq> NoAddr then addr_string address else remoteIP r)"

text \<open>\<open>None\<close> when the request may go on.\<close>

definition requireChallenge ::
  "'l lib \<Rightarrow> api_options \<Rightarrow> 'l control \<Rightarrow> headers \<Rightarrow> http_request \<Rightarrow> http_response option" where
  "requireChallenge lib opts c h r =
     (case ao_Challenge opts of
        None \<Rightarrow> None
      | Some v \<Rightarrow>
          (case hdr_values ''X-Upaste-Challenge'' (hr_headers r) of
             [token] \<Rightarrow>
               if trim_space token = []
               then Some (writeError h 403 ''challenge_required'' ''challenge verification required'')
               else (case Verify (lb_client lib) v token (challengeRemoteIP c r) of
                       None \<Rightarrow> None
                     | Some e \<Rightarrow>
                         if errors_is e ErrChallengeInvalid
                         then Some (writeError h 403 ''challenge_failed'' ''challenge verification failed'')
                         else Some (writeError h 503 ''challenge_unavailable'' ''challenge provider unavailable''))
           | _ \<Rightarrow> Some (writeError h 403 ''challenge_required'' ''challenge verification required'')))"

section \<open>Request headers\<close>

definition requireIdentityEncoding :: "headers \<Rightarrow> http_request \<Rightarrow> http_response option" where
  "requireIdentityEncoding h r =
     (if list_all (\<lambda>e. equal_fold (trim_space e) ''identity'') (hdr_values ''Content-Encoding'' (hr_headers r))
      then None
      else Some (writeError h 415 ''unsupported_media_type'' ''content encoding is not supported''))"

definition isJSONMediaType :: "string \<Rightarrow> bool" where
  "isJSONMediaType value \<longleftrightarrow>
     (case ParseMediaType value of None \<Rightarrow> False | Some (t, ps) \<Rightarrow> equal_fold t ''application/json'')"

definition requireJSON :: "headers \<Rightarrow> http_request \<Rightarrow> http_response option" where
  "requireJSON h r =
     (case requireIdentityEncoding h r of
        Some x \<Rightarrow> Some x
      | None \<Rightarrow>
          (case hdr_values ''Content-Type'' (hr_headers r) of
             [v] \<Rightarrow>
               if isJSONMediaType v then None
               else Some (writeError h 415 ''unsupported_media_type'' ''Content-Type must be application/json'')
           | _ \<Rightarrow> Some (writeError h 415 ''unsupported_media_type'' ''Content-Type must be application/json'')))"

definition authorization_header :: "headers \<Rightarrow> http_request \<Rightarrow> http_response + string" where
  "authorization_header h r =
     (case hdr_values ''Authorization'' (hr_headers r) of
        [v] \<Rightarrow>
          (case Prelude.fields v of
             [scheme, token] \<Rightarrow> if equal_fold scheme ''Bearer'' then Inr token else Inl (unauthorized h)
           | _ \<Rightarrow> Inl (unauthorized h))
      | _ \<Rightarrow> Inl (unauthorized h))"

section \<open>File names\<close>

text \<open>\<open>path.Base\<close>\<close>

definition path_base :: "string \<Rightarrow> string" where
  "path_base s =
     (if s = [] then ''.''
      else (let t = rev (dropWhile (\<lambda>c. c = CHR ''/'') (rev s));
                b = rev (takeWhile (\<lambda>c. c \<noteq> CHR ''/'') (rev t))
            in if b = [] then ''/'' else b))"

text \<open>\<open>unicode.IsControl\<close> of some rune of a valid string.\<close>

fun has_control :: "string \<Rightarrow> bool" where
  "has_control [] = False"
| "has_control (c # s) \<longleftrightarrow>
     byte c < 32 \<or> byte c = 127 \<or> (byte c = 194 \<and> s \<noteq> [] \<and> byte_in (hd s) 128 159) \<or> has_control s"

definition sanitizeFilename :: "string \<Rightarrow> err + string" where
  "sanitizeFilename value =
     (let v = path_base (map (\<lambda>c. if c = CHR 0x5C then CHR ''/'' else c) value)
      in if v = [] \<or> v = ''.'' \<or> v = ''..'' \<or> CHR 0x5C \<in> set v \<or> CHR ''/'' \<in> set v \<or> length v > 255
            \<or> \<not> valid_utf8 v
         then Inl (Message ''invalid filename'')
         else if has_control v then Inl (Message ''invalid filename'') else Inr v)"

section \<open>Creating\<close>

definition createJSON ::
  "api_options \<Rightarrow> http_env \<Rightarrow> headers \<Rightarrow> http_request \<Rightarrow> service \<Rightarrow> service \<times> http_response" where
  "createJSON opts he h r s =
     (let bad = (\<lambda>m. (s, badRequest h m));
          done = (\<lambda>x. case x of
             (s1, Inl e) \<Rightarrow> (s1, serviceError h e)
           | (s1, Inr (v, token)) \<Rightarrow> (s1, created h (ao_fileOrigin opts) v token))
      in case decodeJSON dec_create r of
           Inl e \<Rightarrow> (s, decodeError h e)
         | Inr q \<Rightarrow>
             (case (cq_PayloadKind q, cq_PrivacyMode q) of
                (Some k, Some p) \<Rightarrow>
                  if \<not> is_set (cq_ExpiresAt q) then bad ''required field is missing''
                  else (case ParsePayloadKind k of
                    Inl e \<Rightarrow> bad ''invalid payload_kind''
                  | Inr kind \<Rightarrow>
                    (case ParsePrivacyMode p of
                       Inl e \<Rightarrow> bad ''invalid privacy_mode''
                     | Inr privacy \<Rightarrow>
                         if kind \<noteq> PayloadText
                         then (s, writeError h 422 ''unsupported_share_type'' ''share type is not implemented'')
                         else (case privacy of
                           PrivacyStandard \<Rightarrow>
                             (case cq_Text q of
                                Given t \<Rightarrow>
                                  if is_set (cq_EncryptedText q) then bad ''text payload does not match privacy_mode''
                                  else (case api_validateText h t of
                                    Inl resp \<Rightarrow> (s, resp)
                                  | Inr txt \<Rightarrow> done (Create (he_env he 1) s txt (member_value (cq_ExpiresAt q))))
                              | _ \<Rightarrow> bad ''text payload does not match privacy_mode'')
                         | PrivacyEncrypted \<Rightarrow>
                             (case cq_EncryptedText q of
                                Given c \<Rightarrow>
                                  if is_set (cq_Text q) then bad ''encrypted_text payload does not match privacy_mode''
                                  else (case api_validateEncryptedText h c of
                                    Inl resp \<Rightarrow> (s, resp)
                                  | Inr enc \<Rightarrow> done (CreateEncrypted (he_env he 1) s enc (member_value (cq_ExpiresAt q))))
                              | _ \<Rightarrow> bad ''encrypted_text payload does not match privacy_mode''))))
              | _ \<Rightarrow> bad ''required field is missing''))"

definition multipartError :: "headers \<Rightarrow> err \<Rightarrow> http_response" where
  "multipartError h e =
     (if errors_is e ErrTooLarge \<or> errors_is e max_bytes_error
      then writeError h 413 ''request_too_large'' ''uploaded file or request is too large''
      else if errors_is e ErrEmpty then badRequest h ''file must not be empty''
      else internalError h)"

text \<open>What the loop over the parts keeps: the metadata, the file name, the staged object.\<close>

record upload =
  up_metadata :: "bytes option"
  up_filename :: string
  up_staged :: "staged option"

definition no_upload :: upload where
  "no_upload = \<lparr>up_metadata = None, up_filename = [], up_staged = None\<rparr>"

text \<open>One part: the loop goes on with \<open>Inr\<close>, or returns the response.\<close>

definition read_part ::
  "http_env \<Rightarrow> headers \<Rightarrow> part \<Rightarrow> service \<Rightarrow> upload \<Rightarrow> service \<times> (http_response + upload)" where
  "read_part he h p s u =
     (case ParseMediaType (pt_disposition p) of
        None \<Rightarrow> (s, Inl (badRequest h ''multipart Content-Disposition is invalid''))
      | Some (disposition, ps) \<Rightarrow>
          (let name = (case media_param ps ''name'' of None \<Rightarrow> [] | Some n \<Rightarrow> n);
               filename = (case media_param ps ''filename'' of None \<Rightarrow> [] | Some n \<Rightarrow> n)
           in if disposition \<noteq> ''form-data'' \<or> name = []
              then (s, Inl (badRequest h ''multipart Content-Disposition is invalid''))
              else if name = ''metadata''
              then
                (if up_metadata u \<noteq> None \<or> filename \<noteq> [] \<or> \<not> isJSONMediaType (pt_type p)
                 then (s, Inl (badRequest h ''metadata part is invalid''))
                 else
                   (let body = src_data (pt_source p)
                    in if length body > maxFileMetadataBytes
                       then (s, Inl (writeError h 413 ''request_too_large'' ''metadata part is too large''))
                       else case src_err (pt_source p) of
                         Some e \<Rightarrow> (s, Inl (multipartError h e))
                       | None \<Rightarrow> (s, Inr (u\<lparr>up_metadata := Some body\<rparr>))))
              else if name = ''file''
              then
                (if up_staged u \<noteq> None \<or> filename = [] then (s, Inl (badRequest h ''file part is invalid''))
                 else case sanitizeFilename filename of
                   Inl e \<Rightarrow> (s, Inl (badRequest h ''filename is invalid''))
                 | Inr clean \<Rightarrow>
                     (case StageFile (he_env he 1) (he_key_rnd he) (he_sufs he) (pt_source p) s of
                        (s1, Inl e) \<Rightarrow> (s1, Inl (multipartError h e))
                      | (s1, Inr st) \<Rightarrow> (s1, Inr (u\<lparr>up_filename := clean, up_staged := Some st\<rparr>))))
              else (s, Inl (badRequest h ''multipart part is not supported''))))"

fun read_parts ::
  "http_env \<Rightarrow> headers \<Rightarrow> part_event list \<Rightarrow> service \<Rightarrow> upload \<Rightarrow> service \<times> upload \<times> http_response option" where
  "read_parts he h [] s u = (s, u, None)"
| "read_parts he h (PartError e # ps) s u = (s, u, Some (multipartError h e))"
| "read_parts he h (Part p # ps) s u =
     (case read_part he h p s u of
        (s1, Inl resp) \<Rightarrow> (s1, u, Some resp)
      | (s1, Inr u1) \<Rightarrow> read_parts he h ps s1 u1)"

text \<open>The deferred \<open>staged.Abort\<close>.\<close>

definition abort_staged :: "http_env \<Rightarrow> staged option \<Rightarrow> service \<Rightarrow> service" where
  "abort_staged he staged s =
     (case (staged, sv_store s) of
        (Some st, Some fs) \<Rightarrow>
          (case Abort (ev_io (he_env he 3) 0) st fs of (st1, fs1, e) \<Rightarrow> s\<lparr>sv_store := Some fs1\<rparr>)
      | _ \<Rightarrow> s)"

definition file_checks :: "headers \<Rightarrow> bytes \<Rightarrow> http_response + time option" where
  "file_checks h metadata =
     (case decode_json False metadata of
        None \<Rightarrow> Inl (badRequest h ''metadata is invalid'')
      | Some v \<Rightarrow>
          (case dec_file v of
             None \<Rightarrow> Inl (badRequest h ''metadata is invalid'')
           | Some q \<Rightarrow>
               (case (fq_PayloadKind q, fq_PrivacyMode q) of
                  (Some k, Some p) \<Rightarrow>
                    if \<not> is_set (fq_ExpiresAt q) then Inl (badRequest h ''required metadata field is missing'')
                    else (case (ParsePayloadKind k, ParsePrivacyMode p) of
                      (Inr kind, Inr privacy) \<Rightarrow>
                        if kind \<noteq> PayloadFile \<or> privacy \<noteq> PrivacyStandard
                        then
                          (if kind = PayloadFile \<and> privacy = PrivacyEncrypted
                           then Inl (writeError h 422 ''unsupported_share_type'' ''encrypted files are not implemented'')
                           else Inl (badRequest h ''multipart creation requires FILE + STANDARD''))
                        else Inr (member_value (fq_ExpiresAt q))
                    | _ \<Rightarrow> Inl (badRequest h ''file metadata is invalid''))
                | _ \<Rightarrow> Inl (badRequest h ''required metadata field is missing''))))"

text \<open>The body of \<open>createFile\<close> once it holds an upload slot.\<close>

definition upload_file ::
  "api_options \<Rightarrow> http_env \<Rightarrow> headers \<Rightarrow> http_request \<Rightarrow> service \<Rightarrow> service \<times> http_response" where
  "upload_file opts he h r s =
     (if he_read_deadline he \<or> he_write_deadline he then (s, internalError h)
      else if hr_length r > int maxFileWireBytes
      then (s, writeError h 413 ''request_too_large'' ''request body is too large'')
      else case hr_parts r of
        None \<Rightarrow> (s, badRequest h ''multipart body is invalid'')
      | Some events \<Rightarrow>
          (case read_parts he h events s no_upload of
             (s1, u, Some resp) \<Rightarrow> (abort_staged he (up_staged u) s1, resp)
           | (s1, u, None) \<Rightarrow>
               (case (up_metadata u, up_staged u) of
                  (Some metadata, Some st) \<Rightarrow>
                    (case file_checks h metadata of
                       Inl resp \<Rightarrow> (abort_staged he (Some st) s1, resp)
                     | Inr expiresAt \<Rightarrow>
                         (case CreateFile (he_env he 2) s1 (up_filename u) (Some st) expiresAt of
                            (s2, st2, Inl e) \<Rightarrow> (abort_staged he st2 s2, serviceError h e)
                          | (s2, st2, Inr (v, token)) \<Rightarrow> (s2, created h (ao_fileOrigin opts) v token)))
                | _ \<Rightarrow> (abort_staged he (up_staged u) s1, badRequest h ''metadata and file parts are required''))))"

text \<open>A release of a slot that is held does not block.\<close>

definition release_upload :: "'l control \<Rightarrow> 'l control" where
  "release_upload c = (case ReleaseUpload c of None \<Rightarrow> c | Some c' \<Rightarrow> c')"

definition createFile ::
  "api_options \<Rightarrow> http_env \<Rightarrow> headers \<Rightarrow> http_request \<Rightarrow> 'l api_state \<Rightarrow> 'l api_state \<times> http_response" where
  "createFile opts he h r st =
     (case TryUpload (as_abuse st) of
        (c, False) \<Rightarrow> (st\<lparr>as_abuse := c\<rparr>, rateLimited h 1)
      | (c, True) \<Rightarrow>
          (case upload_file opts he h r (as_shares st) of
             (s, resp) \<Rightarrow> (\<lparr>as_shares = s, as_abuse = release_upload c\<rparr>, resp)))"

definition api_create ::
  "'l lib \<Rightarrow> api_options \<Rightarrow> http_env \<Rightarrow> headers \<Rightarrow> http_request \<Rightarrow> 'l api_state \<Rightarrow> 'l api_state \<times> http_response" where
  "api_create lib opts he h r st =
     (let unsupported = writeError h 415 ''unsupported_media_type''
            ''Content-Type must be application/json or multipart/form-data''
      in case requireChallenge lib opts (as_abuse st) h r of
           Some resp \<Rightarrow> (st, resp)
         | None \<Rightarrow>
             (case requireIdentityEncoding h r of
                Some resp \<Rightarrow> (st, resp)
              | None \<Rightarrow>
                  (case hdr_values ''Content-Type'' (hr_headers r) of
                     [v] \<Rightarrow>
                       (case ParseMediaType v of
                          None \<Rightarrow> (st, unsupported)
                        | Some (mediaType, ps) \<Rightarrow>
                            if equal_fold mediaType ''application/json''
                            then (case createJSON opts he h r (as_shares st) of
                                    (s, resp) \<Rightarrow> (st\<lparr>as_shares := s\<rparr>, resp))
                            else if equal_fold mediaType ''multipart/form-data''
                            then (if (case media_param ps ''boundary'' of None \<Rightarrow> True | Some b \<Rightarrow> b = [])
                                  then (st, badRequest h ''multipart boundary is required'')
                                  else createFile opts he h r st)
                            else (st, unsupported))
                   | _ \<Rightarrow> (st, unsupported))))"


section \<open>Reading, changing, deleting\<close>

definition api_read ::
  "api_options \<Rightarrow> http_env \<Rightarrow> headers \<Rightarrow> share_id \<Rightarrow> service \<Rightarrow> http_response" where
  "api_read opts he h i s =
     (case Get (he_env he 1) s i of
        Inl e \<Rightarrow> serviceError h e
      | Inr v \<Rightarrow> writeJSON h 200 (shareResponse (ao_fileOrigin opts) v))"

text \<open>The patch of a decoded request for a Share of the given kind and privacy, or the refusal.\<close>

definition build_patch :: "headers \<Rightarrow> payload_kind \<Rightarrow> privacy_mode \<Rightarrow> patch_request \<Rightarrow> http_response + patch" where
  "build_patch h kind privacy q =
     (let p0 = \<lparr>PatchText = None, PatchEncryptedText = None, ExpirationSet = is_set (pq_ExpiresAt q),
                PatchExpiresAt = member_value (pq_ExpiresAt q)\<rparr>
      in if \<not> is_set (pq_Text q) \<and> \<not> is_set (pq_EncryptedText q) \<and> \<not> is_set (pq_ExpiresAt q)
         then Inl (badRequest h ''patch must change text or expiration'')
         else if kind = PayloadFile
         then (if is_set (pq_Text q) \<or> is_set (pq_EncryptedText q)
               then Inl (badRequest h ''File Shares only support expiration updates'') else Inr p0)
         else (case privacy of
           PrivacyStandard \<Rightarrow>
             if is_set (pq_EncryptedText q) then Inl (badRequest h ''encrypted_text is not valid for this Share'')
             else (case pq_Text q of
               Absent \<Rightarrow> Inr p0
             | Null \<Rightarrow> Inl (badRequest h ''text must be an object'')
             | Given t \<Rightarrow>
                 (case api_validateText h t of
                    Inl resp \<Rightarrow> Inl resp
                  | Inr txt \<Rightarrow> Inr (p0\<lparr>PatchText := Some txt\<rparr>)))
         | PrivacyEncrypted \<Rightarrow>
             if is_set (pq_Text q) then Inl (badRequest h ''text is not valid for this Share'')
             else (case pq_EncryptedText q of
               Absent \<Rightarrow> Inr p0
             | Null \<Rightarrow> Inl (badRequest h ''encrypted_text must be an object'')
             | Given c \<Rightarrow>
                 (case api_validateEncryptedText h c of
                    Inl resp \<Rightarrow> Inl resp
                  | Inr enc \<Rightarrow> Inr (p0\<lparr>PatchEncryptedText := Some enc\<rparr>)))))"

definition api_patch ::
  "api_options \<Rightarrow> http_env \<Rightarrow> headers \<Rightarrow> http_request \<Rightarrow> share_id \<Rightarrow> service \<Rightarrow> service \<times> http_response" where
  "api_patch opts he h r i s =
     (case authorization_header h r of
        Inl resp \<Rightarrow> (s, resp)
      | Inr candidate \<Rightarrow>
          (case AuthorizeOwner (he_env he 1) s i candidate of
             Inl e \<Rightarrow> (s, serviceError h e)
           | Inr (kind, privacy) \<Rightarrow>
               (case requireJSON h r of
                  Some resp \<Rightarrow> (s, resp)
                | None \<Rightarrow>
                    (case decodeJSON dec_patch r of
                       Inl e \<Rightarrow> (s, decodeError h e)
                     | Inr q \<Rightarrow>
                         (case build_patch h kind privacy q of
                            Inl resp \<Rightarrow> (s, resp)
                          | Inr pt \<Rightarrow>
                              (case Update (he_env he 2) s i candidate pt of
                                 (s1, Inl e) \<Rightarrow> (s1, serviceError h e)
                               | (s1, Inr v) \<Rightarrow> (s1, writeJSON h 200 (shareResponse (ao_fileOrigin opts) v))))))))"

definition api_delete ::
  "http_env \<Rightarrow> headers \<Rightarrow> http_request \<Rightarrow> share_id \<Rightarrow> service \<Rightarrow> service \<times> http_response" where
  "api_delete he h r i s =
     (case authorization_header h r of
        Inl resp \<Rightarrow> (s, resp)
      | Inr candidate \<Rightarrow>
          (case Delete (he_env he 1) s i candidate of
             (s1, None) \<Rightarrow> (s1, http_status h 204)
           | (s1, Some e) \<Rightarrow>
               if errors_as_cleanup e \<noteq> None then (s1, http_status h 204) else (s1, serviceError h e)))"

section \<open>Dispatch\<close>

definition collection ::
  "'l lib \<Rightarrow> api_options \<Rightarrow> http_env \<Rightarrow> headers \<Rightarrow> http_request \<Rightarrow> 'l api_state \<Rightarrow> 'l api_state \<times> http_response" where
  "collection lib opts he h r st =
     (if hr_path r \<noteq> ''/api/v1/shares'' then (st, notFound h)
      else if hr_method r \<noteq> ''POST''
      then (st, writeError (hdr_set ''Allow'' ''POST'' h) 405 ''invalid_request'' ''method not allowed'')
      else case allow lib (he_env he 0) r CreateKind st of
        (st1, False) \<Rightarrow> (st1, rateLimited h 60)
      | (st1, True) \<Rightarrow> api_create lib opts he h r st1)"

definition on_shares :: "'l api_state \<Rightarrow> service \<times> http_response \<Rightarrow> 'l api_state \<times> http_response" where
  "on_shares st x = (case x of (s, resp) \<Rightarrow> (st\<lparr>as_shares := s\<rparr>, resp))"

definition item ::
  "'l lib \<Rightarrow> api_options \<Rightarrow> http_env \<Rightarrow> headers \<Rightarrow> http_request \<Rightarrow> 'l api_state \<Rightarrow> 'l api_state \<times> http_response" where
  "item lib opts he h r st =
     (if hr_method r \<notin> {''GET'', ''PATCH'', ''DELETE''}
      then (st, writeError (hdr_set ''Allow'' ''GET, PATCH, DELETE'' h) 405 ''invalid_request'' ''method not allowed'')
      else case allow lib (he_env he 0) r (if hr_method r = ''GET'' then ReadKind else MutationKind) st of
        (st1, False) \<Rightarrow> (st1, rateLimited h 60)
      | (st1, True) \<Rightarrow>
          (let idValue = trim_prefix (hr_path r) ''/api/v1/shares/''
           in if idValue = [] \<or> CHR ''/'' \<in> set idValue then (st1, notFound h)
              else case ParseShareID idValue of
                Inl e \<Rightarrow> (st1, notFound h)
              | Inr i \<Rightarrow>
                  if hr_method r = ''GET'' then (st1, api_read opts he h i (as_shares st1))
                  else if hr_method r = ''PATCH'' then on_shares st1 (api_patch opts he h r i (as_shares st1))
                  else on_shares st1 (api_delete he h r i (as_shares st1))))"

definition raw_view :: "http_env \<Rightarrow> headers \<Rightarrow> share_id \<Rightarrow> service \<Rightarrow> http_response" where
  "raw_view he h i s =
     (case Get (he_env he 1) s i of
        Inl e \<Rightarrow>
          if errors_is e ErrExpired then http_Error h ''share expired'' 410
          else if errors_is e ErrNotFound then http_Error h ''share not found'' 404
          else http_Error h ''internal error'' 500
      | Inr v \<Rightarrow>
          if EncryptedText v \<noteq> None then http_Error h ''raw view unavailable for encrypted share'' 409
          else if File v \<noteq> None then http_Error h ''share not found'' 404
          else \<lparr>rs_status = 200, rs_headers = h,
                rs_body = (case Text v of None \<Rightarrow> [] | Some t \<Rightarrow> Content t)\<rparr>)"

definition raw ::
  "'l lib \<Rightarrow> http_env \<Rightarrow> headers \<Rightarrow> http_request \<Rightarrow> 'l api_state \<Rightarrow> 'l api_state \<times> http_response" where
  "raw lib he h r st =
     (if hr_method r \<noteq> ''GET'' then (st, http_Error (hdr_set ''Allow'' ''GET'' h) ''method not allowed'' 405)
      else case allow lib (he_env he 0) r ReadKind st of
        (st1, False) \<Rightarrow> (st1, rateLimited h 60)
      | (st1, True) \<Rightarrow>
          (let idValue = trim_prefix (hr_path r) ''/raw/''
           in if idValue = [] \<or> CHR ''/'' \<in> set idValue then (st1, http_Error h ''share not found'' 404)
              else case ParseShareID idValue of
                Inl e \<Rightarrow> (st1, http_Error h ''share not found'' 404)
              | Inr i \<Rightarrow> (st1, raw_view he h i (as_shares st1))))"

definition omit_empty :: "string \<Rightarrow> string \<Rightarrow> (string \<times> json) list" where
  "omit_empty name s = (if s = [] then [] else [(name, JString s)])"

text \<open>\<open>int64(d.Seconds())\<close> of a positive duration.\<close>

definition whole_seconds :: "duration \<Rightarrow> int" where
  "whole_seconds d = d div second"

definition config_json :: "api_options \<Rightarrow> json" where
  "config_json opts =
     JObject ([(''deployment_mode'', JString (if ao_Public opts then ''public'' else ''private'')),
               (''admin_enabled'', JBool (ao_AdminEnabled opts))]
       @ (if ao_Public opts
          then [(''retention'', JObject [(''default_seconds'', JNumber (format_int (whole_seconds (ao_DefaultTTL opts)))),
                                         (''max_seconds'', JNumber (format_int (whole_seconds (ao_MaxTTL opts))))])]
            @ (if pc_provider (ao_ChallengeConfig opts) \<noteq> []
               then [(''challenge'', JObject ((''provider'', JString (pc_provider (ao_ChallengeConfig opts)))
                       # omit_empty ''site_key'' (pc_site_key (ao_ChallengeConfig opts))
                       @ omit_empty ''api_endpoint'' (pc_endpoint (ao_ChallengeConfig opts))
                       @ omit_empty ''hostname'' (pc_hostname (ao_ChallengeConfig opts))))]
               else [])
          else []))"

definition publicConfig :: "api_options \<Rightarrow> headers \<Rightarrow> http_request \<Rightarrow> http_response" where
  "publicConfig opts h r =
     (if hr_method r \<noteq> ''GET''
      then writeError (hdr_set ''Allow'' ''GET'' h) 405 ''invalid_request'' ''method not allowed''
      else writeJSON h 200 (config_json opts))"

definition route ::
  "'l lib \<Rightarrow> api_options \<Rightarrow> http_env \<Rightarrow> headers \<Rightarrow> http_request \<Rightarrow> 'l api_state \<Rightarrow> 'l api_state \<times> http_response" where
  "route lib opts he h r st =
     (if hr_path r = ''/api/v1/config'' then (st, publicConfig opts h r)
      else if hr_path r = ''/api/v1/shares'' then collection lib opts he h r st
      else if has_prefix (hr_path r) ''/api/v1/shares/'' then item lib opts he h r st
      else if has_prefix (hr_path r) ''/api/v1/'' then (st, notFound h)
      else if hr_path r = ''/raw'' \<or> has_prefix (hr_path r) ''/raw/'' then raw lib he h r st
      else (st, http_NotFound h))"

definition is_raw :: "string \<Rightarrow> bool" where
  "is_raw p \<longleftrightarrow> p = ''/raw'' \<or> has_prefix p ''/raw/''"

text \<open>The policy that forbids a document everything.\<close>

definition strict_csp :: string where
  "strict_csp =
     (let none = CHR 0x27 # ''none'' @ [CHR 0x27]
      in ''default-src '' @ none @ ''; base-uri '' @ none @ ''; form-action '' @ none @ ''; frame-ancestors '' @ none
         @ ''; sandbox'')"

definition securityHeaders :: "string \<Rightarrow> headers \<Rightarrow> headers" where
  "securityHeaders p h =
     (let h1 = (if has_prefix p ''/api/v1/''
                then hdr_set ''X-Content-Type-Options'' ''nosniff'' (hdr_set ''Cache-Control'' ''no-store'' h) else h)
      in if is_raw p
         then hdr_set ''Content-Security-Policy'' strict_csp
               (hdr_set ''X-Frame-Options'' ''DENY''
                 (hdr_set ''Referrer-Policy'' ''no-referrer''
                   (hdr_set ''Cache-Control'' ''no-store''
                     (hdr_set ''X-Content-Type-Options'' ''nosniff''
                       (hdr_set ''Content-Type'' ''text/plain; charset=utf-8'' h1)))))
         else h1)"

text \<open>The handler \<open>NewWithOptions\<close> returns.\<close>

definition serve_api ::
  "'l lib \<Rightarrow> api_options \<Rightarrow> http_env \<Rightarrow> http_request \<Rightarrow> 'l api_state \<Rightarrow> 'l api_state \<times> http_response" where
  "serve_api lib opts he r st = route lib opts he (securityHeaders (hr_path r) []) r st"

end
