(* ===== verification/HttpLaws.thy ===== *)
theory HttpLaws
  imports HttpHandlers ShareRetention
begin

text \<open>
  What each handler of \<open>internal/httpapi\<close> does to the Shares: the outcomes of creating, patching and
  deleting, the invariants a request keeps, and the dispatch that leads to them.
\<close>

section \<open>The environment of a request\<close>

definition he_ok :: "http_env \<Rightarrow> bool" where
  "he_ok he \<longleftrightarrow>
     (\<forall>n. rand_ok (he_env he n) \<and> ev_sha (he_env he n) = ev_sha (he_env he 0))
     \<and> (\<forall>k. he_key_rnd he = Some k \<longrightarrow> length k = 16)"

text \<open>The key a staged object will get is not that of a stored one.\<close>

definition key_free :: "http_env \<Rightarrow> service \<Rightarrow> bool" where
  "key_free he s \<longleftrightarrow> (\<forall>k. he_key_rnd he = Some k \<longrightarrow> hex_encode k \<notin> keys_of f_key (files (sv_db s)))"

definition sha_of :: "http_env \<Rightarrow> bytes \<Rightarrow> bytes" where
  "sha_of he = ev_sha (he_env he 0)"

lemma he_ok_env: "he_ok he \<Longrightarrow> rand_ok (he_env he n) \<and> ev_sha (he_env he n) = sha_of he"
  by (simp add: he_ok_def sha_of_def)

text \<open>One Share was added, or the tables are as before.\<close>

definition added :: "http_env \<Rightarrow> service \<Rightarrow> service \<Rightarrow> share \<Rightarrow> owner_token \<Rightarrow> bool" where
  "added he s s' v token \<longleftrightarrow>
     abs_db (sv_db s') = (abs_db (sv_db s))(id_string (ID v) \<mapsto> (stored v, sha_of he (reveal token)))
     \<and> abs_db (sv_db s) (id_string (ID v)) = None"

definition tables_kept :: "service \<Rightarrow> service \<Rightarrow> bool" where
  "tables_kept s s' \<longleftrightarrow> sv_db s' = sv_db s \<and> sv_retention s' = sv_retention s"

lemma tables_kept_refl [simp]: "tables_kept s s"
  by (simp add: tables_kept_def)

section \<open>Statuses\<close>

lemma writeJSON_status [simp]: "rs_status (writeJSON h n v) = n"
  by (simp add: writeJSON_def)

lemma writeError_status [simp]: "rs_status (writeError h n c m) = n"
  by (simp add: writeError_def)

lemma refusal_status [simp]:
  "rs_status (rateLimited h n) = 429" "rs_status (unauthorized h) = 401" "rs_status (notFound h) = 404"
  "rs_status (badRequest h m) = 400" "rs_status (internalError h) = 500"
  "rs_status (http_Error h m n) = n" "rs_status (http_status h n) = n" "rs_status (created h og v t) = 201"
  by (simp_all add: rateLimited_def unauthorized_def notFound_def badRequest_def internalError_def
      http_Error_def http_status_def created_def)

lemma error_statuses:
  "rs_status (serviceError h e) \<in> {400, 401, 404, 410, 500}" "rs_status (decodeError h e) \<in> {400, 413}"
  "rs_status (multipartError h e) \<in> {400, 413, 500}"
  by (simp_all add: serviceError_def decodeError_def multipartError_def)

lemma error_not_ok [simp]:
  "rs_status (serviceError h e) \<noteq> 201" "rs_status (decodeError h e) \<noteq> 201" "rs_status (multipartError h e) \<noteq> 201"
  "rs_status (serviceError h e) \<noteq> 200" "rs_status (decodeError h e) \<noteq> 200" "rs_status (multipartError h e) \<noteq> 200"
  using error_statuses [of h e] by auto

lemma validate_status:
  "api_validateText h t = Inl resp \<Longrightarrow> rs_status resp \<in> {400, 413}"
  "api_validateEncryptedText h c = Inl resp \<Longrightarrow> rs_status resp \<in> {400, 413}"
  by (auto simp: api_validateText_def api_validateEncryptedText_def split: option.splits sum.splits if_splits)

lemma file_checks_status: "file_checks h m = Inl resp \<Longrightarrow> rs_status resp \<in> {400, 422}"
  by (auto simp: file_checks_def split: option.splits sum.splits if_splits)

section \<open>Creating from JSON\<close>

lemma Create_kept: "Create env s t ex = (s', Inl e) \<Longrightarrow> s' = s"
  by (auto simp: Create_def dest: create_Inl split: option.splits)

lemma CreateEncrypted_kept: "CreateEncrypted env s t ex = (s', Inl e) \<Longrightarrow> s' = s"
  by (auto simp: CreateEncrypted_def dest: create_Inl split: option.splits)

text \<open>What \<open>createJSON\<close> does with a request it has decoded.\<close>

definition plain_create :: "http_env \<Rightarrow> headers \<Rightarrow> service \<Rightarrow> create_request \<Rightarrow> service \<Rightarrow> share \<Rightarrow> owner_token \<Rightarrow> bool" where
  "plain_create he h s q s' v token \<longleftrightarrow>
     (\<exists>t tx. cq_Text q = Given t \<and> api_validateText h t = Inr tx
        \<and> Create (he_env he 1) s tx (member_value (cq_ExpiresAt q)) = (s', Inr (v, token)))"

definition encrypted_create :: "http_env \<Rightarrow> headers \<Rightarrow> service \<Rightarrow> create_request \<Rightarrow> service \<Rightarrow> share \<Rightarrow> owner_token \<Rightarrow> bool" where
  "encrypted_create he h s q s' v token \<longleftrightarrow>
     (\<exists>t c. cq_EncryptedText q = Given t \<and> api_validateEncryptedText h t = Inr c
        \<and> CreateEncrypted (he_env he 1) s c (member_value (cq_ExpiresAt q)) = (s', Inr (v, token)))"

lemma createJSON_cases:
  assumes "createJSON opts he h r s = (s', resp)"
  shows "(s' = s \<and> rs_status resp \<noteq> 201)
    \<or> (\<exists>q v token. decodeJSON dec_create r = Inr q \<and> resp = created h (ao_fileOrigin opts) v token
         \<and> (plain_create he h s q s' v token \<or> encrypted_create he h s q s' v token))"
proof -
  have validate: "api_validateText h t = Inl x \<Longrightarrow> rs_status x \<noteq> 201"
    "api_validateEncryptedText h c = Inl x \<Longrightarrow> rs_status x \<noteq> 201" for t c x
    using validate_status [of h] by fastforce+
  show ?thesis
  proof (cases "decodeJSON dec_create r")
    case (Inl e)
    with assms show ?thesis by (auto simp: createJSON_def Let_def)
  next
    case (Inr q)
    let ?x = "member_value (cq_ExpiresAt q)"
    show ?thesis
    proof (cases "\<exists>k p. cq_PayloadKind q = Some k \<and> cq_PrivacyMode q = Some p \<and> is_set (cq_ExpiresAt q)
        \<and> ParsePayloadKind k = Inr PayloadText \<and> (\<exists>m. ParsePrivacyMode p = Inr m)")
      case False
      with assms Inr show ?thesis
        by (auto simp: createJSON_def Let_def split: option.splits sum.splits if_splits payload_kind.splits)
    next
      case True
      then obtain k p m where k: "cq_PayloadKind q = Some k" "cq_PrivacyMode q = Some p" "is_set (cq_ExpiresAt q)"
        "ParsePayloadKind k = Inr PayloadText" "ParsePrivacyMode p = Inr m" by blast
      show ?thesis
      proof (cases m)
        case PrivacyStandard
        with assms Inr k show ?thesis
          by (auto simp: createJSON_def Let_def plain_create_def dest: Create_kept validate
              split: member.splits sum.splits if_splits prod.splits)
      next
        case PrivacyEncrypted
        with assms Inr k show ?thesis
          by (auto simp: createJSON_def Let_def encrypted_create_def dest: CreateEncrypted_kept validate
              split: member.splits sum.splits if_splits prod.splits)
      qed
    qed
  qed
qed

lemma plain_create_added:
  assumes "plain_create he h s q s' v token" "he_ok he" "service_ok s"
  shows "added he s s' v token" "sv_store s' = sv_store s" "service_ok s'"
proof -
  obtain tx ex where c: "Create (he_env he 1) s tx ex = (s', Inr (v, token))"
    using assms(1) by (auto simp: plain_create_def)
  note k = Create_Inr_valid [OF c] and sch = db_ok_schema [OF service_okD(1) [OF assms(3)]]
  show "added he s s' v token"
    using create_text_refines [OF conjunct2 [OF k] sch] he_ok_env [OF assms(2)] by (simp add: added_def)
  show "sv_store s' = sv_store s" using create_files [OF conjunct2 [OF k]] by simp
  show "service_ok s'" using service_ok_Create [of "he_env he 1" s tx ex] he_ok_env [OF assms(2)] assms(3) c by simp
qed

lemma encrypted_create_added:
  assumes "encrypted_create he h s q s' v token" "he_ok he" "service_ok s"
  shows "added he s s' v token" "sv_store s' = sv_store s" "service_ok s'"
proof -
  obtain e ex where c: "CreateEncrypted (he_env he 1) s e ex = (s', Inr (v, token))"
    using assms(1) by (auto simp: encrypted_create_def)
  note k = CreateEncrypted_Inr_valid [OF c] and sch = db_ok_schema [OF service_okD(1) [OF assms(3)]]
  show "added he s s' v token"
    using create_enc_refines [OF conjunct2 [OF k] sch] he_ok_env [OF assms(2)] by (simp add: added_def)
  show "sv_store s' = sv_store s" using create_files [OF conjunct2 [OF k]] by simp
  show "service_ok s'" using service_ok_CreateEncrypted [of "he_env he 1" s e ex] he_ok_env [OF assms(2)] assms(3) c by simp
qed

lemma create_retention:
  assumes "plain_create he h s q s' v token \<or> encrypted_create he h s q s' v token" "retention_ok s"
  shows "retention_ok s'"
  using assms retention_Create [OF assms(2)] retention_CreateEncrypted [OF assms(2)]
  unfolding plain_create_def encrypted_create_def by (metis fst_conv)

section \<open>Uploads\<close>

text \<open>While the parts are read the tables stay, and what is staged is sound.\<close>

definition staged_sound :: "http_env \<Rightarrow> service \<Rightarrow> staged \<Rightarrow> bool" where
  "staged_sound he s st \<longleftrightarrow>
     (\<exists>fs k. sv_store s = Some fs \<and> staged_ok (sha_of he) MaxFileBytes st fs
        \<and> he_key_rnd he = Some k \<and> st_key st = hex_encode k)"

definition upload_inv :: "http_env \<Rightarrow> service \<Rightarrow> service \<Rightarrow> upload \<Rightarrow> bool" where
  "upload_inv he s0 s u \<longleftrightarrow>
     tables_kept s0 s \<and> service_ok s \<and> (\<forall>st. up_staged u = Some st \<longrightarrow> staged_sound he s st)"

lemma upload_inv_start: "service_ok s \<Longrightarrow> upload_inv he s s no_upload"
  by (simp add: upload_inv_def no_upload_def)

lemma StageFile_sound:
  assumes "he_ok he" "StageFile (he_env he n) (he_key_rnd he) sufs src s = (s1, x)" "service_ok s"
  shows "tables_kept s s1" "service_ok s1" "x = Inr st \<Longrightarrow> staged_sound he s1 st"
proof -
  show "tables_kept s s1"
    using assms(2) by (auto simp: StageFile_def tables_kept_def split: option.splits prod.splits)
  show "service_ok s1"
    using service_ok_StageFile [OF assms(3), of "he_env he n" "he_key_rnd he" sufs src] assms(2) by simp
  assume x: "x = Inr st"
  then obtain fs0 fs where stage: "Stage (ev_io (he_env he n) 0) (ev_now (he_env he n)) (sha_of he) (he_key_rnd he) sufs src
      MaxFileBytes fs0 = (fs, Inr st)" and s1: "sv_store s1 = Some fs"
    using assms(2) he_ok_env [OF assms(1), of n] by (auto simp: StageFile_def split: option.splits prod.splits)
  obtain k where k: "he_key_rnd he = Some k"
    using stage by (cases "he_key_rnd he") (auto simp: Stage_def generateKey_def)
  then have "length k = 16" using assms(1) by (simp add: he_ok_def)
  from Stage_ok [OF stage [unfolded k] this] s1 k show "staged_sound he s1 st"
    by (auto simp: staged_sound_def)
qed

lemma read_part_inv:
  assumes ok: "he_ok he" and inv: "upload_inv he s0 s u" and p: "read_part he h p s u = (s1, x)"
  shows "(\<exists>resp. x = Inl resp \<and> upload_inv he s0 s1 u \<and> rs_status resp \<in> {400, 413, 500})
    \<or> (\<exists>u1. x = Inr u1 \<and> upload_inv he s0 s1 u1)"
proof (cases "s1 = s \<and> (\<exists>resp. x = Inl resp)")
  case True
  then obtain resp where x: "x = Inl resp" by blast
  then have "rs_status resp \<in> {400, 413, 500}"
    using p error_statuses(3) [of h]
    by (auto simp: read_part_def Let_def split: option.splits prod.splits sum.splits if_splits)
  with True inv x show ?thesis by simp
next
  case False
  then have "(\<exists>body. s1 = s \<and> x = Inr (u\<lparr>up_metadata := Some body\<rparr>))
    \<or> (\<exists>clean z. up_staged u = None \<and> StageFile (he_env he 1) (he_key_rnd he) (he_sufs he) (pt_source p) s = (s1, z)
         \<and> ((\<exists>e. z = Inl e \<and> x = Inl (multipartError h e))
            \<or> (\<exists>st. z = Inr st \<and> x = Inr (u\<lparr>up_filename := clean, up_staged := Some st\<rparr>))))"
    using p by (auto simp: read_part_def Let_def split: option.splits prod.splits sum.splits if_splits)
  then show ?thesis
  proof (elim disjE exE conjE)
    fix body assume "s1 = s" "x = Inr (u\<lparr>up_metadata := Some body\<rparr>)"
    with inv show ?thesis by (simp add: upload_inv_def)
  next
    fix clean z e
    assume h: "up_staged u = None" "StageFile (he_env he 1) (he_key_rnd he) (he_sufs he) (pt_source p) s = (s1, z)"
      "z = Inl e" "x = Inl (multipartError h e)"
    have "service_ok s" using inv by (simp add: upload_inv_def)
    from StageFile_sound(1,2) [OF ok h(2) this] inv h(1)
    have "upload_inv he s0 s1 u" by (simp add: upload_inv_def tables_kept_def)
    with h(4) error_statuses(3) show ?thesis by blast
  next
    fix clean z st
    assume h: "StageFile (he_env he 1) (he_key_rnd he) (he_sufs he) (pt_source p) s = (s1, z)"
      "z = Inr st" "x = Inr (u\<lparr>up_filename := clean, up_staged := Some st\<rparr>)"
    have "service_ok s" using inv by (simp add: upload_inv_def)
    from StageFile_sound [OF ok h(1) this] inv h(2)
    have "upload_inv he s0 s1 (u\<lparr>up_filename := clean, up_staged := Some st\<rparr>)"
      by (simp add: upload_inv_def tables_kept_def)
    with h(3) show ?thesis by blast
  qed
qed

lemma read_parts_inv:
  assumes "he_ok he" "upload_inv he s0 s u" "read_parts he h ps s u = (s1, u1, x)"
  shows "upload_inv he s0 s1 u1 \<and> (\<forall>resp. x = Some resp \<longrightarrow> rs_status resp \<in> {400, 413, 500})"
  using assms(2,3)
proof (induction ps arbitrary: s u)
  case (Cons e ps)
  show ?case
  proof (cases e)
    case (Part p)
    obtain s2 y where p2: "read_part he h p s u = (s2, y)" by fastforce
    from read_part_inv [OF assms(1) Cons.prems(1) p2] Cons.prems(2) Part p2 Cons.IH show ?thesis by auto
  next
    case (PartError er)
    with Cons.prems error_statuses(3) [of h er] show ?thesis by auto
  qed
qed simp

lemma abort_staged_kept:
  assumes "service_ok s" "\<forall>st. x = Some st \<longrightarrow> st_temp st = [] \<or> (\<exists>y. st_temp st = ''.stage-'' @ y)"
  shows "tables_kept s (abort_staged he x s)" "service_ok (abort_staged he x s)"
proof -
  have "tables_kept s (abort_staged he x s) \<and> service_ok (abort_staged he x s)"
  proof (cases "\<exists>st fs. x = Some st \<and> sv_store s = Some fs")
    case True
    then obtain st fs where x: "x = Some st" "sv_store s = Some fs" by blast
    obtain st1 fs1 e where a: "Abort (ev_io (he_env he 3) 0) st fs = (st1, fs1, e)" by (metis prod_cases3)
    have "store_present fs1 k = store_present fs k" for k
      using Abort_present [of st "ev_io (he_env he 3) 0" fs k] assms(2) x a by simp
    with assms(1) x(2) have "objects_ok (sv_db s) (Some fs1)" by (simp add: service_ok_def objects_ok_def)
    with assms(1) x a show ?thesis by (simp add: abort_staged_def tables_kept_def service_ok_def)
  qed (use assms(1) in \<open>auto simp: abort_staged_def split: option.split\<close>)
  then show "tables_kept s (abort_staged he x s)" "service_ok (abort_staged he x s)" by simp_all
qed

lemma abort_tables: "tables_kept s (abort_staged he x s)"
  by (auto simp: abort_staged_def tables_kept_def split: option.split prod.split)

lemma sound_temp: "staged_sound he s st \<Longrightarrow> st_temp st = [] \<or> (\<exists>y. st_temp st = ''.stage-'' @ y)"
  by (auto simp: staged_sound_def dest: staged_ok_temp)

end
