(* ===== verification/HttpShares.thy ===== *)
theory HttpShares
  imports HttpLaws
begin

text \<open>
  The outcome of an upload, of a patch and of a deletion over HTTP, and what one request as a whole
  can do to the Shares: the dispatch of \<open>internal/httpapi\<close> by cases.
\<close>

section \<open>Uploads\<close>

lemma tables_kept_trans: "tables_kept s s1 \<Longrightarrow> tables_kept s1 s2 \<Longrightarrow> tables_kept s s2"
  by (simp add: tables_kept_def)

lemma tables_kept_retention: "tables_kept s s' \<Longrightarrow> retention_ok s \<Longrightarrow> retention_ok s'"
  by (simp add: tables_kept_def retention_ok_def)

lemma tables_kept_key_free: "tables_kept s s' \<Longrightarrow> key_free he s \<Longrightarrow> key_free he s'"
  by (simp add: tables_kept_def key_free_def)

lemma CreateFile_error:
  assumes "staged_sound he s1 st"
    and c: "CreateFile env s1 name (Some st) ex = (s', st2, Inl e)"
  shows "tables_kept s1 s' \<and> (\<forall>x. st2 = Some x \<longrightarrow> st_temp x = [])"
proof -
  obtain fs where fs: "sv_store s1 = Some fs" "staged_ok (sha_of he) MaxFileBytes st fs"
    using assms(1) by (auto simp: staged_sound_def)
  obtain st3 where cf: "create_file env s1 fs name st ex = (s', st3, Inl e)" and st3: "st2 = Some st3"
    using c fs(1) by (auto simp: CreateFile_def split: prod.splits)
  have db: "sv_db s' = sv_db s1" by (rule create_file_failed [OF cf])
  from cf have "sv_retention s' = sv_retention s1 \<and> st_temp st3 = []"
  proof (cases rule: create_file_cases)
    case (failed st1 fs1 e')
    have "st_temp st1 = [] \<or> (\<exists>x. st_temp st1 = ''.stage-'' @ x)"
      using failed(2) Commit_keeps [of "ev_io env 0" st fs] staged_ok_temp [OF fs(2)] by auto
    from uncommitted_effect(2) [OF failed(1) this] uncommitted_clears [OF failed(1)] show ?thesis by blast
  qed simp_all
  with db st3 show ?thesis by (simp add: tables_kept_def)
qed

lemma CreateFile_invariants:
  assumes "he_ok he" "staged_sound he s1 st" "service_ok s1" "key_free he s1"
    and c: "CreateFile (he_env he 2) s1 name (Some st) ex = (s', st2, x)"
  shows "service_ok s'" "retention_ok s1 \<Longrightarrow> retention_ok s'"
proof -
  obtain fs k where fs: "sv_store s1 = Some fs" "staged_ok (sha_of he) MaxFileBytes st fs"
    "he_key_rnd he = Some k" "st_key st = hex_encode k" using assms(2) by (auto simp: staged_sound_def)
  note sha = he_ok_env [OF assms(1), of 2]
  show "service_ok s'"
    using service_ok_CreateFile [OF assms(3) fs(1), of "he_env he 2" st name ex] assms(4) fs(2-4) sha c
    by (simp add: key_free_def)
  show "retention_ok s1 \<Longrightarrow> retention_ok s'"
    using retention_create_file [of "he_env he 2" s1 fs name st ex] fs(1,2) sha c
    by (auto simp: CreateFile_def split: prod.splits)
qed

lemma CreateFile_added:
  assumes "he_ok he" "staged_sound he s1 st" "service_ok s1" "tables_kept s s1"
    and c: "CreateFile (he_env he 2) s1 name (Some st) ex = (s', st2, Inr (v, token))"
  shows "added he s s' v token"
proof -
  obtain fs where fs: "sv_store s1 = Some fs" "staged_ok (sha_of he) MaxFileBytes st fs"
    using assms(2) by (auto simp: staged_sound_def)
  note sha = he_ok_env [OF assms(1), of 2]
  obtain st3 where "create_file (he_env he 2) s1 fs name st ex = (s', st3, Inr (v, token))"
    using c fs(1) by (auto simp: CreateFile_def split: prod.splits)
  from create_file_refines [OF this service_okD(1) [OF assms(3)]] fs(2) sha assms(4) show ?thesis
    by (simp add: added_def tables_kept_def)
qed

definition file_create :: "http_env \<Rightarrow> service \<Rightarrow> service \<Rightarrow> share \<Rightarrow> owner_token \<Rightarrow> bool" where
  "file_create he s s' v token \<longleftrightarrow>
     (\<exists>s1 st st2 name ex. tables_kept s s1 \<and> service_ok s1 \<and> staged_sound he s1 st
        \<and> CreateFile (he_env he 2) s1 name (Some st) ex = (s', st2, Inr (v, token)))"

lemma upload_file_cases:
  assumes ok: "he_ok he" "service_ok s" "key_free he s" and u: "upload_file opts he h r s = (s', resp)"
  shows "service_ok s' \<and> (retention_ok s \<longrightarrow> retention_ok s')
    \<and> (tables_kept s s' \<and> rs_status resp \<noteq> 201
       \<or> (\<exists>v token. resp = created h (ao_fileOrigin opts) v token \<and> file_create he s s' v token))"
proof (cases "s' = s \<and> rs_status resp \<noteq> 201")
  case True
  with ok show ?thesis by simp
next
  case False
  then obtain events where events: "hr_parts r = Some events" "\<not> (he_read_deadline he \<or> he_write_deadline he)"
    "\<not> hr_length r > int maxFileWireBytes"
    using u by (auto simp: upload_file_def split: if_splits option.splits)
  obtain s1 u1 x where parts: "read_parts he h events s no_upload = (s1, u1, x)" by (metis prod_cases3)
  note inv = read_parts_inv [OF ok(1) upload_inv_start [OF ok(2)] parts]
  have s1: "tables_kept s s1" "service_ok s1" "\<And>st. up_staged u1 = Some st \<Longrightarrow> staged_sound he s1 st"
    using inv by (auto simp: upload_inv_def)
  have ret: "retention_ok s \<longrightarrow> retention_ok s2" if "tables_kept s s2" for s2
    using tables_kept_retention [OF that] by blast
  have drop: "service_ok (abort_staged he y s1) \<and> tables_kept s (abort_staged he y s1)"
    if "\<forall>st. y = Some st \<longrightarrow> staged_sound he s1 st" for y
  proof -
    have "\<forall>st. y = Some st \<longrightarrow> st_temp st = [] \<or> (\<exists>x. st_temp st = ''.stage-'' @ x)"
      using that sound_temp by blast
    from abort_staged_kept [OF s1(2) this, of he] tables_kept_trans [OF s1(1)] show ?thesis by simp
  qed
  show ?thesis
  proof (cases "s' = abort_staged he (up_staged u1) s1 \<and> rs_status resp \<noteq> 201")
    case True
    with drop [of "up_staged u1"] s1(3) ret show ?thesis by simp
  next
    case False
    then obtain m st ex where st: "x = None" "up_metadata u1 = Some m" "up_staged u1 = Some st"
      "file_checks h m = Inr ex"
      using u events parts inv file_checks_status [of h]
      by (fastforce simp: upload_file_def split: if_splits option.splits sum.splits)
    obtain s2 st2 z where c: "CreateFile (he_env he 2) s1 (up_filename u1) (Some st) ex = (s2, st2, z)"
      by (metis prod_cases3)
    note sound = s1(3) [OF st(3)]
    note kept = CreateFile_invariants [OF ok(1) sound s1(2) tables_kept_key_free [OF s1(1) ok(3)] c]
    show ?thesis
    proof (cases z)
      case (Inl e)
      then have s': "s' = abort_staged he st2 s2" "resp = serviceError h e"
        using u events parts st c by (simp_all add: upload_file_def)
      note err = CreateFile_error [OF sound c [unfolded Inl]]
      have t: "tables_kept s s2" using err tables_kept_trans [OF s1(1)] by blast
      have "\<forall>x. st2 = Some x \<longrightarrow> st_temp x = [] \<or> (\<exists>y. st_temp x = ''.stage-'' @ y)" using err by simp
      from abort_staged_kept [OF kept(1) this, of he] tables_kept_trans [OF t]
      have "tables_kept s s'" "service_ok s'" by (simp_all add: s'(1))
      with ret s'(2) show ?thesis by simp
    next
      case (Inr b)
      obtain v token where b: "b = (v, token)" by fastforce
      with u events parts st c Inr have "s' = s2" "resp = created h (ao_fileOrigin opts) v token"
        by (simp_all add: upload_file_def)
      moreover have "file_create he s s' v token"
        unfolding file_create_def using s1 st(3) c Inr b calculation by blast
      ultimately show ?thesis using kept tables_kept_retention [OF s1(1)] by blast
    qed
  qed
qed

end
