(* ===== verification/HttpSteps.thy ===== *)
theory HttpSteps
  imports HttpShares
begin

text \<open>
  One request as a step of the abstract Share store: \<open>share_step\<close> is what the API promises of a
  request and the status of its response, and \<open>serve_api\<close> of \<open>HttpHandlers\<close> refines it.
\<close>

section \<open>The specification\<close>

definition bearer :: "http_request \<Rightarrow> string option" where
  "bearer r = (case authorization_header [] r of Inl resp \<Rightarrow> None | Inr token \<Rightarrow> Some token)"

lemma authorization_bearer: "authorization_header h r = Inr c \<Longrightarrow> bearer r = Some c"
  by (auto simp: bearer_def authorization_header_def split: list.splits if_splits)

text \<open>
  A successful \<open>POST\<close> adds a Share at a free id; a successful \<open>PATCH\<close> or \<open>DELETE\<close> changes the
  addressed Share, not expired, whose verifier is the digest of the presented token; any other
  response leaves the store as it is.
\<close>

inductive share_step :: "http_env \<Rightarrow> http_request \<Rightarrow> store_map \<Rightarrow> nat \<Rightarrow> store_map \<Rightarrow> bool" for he r where
  unchanged: "n \<noteq> 201 \<Longrightarrow> (hr_method r = ''PATCH'' \<longrightarrow> n \<noteq> 200) \<Longrightarrow> (hr_method r = ''DELETE'' \<longrightarrow> n \<noteq> 204)
    \<Longrightarrow> share_step he r m n m"
| posted: "hr_method r = ''POST'' \<Longrightarrow> hr_path r = ''/api/v1/shares'' \<Longrightarrow> m (id_string (ID v)) = None
    \<Longrightarrow> m' = m(id_string (ID v) \<mapsto> (stored v, sha_of he (reveal token))) \<Longrightarrow> share_step he r m 201 m'"
| patched: "hr_method r = ''PATCH'' \<Longrightarrow> hr_path r = ''/api/v1/shares/'' @ id_string i \<Longrightarrow> bearer r = Some c
    \<Longrightarrow> owner_accepts c \<Longrightarrow> m (id_string i) = Some (v, sha_of he c)
    \<Longrightarrow> \<not> IsExpired (ExpiresAt v) (serverNow (he_env he 2))
    \<Longrightarrow> m' = m(id_string i \<mapsto> (patched pt (serverNow (he_env he 2)) v, sha_of he c))
    \<Longrightarrow> share_step he r m 200 m'"
| deleted: "hr_method r = ''DELETE'' \<Longrightarrow> hr_path r = ''/api/v1/shares/'' @ id_string i \<Longrightarrow> bearer r = Some c
    \<Longrightarrow> owner_accepts c \<Longrightarrow> m (id_string i) = Some (v, sha_of he c)
    \<Longrightarrow> \<not> IsExpired (ExpiresAt v) (serverNow (he_env he 1)) \<Longrightarrow> m' = m(id_string i := None)
    \<Longrightarrow> share_step he r m 204 m'"

inductive_cases share_stepE: "share_step he r m n m'"

section \<open>Each handler\<close>

text \<open>What a handler has to keep, with the step it makes.\<close>

definition handled :: "http_env \<Rightarrow> http_request \<Rightarrow> service \<Rightarrow> service \<Rightarrow> http_response \<Rightarrow> bool" where
  "handled he r s s' resp \<longleftrightarrow>
     service_ok s' \<and> (retention_ok s \<longrightarrow> retention_ok s')
     \<and> share_step he r (abs_db (sv_db s)) (rs_status resp) (abs_db (sv_db s'))"

definition refusal :: "http_request \<Rightarrow> http_response \<Rightarrow> bool" where
  "refusal r resp \<longleftrightarrow> rs_status resp \<noteq> 201 \<and> (hr_method r = ''PATCH'' \<longrightarrow> rs_status resp \<noteq> 200)
     \<and> (hr_method r = ''DELETE'' \<longrightarrow> rs_status resp \<noteq> 204)"

lemma refused_step: "service_ok s \<Longrightarrow> refusal r resp \<Longrightarrow> handled he r s s resp"
  by (simp add: handled_def refusal_def share_step.unchanged)

lemma kept_step:
  assumes "tables_kept s s'" "service_ok s'" "refusal r resp"
  shows "handled he r s s' resp"
  using assms tables_kept_retention [OF assms(1)]
  by (auto simp: handled_def refusal_def tables_kept_def intro: share_step.unchanged)

lemma added_step:
  assumes "added he s s' v token" "service_ok s'" "retention_ok s \<longrightarrow> retention_ok s'"
    and "hr_method r = ''POST''" "hr_path r = ''/api/v1/shares''"
  shows "handled he r s s' (created h og v token)"
  using assms by (auto simp: handled_def added_def intro!: share_step.posted)

lemma error_refusal [simp]:
  "refusal r (serviceError h e)" "refusal r (decodeError h e)" "refusal r (multipartError h e)"
  using error_statuses [of h e] by (auto simp: refusal_def)

lemma refusals [simp]:
  "refusal r (rateLimited h n)" "refusal r (unauthorized h)" "refusal r (notFound h)"
  "refusal r (badRequest h m)" "refusal r (internalError h)"
  "400 \<le> n \<Longrightarrow> refusal r (writeError h n c m)" "400 \<le> n \<Longrightarrow> refusal r (http_Error h m n)"
  by (simp_all add: refusal_def)

lemma createJSON_handled:
  assumes "he_ok he" "service_ok s" and c: "createJSON opts he h r s = (s', resp)"
    and r: "hr_method r = ''POST''" "hr_path r = ''/api/v1/shares''"
  shows "handled he r s s' resp"
  using createJSON_cases [OF c]
proof (elim disjE conjE exE)
  assume "s' = s" "rs_status resp \<noteq> 201"
  with assms(2) r show ?thesis by (simp add: refused_step refusal_def)
next
  fix q v token
  assume p: "resp = created h (ao_fileOrigin opts) v token" "plain_create he h s q s' v token"
  from plain_create_added [OF p(2) assms(1,2)] create_retention [OF disjI1 [OF p(2)]]
  show ?thesis unfolding p(1) by (intro added_step) (simp_all add: r)
next
  fix q v token
  assume p: "resp = created h (ao_fileOrigin opts) v token" "encrypted_create he h s q s' v token"
  from encrypted_create_added [OF p(2) assms(1,2)] create_retention [OF disjI2 [OF p(2)]]
  show ?thesis unfolding p(1) by (intro added_step) (simp_all add: r)
qed

lemma upload_file_handled:
  assumes ok: "he_ok he" "service_ok s" "key_free he s" and u: "upload_file opts he h r s = (s', resp)"
    and r: "hr_method r = ''POST''" "hr_path r = ''/api/v1/shares''"
  shows "handled he r s s' resp"
  using upload_file_cases [OF ok u]
proof (elim disjE conjE exE)
  assume "tables_kept s s'" "rs_status resp \<noteq> 201" "service_ok s'"
  with r show ?thesis by (intro kept_step) (simp_all add: refusal_def)
next
  fix v token
  assume a: "resp = created h (ao_fileOrigin opts) v token" "file_create he s s' v token" "service_ok s'"
    "retention_ok s \<longrightarrow> retention_ok s'"
  have "added he s s' v token" using a(2) CreateFile_added [OF ok(1)] unfolding file_create_def by blast
  with a r show ?thesis by (simp add: added_step)
qed

lemma api_patch_handled:
  assumes ok: "he_ok he" "service_ok s" and u: "api_patch opts he h r i s = (s', resp)"
    and r: "hr_method r = ''PATCH''" "hr_path r = ''/api/v1/shares/'' @ id_string i"
  shows "handled he r s s' resp"
proof (cases "s' = s \<and> refusal r resp")
  case True
  with ok show ?thesis by (simp add: refused_step)
next
  case False
  have build: "refusal r x" if "build_patch h k p q = Inl x" for k p q x
    using that validate_status [of h]
    by (fastforce simp: build_patch_def Let_def refusal_def split: if_splits privacy_mode.splits member.splits sum.splits)
  have ident: "refusal r x" if "requireJSON h r = Some x" for x
    using that by (auto simp: requireJSON_def requireIdentityEncoding_def split: option.splits list.splits if_splits)
  have auth: "refusal r x" if "authorization_header h r = Inl x" for x
    using that by (auto simp: authorization_header_def split: list.splits if_splits)
  obtain c pt v where c: "authorization_header h r = Inr c" "Update (he_env he 2) s i c pt = (s', Inr v)"
    "rs_status resp = 200"
    using u False build ident auth
    by (fastforce simp: api_patch_def dest: Update_Inl split: sum.splits option.splits prod.splits)
  obtain v0 where v0: "abs_db (sv_db s) (id_string i) = Some (v0, sha_of he c)"
    "\<not> IsExpired (ExpiresAt v0) (serverNow (he_env he 2))" "v = patched pt (serverNow (he_env he 2)) v0"
    "abs_db (sv_db s') = (abs_db (sv_db s))(id_string i \<mapsto> (v, sha_of he c))"
    using Update_refines [OF c(2) service_okD(1) [OF ok(2)]] he_ok_env [OF ok(1), of 2] by metis
  have acc: "owner_accepts c" using c(2) by (rule Update_Inr) (simp add: VerifyOwnerToken_iff)
  have "share_step he r (abs_db (sv_db s)) 200 (abs_db (sv_db s'))"
    by (rule share_step.patched [where i = i and c = c and v = v0 and pt = pt])
       (use r authorization_bearer [OF c(1)] acc v0 in simp_all)
  with c(3) service_ok_Update [OF ok(2), of "he_env he 2" i c pt] c(2)
    retention_Update [of s "he_env he 2" i c pt] db_ok_schema [OF service_okD(1) [OF ok(2)]]
  show ?thesis by (simp add: handled_def)
qed

lemma Delete_error:
  assumes "Delete env s i c = (s', Some e)" "errors_as_cleanup e = None"
  shows "s' = s"
  using assms(1) by (cases rule: Delete_cases) (use assms(2) in auto)

lemma Delete_done:
  assumes d: "Delete env s i c = (s', x)" and x: "\<forall>e. x = Some e \<longrightarrow> errors_as_cleanup e \<noteq> None" and ok: "service_ok s"
  obtains v where "abs_db (sv_db s) (id_string i) = Some (v, ev_sha env c)" "owner_accepts c"
    "\<not> IsExpired (ExpiresAt v) (serverNow env)" "abs_db (sv_db s') = (abs_db (sv_db s))(id_string i := None)"
  using d
proof (cases rule: Delete_cases)
  case (deleted a fs' key)
  from deleted(1) obtain r0 where "row_of r_id (id_string i) (shares (sv_db s)) = Some r0"
    "\<not> isExpired (r_expires r0) (serverNow env)" "au_verifier a = r_verifier r0"
    by (rule loadAuthorization_Inr)
  then show thesis
    using deleted(2,3) abs_delete_share [OF db_ok_schema [OF service_okD(1) [OF ok]]]
    by (intro that) (auto simp: VerifyOwnerToken_iff abs_db_def isExpired_def abs_share_def)
qed (use x in auto)

lemma api_delete_handled:
  assumes ok: "he_ok he" "service_ok s" and u: "api_delete he h r i s = (s', resp)"
    and r: "hr_method r = ''DELETE''" "hr_path r = ''/api/v1/shares/'' @ id_string i"
  shows "handled he r s s' resp"
proof (cases "s' = s \<and> refusal r resp")
  case True
  with ok show ?thesis by (simp add: refused_step)
next
  case False
  have auth: "refusal r x" if "authorization_header h r = Inl x" for x
    using that by (auto simp: authorization_header_def split: list.splits if_splits)
  obtain c where c0: "authorization_header h r = Inr c"
    using u False auth by (cases "authorization_header h r") (auto simp: api_delete_def)
  obtain s1 x where d: "Delete (he_env he 1) s i c = (s1, x)" by fastforce
  have x: "\<forall>e. x = Some e \<longrightarrow> errors_as_cleanup e \<noteq> None"
    using u False c0 d Delete_error [of "he_env he 1" s i c s1]
    by (auto simp: api_delete_def split: option.splits if_splits) (metis not_None_eq surj_pair)+
  then have c: "authorization_header h r = Inr c" "Delete (he_env he 1) s i c = (s', x)" "rs_status resp = 204"
    using u c0 d by (auto simp: api_delete_def split: option.splits if_splits)
  note c = this x
  from c(2,4) ok(2) obtain v where v: "abs_db (sv_db s) (id_string i) = Some (v, sha_of he c)" "owner_accepts c"
    "\<not> IsExpired (ExpiresAt v) (serverNow (he_env he 1))"
    "abs_db (sv_db s') = (abs_db (sv_db s))(id_string i := None)"
    using he_ok_env [OF ok(1), of 1] by (metis Delete_done)
  have "share_step he r (abs_db (sv_db s)) 204 (abs_db (sv_db s'))"
    by (rule share_step.deleted [where i = i and c = c and v = v])
       (use r authorization_bearer [OF c(1)] v in simp_all)
  with c(3) service_ok_Delete [OF ok(2), of "he_env he 1" i c] retention_Delete [of s "he_env he 1" i c] c(2)
  show ?thesis by (simp add: handled_def)
qed

section \<open>The dispatch\<close>

lemma requireChallenge_refusal: "requireChallenge lib opts c h r = Some x \<Longrightarrow> rs_status x \<in> {403, 503}"
  by (auto simp: requireChallenge_def split: option.splits list.splits if_splits)

lemma requireIdentityEncoding_refusal: "requireIdentityEncoding h r = Some x \<Longrightarrow> rs_status x = 415"
  by (auto simp: requireIdentityEncoding_def split: if_splits)

lemma allow_shares: "allow lib env r k st = (st1, b) \<Longrightarrow> as_shares st1 = as_shares st"
  by (auto simp: allow_def split: prod.splits)

lemma allow_control: "allow lib env r k st = (st1, b) \<Longrightarrow> control_ok (as_abuse st) \<Longrightarrow> control_ok (as_abuse st1)"
  using control_ok_Allow [of "as_abuse st" "lb_limiter lib" "ev_now env" "hr_remote r"
      "hdr_get ''X-Forwarded-For'' (hr_headers r)" k]
  by (auto simp: allow_def split: prod.splits)

definition slots :: "'l control \<Rightarrow> nat \<times> nat" where
  "slots c = (ct_uploads c, ct_downloads c)"

lemma release_upload_slot: "TryUpload c = (c1, True) \<Longrightarrow> release_upload c1 = c"
  by (auto simp: TryUpload_def release_upload_def ReleaseUpload_def split: if_splits)

lemma try_upload_refused: "TryUpload c = (c1, False) \<Longrightarrow> c1 = c"
  by (auto simp: TryUpload_def split: if_splits)

text \<open>What \<open>createFile\<close> does: it gives back the slot it took, and the rest is \<open>upload_file\<close>.\<close>

lemma createFile_cases:
  assumes "createFile opts he h r st = (st', resp)"
  shows "as_abuse st' = as_abuse st \<and>
    (as_shares st' = as_shares st \<and> resp = rateLimited h 1
     \<or> upload_file opts he h r (as_shares st) = (as_shares st', resp))"
  using assms release_upload_slot [of "as_abuse st"] try_upload_refused [of "as_abuse st"]
  by (auto simp: createFile_def split: prod.splits bool.splits)

lemma api_create_handled:
  assumes ok: "he_ok he" "service_ok (as_shares st)" "key_free he (as_shares st)"
    and c: "api_create lib opts he h r st = (st', resp)"
    and r: "hr_method r = ''POST''" "hr_path r = ''/api/v1/shares''"
  shows "handled he r (as_shares st) (as_shares st') resp \<and> as_abuse st' = as_abuse st"
proof -
  have rf: "refusal r x" if "400 \<le> rs_status x" for x using that r by (simp add: refusal_def)
  have "st' = st \<and> 400 \<le> rs_status resp
    \<or> as_abuse st' = as_abuse st \<and> createJSON opts he h r (as_shares st) = (as_shares st', resp)
    \<or> createFile opts he h r st = (st', resp)"
    using c requireChallenge_refusal [of lib opts "as_abuse st" h r] requireIdentityEncoding_refusal [of h r]
    by (auto simp: api_create_def Let_def split: option.splits list.splits if_splits prod.splits)
  then show ?thesis
  proof (elim disjE conjE)
    assume "createFile opts he h r st = (st', resp)"
    from createFile_cases [OF this] show ?thesis
      using upload_file_handled [OF ok _ r] refused_step [OF ok(2)] by auto
  qed (use ok rf refused_step createJSON_handled [OF ok(1,2) _ r] in auto)
qed

text \<open>The Shares after a request are as before, or one of the three handlers has run on them.\<close>

lemma collection_handled:
  assumes ok: "he_ok he" "service_ok (as_shares st)" "key_free he (as_shares st)"
    and c: "collection lib opts he h r st = (st', resp)" "hr_path r = ''/api/v1/shares''"
  shows "handled he r (as_shares st) (as_shares st') resp
    \<and> (control_ok (as_abuse st) \<longrightarrow> control_ok (as_abuse st'))"
proof (cases "hr_method r = ''POST''")
  case False
  with c ok show ?thesis by (auto simp: collection_def intro!: refused_step)
next
  case True
  obtain st1 b where a: "allow lib (he_env he 0) r CreateKind st = (st1, b)" by fastforce
  note a1 = allow_shares [OF a] and a2 = allow_control [OF a]
  show ?thesis
  proof (cases b)
    case False
    with c True a a1 a2 ok show ?thesis by (auto simp: collection_def intro!: refused_step)
  next
    case b: True
    then have d: "api_create lib opts he h r st1 = (st', resp)" using c True a by (simp add: collection_def)
    from api_create_handled [OF ok(1) _ _ d True c(2)] ok a1 a2 show ?thesis by simp
  qed
qed

lemma api_read_refusal: "hr_method r = ''GET'' \<Longrightarrow> refusal r (api_read opts he h i s)"
  using error_statuses(1) [of h] by (auto simp: api_read_def refusal_def split: sum.splits)

lemma item_handled:
  assumes ok: "he_ok he" "service_ok (as_shares st)"
    and c: "item lib opts he h r st = (st', resp)" "has_prefix (hr_path r) ''/api/v1/shares/''"
  shows "handled he r (as_shares st) (as_shares st') resp
    \<and> (control_ok (as_abuse st) \<longrightarrow> control_ok (as_abuse st'))"
proof (cases "hr_method r \<in> {''GET'', ''PATCH'', ''DELETE''}")
  case False
  with c(1) ok show ?thesis by (auto simp: item_def intro!: refused_step)
next
  case True
  let ?k = "if hr_method r = ''GET'' then ReadKind else MutationKind"
  obtain st1 b where a: "allow lib (he_env he 0) r ?k st = (st1, b)" by fastforce
  note a1 = allow_shares [OF a] and a2 = allow_control [OF a]
  obtain v where v: "hr_path r = ''/api/v1/shares/'' @ v" using c(2) by (auto simp: has_prefix_iff)
  have trim: "trim_prefix (hr_path r) ''/api/v1/shares/'' = v" unfolding v by (rule trim_prefix_append)
  show ?thesis
  proof (cases "st' = st1 \<and> refusal r resp")
    case True
    with a1 a2 ok show ?thesis by (auto intro!: refused_step)
  next
    case go: False
    then obtain i where i: "ParseShareID v = Inr i" and b
      using c(1) True a trim by (cases b; cases "ParseShareID v") (auto simp: item_def Let_def split: if_splits)
    have vi: "hr_path r = ''/api/v1/shares/'' @ id_string i" using ParseShareID_string [OF i] v by simp
    from go i \<open>b\<close> c(1) True a trim api_read_refusal [of r]
    have "hr_method r = ''PATCH'' \<and> on_shares st1 (api_patch opts he h r i (as_shares st1)) = (st', resp)
      \<or> hr_method r = ''DELETE'' \<and> on_shares st1 (api_delete he h r i (as_shares st1)) = (st', resp)"
      by (auto simp: item_def Let_def split: if_splits)
    then show ?thesis
      using api_patch_handled [OF ok(1) _ _ _ vi] api_delete_handled [OF ok(1) _ _ _ vi] ok(2) a1 a2
      by (auto simp: on_shares_def split: prod.splits)
  qed
qed

lemma raw_handled:
  assumes ok: "service_ok (as_shares st)" and c: "raw lib he h r st = (st', resp)"
  shows "handled he r (as_shares st) (as_shares st') resp
    \<and> (control_ok (as_abuse st) \<longrightarrow> control_ok (as_abuse st'))"
proof (cases "hr_method r = ''GET''")
  case False
  with c ok show ?thesis by (auto simp: raw_def intro!: refused_step)
next
  case True
  obtain st1 b where a: "allow lib (he_env he 0) r ReadKind st = (st1, b)" by fastforce
  have "rs_status (raw_view he h i s) \<noteq> 201" for i s
    by (auto simp: raw_view_def split: sum.splits option.splits)
  then have "st' = st1 \<and> refusal r resp"
    using c True a by (auto simp: raw_def Let_def refusal_def split: bool.splits if_splits sum.splits)
  with allow_shares [OF a] allow_control [OF a] ok show ?thesis by (auto intro!: refused_step)
qed

lemma serve_api_handled:
  assumes ok: "he_ok he" "service_ok (as_shares st)" "key_free he (as_shares st)"
    and c: "serve_api lib opts he r st = (st', resp)"
  shows "handled he r (as_shares st) (as_shares st') resp
    \<and> (control_ok (as_abuse st) \<longrightarrow> control_ok (as_abuse st'))"
proof -
  let ?h = "securityHeaders (hr_path r) []"
  have config: "refusal r (publicConfig opts ?h r)" by (auto simp: publicConfig_def refusal_def)
  have "st' = st \<and> refusal r resp
    \<or> hr_path r = ''/api/v1/shares'' \<and> collection lib opts he ?h r st = (st', resp)
    \<or> has_prefix (hr_path r) ''/api/v1/shares/'' \<and> item lib opts he ?h r st = (st', resp)
    \<or> raw lib he ?h r st = (st', resp)"
    using c config by (auto simp: serve_api_def route_def http_NotFound_def split: if_splits)
  then show ?thesis
  proof (elim disjE conjE)
    assume "st' = st" "refusal r resp"
    with ok(2) show ?thesis by (simp add: refused_step)
  qed (fact collection_handled [OF ok] item_handled [OF ok(1,2)] raw_handled [OF ok(2)]
      | erule (1) collection_handled [OF ok, rotated] item_handled [OF ok(1,2), rotated]
      | erule raw_handled [OF ok(2)] | rule collection_handled [OF ok] item_handled [OF ok(1,2)], assumption+)+
qed

end
