(* ===== verification/HttpProps.thy ===== *)
theory HttpProps
  imports HttpSamples
begin

text \<open>
  The properties of \<open>internal/httpapi\<close>: what a request and a sequence of requests do to the Shares,
  who may change them, and what limits a request.
\<close>

section \<open>Sequences of requests\<close>

definition api_ok :: "'l api_state \<Rightarrow> bool" where
  "api_ok st \<longleftrightarrow> service_ok (as_shares st) \<and> retention_ok (as_shares st) \<and> control_ok (as_abuse st)"

fun serve_all :: "'l lib \<Rightarrow> api_options \<Rightarrow> (http_env \<times> http_request) list \<Rightarrow> 'l api_state \<Rightarrow> 'l api_state \<times> nat list" where
  "serve_all lib opts [] st = (st, [])"
| "serve_all lib opts ((he, r) # rs) st =
     (case serve_api lib opts he r st of
        (st1, resp) \<Rightarrow> (case serve_all lib opts rs st1 of (st2, ns) \<Rightarrow> (st2, rs_status resp # ns)))"

text \<open>The randomness of every request is sound, under one digest; no upload draws the key of a stored object.\<close>

fun run_ok :: "(bytes \<Rightarrow> bytes) \<Rightarrow> 'l lib \<Rightarrow> api_options \<Rightarrow> (http_env \<times> http_request) list \<Rightarrow> 'l api_state \<Rightarrow> bool" where
  "run_ok sha lib opts [] st \<longleftrightarrow> True"
| "run_ok sha lib opts ((he, r) # rs) st \<longleftrightarrow>
     he_ok he \<and> sha_of he = sha \<and> key_free he (as_shares st) \<and> run_ok sha lib opts rs (fst (serve_api lib opts he r st))"

abbreviation share_at :: "'l api_state \<Rightarrow> string \<Rightarrow> (share \<times> bytes) option" where
  "share_at st i \<equiv> abs_db (sv_db (as_shares st)) i"

text \<open>C1: One request refines the specification of the API: \<open>201\<close> is answered only to a \<open>POST\<close>
  that added a Share at a free id, \<open>200\<close> to a \<open>PATCH\<close> and \<open>204\<close> to a \<open>DELETE\<close> only when the
  addressed Share, not expired, has been changed or removed and the presented token is well formed
  and hashes to its verifier; with any other response the Shares are as before.\<close>

theorem request_refines:
  assumes "he_ok he" "service_ok (as_shares st)" "key_free he (as_shares st)"
    and "serve_api lib opts he r st = (st', resp)"
  shows "share_step he r (abs_db (sv_db (as_shares st))) (rs_status resp) (abs_db (sv_db (as_shares st')))"
  using serve_api_handled [OF assms] by (simp add: handled_def)

lemma sample_posted: "rs_status (snd (serve_api sample_lib sample_options sample_he sample_post empty_api)) = 201"
  by code_simp

lemma request_refines_witness:
  "share_step sample_he sample_post (abs_db (sv_db empty_service)) 201
     (abs_db (sv_db (as_shares (fst (serve_api sample_lib sample_options sample_he sample_post empty_api)))))"
  using request_refines [OF sample_he_ok, of empty_api sample_lib sample_options sample_post
      "fst (serve_api sample_lib sample_options sample_he sample_post empty_api)"
      "snd (serve_api sample_lib sample_options sample_he sample_post empty_api)"]
    sample_posted service_ok_empty_service sample_key_free
  by (simp add: empty_api_def)

text \<open>C5: Whatever requests arrive, in whatever order and with whatever failures, the Shares keep
  their invariants (the tables' constraints, an object for every File Share, bounded expirations in
  public mode), the limiter keeps its own, and every request gets exactly one response.\<close>

theorem requests_keep_invariants:
  assumes "api_ok st" "run_ok sha lib opts rs st"
  shows "api_ok (fst (serve_all lib opts rs st)) \<and> length (snd (serve_all lib opts rs st)) = length rs"
  using assms
proof (induction lib opts rs st rule: serve_all.induct)
  case (2 lib opts he r rs st)
  obtain st1 resp where s: "serve_api lib opts he r st = (st1, resp)" by fastforce
  have "api_ok st1"
    using serve_api_handled [OF _ _ _ s] 2(2,3) by (simp add: api_ok_def handled_def)
  with 2 s show ?case by (auto split: prod.splits)
qed simp

lemma api_ok_samples: "api_ok empty_api" "api_ok text_api"
proof -
  have "policy_ok sample_policy" by code_simp
  then have "retention_ok empty_service"
    using retention_ok_fresh by (simp add: empty_service_def)
  moreover from this retention_Create [OF this, of sample_env sample_text None] have "retention_ok text_service"
    by (simp add: text_created)
  ultimately show "api_ok empty_api" "api_ok text_api"
    by (simp_all add: api_ok_def empty_api_def text_api_def service_ok_empty_service service_ok_text_service
        control_ok_New)
qed

lemma requests_keep_invariants_witness:
  "api_ok (fst (serve_all sample_lib sample_options [(sample_he, sample_delete)] text_api))"
  using requests_keep_invariants [OF api_ok_samples(2), of "sha_of sample_he" sample_lib sample_options
      "[(sample_he, sample_delete)]"] sample_he_ok sample_key_free
  by (simp add: text_api_def)

text \<open>C2: Only the holder of its token changes a Share: when, after any sequence of requests, an id
  no longer maps to what it did, the sequence has a \<open>PATCH\<close> or \<open>DELETE\<close> of that very id with a well
  formed bearer token whose digest is the verifier the Share had.\<close>

theorem requests_need_token:
  assumes "api_ok st" "run_ok sha lib opts rs st" "share_at st i = Some (v, w)"
    and "share_at (fst (serve_all lib opts rs st)) i \<noteq> share_at st i"
  shows "\<exists>(he, r)\<in>set rs. hr_method r \<in> {''PATCH'', ''DELETE''} \<and> hr_path r = ''/api/v1/shares/'' @ i
    \<and> (\<exists>c. bearer r = Some c \<and> owner_accepts c \<and> sha c = w)"
  using assms
proof (induction lib opts rs st rule: serve_all.induct)
  case (2 lib opts he r rs st)
  obtain st1 resp where s: "serve_api lib opts he r st = (st1, resp)" by fastforce
  note h = serve_api_handled [OF _ _ _ s]
  have ok1: "api_ok st1" using h 2(2,3) by (simp add: api_ok_def handled_def)
  have step: "share_step he r (abs_db (sv_db (as_shares st))) (rs_status resp) (abs_db (sv_db (as_shares st1)))"
    using h 2(2,3) by (simp add: api_ok_def handled_def)
  have sha: "sha_of he = sha" using 2(3) by simp
  show ?case
  proof (cases "share_at st1 i = share_at st i")
    case True
    with 2 s ok1 show ?thesis by (fastforce split: prod.splits)
  next
    case False
    from step have "hr_method r \<in> {''PATCH'', ''DELETE''} \<and> hr_path r = ''/api/v1/shares/'' @ i
      \<and> (\<exists>c. bearer r = Some c \<and> owner_accepts c \<and> sha c = w)"
      by (cases rule: share_step.cases) (use False 2(4) sha in \<open>auto split: if_splits\<close>)
    then show ?thesis by auto
  qed
qed simp

lemma sample_deleted:
  "share_at (fst (serve_all sample_lib sample_options [(sample_he, sample_delete)] text_api)) (id_string text_id) = None"
  by code_simp

lemma requests_need_token_witness:
  "\<exists>(he, r)\<in>set [(sample_he, sample_delete)]. \<exists>c. bearer r = Some c \<and> sha_of sample_he c = sample_sha (reveal text_token)"
proof -
  have "map_option snd (share_at text_api (id_string text_id)) = Some (sample_sha (reveal text_token))" by code_simp
  then obtain v where v: "share_at text_api (id_string text_id) = Some (v, sample_sha (reveal text_token))"
    by auto
  show ?thesis
    using requests_need_token [OF api_ok_samples(2), of "sha_of sample_he" sample_lib sample_options
        "[(sample_he, sample_delete)]", OF _ v] sample_deleted v sample_he_ok sample_key_free
    by (simp add: text_api_def) blast
qed

end
