(* ===== verification/JsonText.thy ===== *)
theory JsonText
  imports Json
begin

text \<open>
  What the decoders of \<open>Json\<close> deliver: every string of a decoded value is valid UTF-8, whatever bytes
  the document held, so that the value can be written again.
\<close>

lemma rune_len_encode_rune:
  assumes "n < 1114112" "n < 55296 \<or> 57344 \<le> n"
  shows "rune_len (encode_rune n) = length (encode_rune n)"
proof -
  have m: "n mod 64 < 64" "n div 64 mod 64 < 64" "n div 4096 mod 64 < 64" by simp_all
  consider "n < 128" | "128 \<le> n" "n < 2048" | "2048 \<le> n" "n < 65536" | "65536 \<le> n" by linarith
  then show ?thesis
  proof cases
    case 2
    then have "2 \<le> n div 64" "n div 64 < 32" by (simp_all add: less_mult_imp_div_less div_le_mono [of 128 n 64, simplified])
    with 2 m show ?thesis by (simp add: encode_rune_def rune_len_def byte_in_def byte_char_of)
  next
    case 3
    have d: "n div 4096 < 16" using 3 by (simp add: less_mult_imp_div_less)
    have low: "32 \<le> n div 64 mod 64" if "n div 4096 = 0"
    proof -
      have "n < 4096" using that by (simp add: div_eq_0_iff)
      then have "n div 64 < 64" by (simp add: less_mult_imp_div_less)
      then show ?thesis using div_le_mono [of 2048 n 64] 3 by simp
    qed
    have high: "n div 64 mod 64 \<le> 31" if "n div 4096 = 13"
    proof -
      have "n div 64 div 64 = 13" using that by (simp add: div_mult2_eq [symmetric])
      then have e: "n div 64 = 832 + n div 64 mod 64" using div_mult_mod_eq [of "n div 64" 64] by simp
      have "n < 57344" using that div_mult_mod_eq [of n 4096] mod_less_divisor [of 4096 n] by linarith
      then have "n < 55296" using assms(2) by simp
      then have "n div 64 < 864" by (simp add: less_mult_imp_div_less)
      with e show ?thesis by linarith
    qed
    show ?thesis using 3 d low high m
      by (auto simp: encode_rune_def rune_len_def byte_in_def byte_char_of)
  next
    case 4
    have d: "n div 262144 < 5" using assms(1) by (simp add: less_mult_imp_div_less)
    have low: "16 \<le> n div 4096 mod 64" if "n div 262144 = 0"
    proof -
      have "n < 262144" using that by (simp add: div_eq_0_iff)
      then have "n div 4096 < 64" by (simp add: less_mult_imp_div_less)
      then show ?thesis using div_le_mono [of 65536 n 4096] 4 by simp
    qed
    have high: "n div 4096 mod 64 \<le> 15" if "n div 262144 = 4"
    proof -
      have "n div 4096 div 64 = 4" using that by (simp add: div_mult2_eq [symmetric])
      then have e: "n div 4096 = 256 + n div 4096 mod 64" using div_mult_mod_eq [of "n div 4096" 64] by simp
      have "n div 4096 < 272" using assms(1) by (simp add: less_mult_imp_div_less)
      with e show ?thesis by linarith
    qed
    show ?thesis using 4 d low high m
      by (auto simp: encode_rune_def rune_len_def byte_in_def byte_char_of)
  qed (simp add: encode_rune_def byte_char_of)
qed

lemma valid_rune_append:
  assumes "0 < rune_len t" "rune_len t = length t" "valid_utf8 s"
  shows "valid_utf8 (t @ s)"
proof -
  have "rune_len (t @ s) = length t" using rune_len_take [OF assms(1), of s] assms(2) by simp
  with assms show ?thesis by (subst valid_utf8.simps) auto
qed

lemma valid_encode_rune:
  assumes "n < 1114112" "n < 55296 \<or> 57344 \<le> n" "valid_utf8 s"
  shows "valid_utf8 (encode_rune n @ s)"
proof (rule valid_rune_append [OF _ rune_len_encode_rune [OF assms(1,2)] assms(3)])
  show "0 < rune_len (encode_rune n)" unfolding rune_len_encode_rune [OF assms(1,2)] by (simp add: encode_rune_def)
qed

lemma valid_Cons_ascii: "byte c < 128 \<Longrightarrow> valid_utf8 s \<Longrightarrow> valid_utf8 (c # s)"
  by (simp add: valid_utf8.simps [of "c # s"])

lemma unhex_digit_bound: "unhex_digit c = Some n \<Longrightarrow> n < 16"
  by (auto simp: unhex_digit_def split: if_splits)

lemma hex4_bound: "hex4 s = Some n \<Longrightarrow> n < 65536"
  by (auto simp: hex4_def split: list.splits option.splits dest!: unhex_digit_bound)

definition plain_rune :: "string \<Rightarrow> bool" where
  "plain_rune t \<longleftrightarrow> (\<forall>u. valid_utf8 u \<longrightarrow> valid_utf8 (t @ u))"

lemma plain_rune_ascii: "byte c < 128 \<Longrightarrow> plain_rune [c]"
  by (simp add: plain_rune_def valid_Cons_ascii)

lemma plain_rune_code: "n < 1114112 \<Longrightarrow> n < 55296 \<or> 57344 \<le> n \<Longrightarrow> plain_rune (encode_rune n)"
  by (simp add: plain_rune_def valid_encode_rune)

lemma plain_replacement: "plain_rune replacement"
  by (simp add: replacement_def plain_rune_code)

lemma scan_unicode_valid:
  assumes "scan_escape lax (CHR ''u'' # r) = Some (t, k)"
  shows "plain_rune t"
proof -
  obtain n where n: "hex4 r = Some n"
    using assms by (cases "hex4 r") (simp_all add: scan_escape_def)
  show ?thesis
  proof (cases "n < 55296 \<or> 57344 \<le> n")
    case True
    with assms n hex4_bound [OF n] show ?thesis by (auto simp: scan_escape_def intro!: plain_rune_code)
  next
    case False
    let ?low = "if n < 56320 \<and> has_prefix (drop 4 r) [CHR 0x5C, CHR ''u''] then hex4 (drop 6 r) else None"
    have e: "scan_escape lax (CHR ''u'' # r) =
      (case ?low of None \<Rightarrow> if lax then Some (replacement, 5) else None
       | Some m \<Rightarrow> if 56320 \<le> m \<and> m < 57344 then Some (encode_rune (65536 + (n - 55296) * 1024 + (m - 56320)), 11)
                   else if lax then Some (replacement, 5) else None)"
      using n False by (simp add: scan_escape_def)
    show ?thesis
    proof (cases "t = replacement")
      case False
      then obtain m where m: "?low = Some m" "56320 \<le> m" "m < 57344"
        "t = encode_rune (65536 + (n - 55296) * 1024 + (m - 56320))"
        using assms e by (cases ?low) (simp_all split: if_splits)
      have "n < 56320" "55296 \<le> n" using m(1) \<open>\<not> (n < 55296 \<or> 57344 \<le> n)\<close> by (simp_all split: if_splits)
      with m show ?thesis by (simp add: plain_rune_code)
    qed (simp add: plain_replacement)
  qed
qed

lemma scan_escape_valid:
  assumes "scan_escape lax s = Some (t, k)"
  shows "plain_rune t"
proof (cases s)
  case (Cons e r)
  show ?thesis
  proof (cases "e = CHR ''u''")
    case True
    with assms Cons scan_unicode_valid show ?thesis by simp
  next
    case False
    have "t \<in> {[CHR 0x22], [CHR 0x5C], [CHR ''/''], [CHR 0x08], [CHR 0x0C], [CHR 0x0A], [CHR 0x0D], [CHR 0x09]}"
      using assms Cons False by (auto simp: scan_escape_def split: if_split_asm)
    then show ?thesis by (elim insertE emptyE) (simp_all add: plain_rune_ascii byte_def)
  qed
qed (use assms in \<open>simp add: scan_escape_def\<close>)

lemma prepend_eq: "prepend t x = Some (s, r) \<longleftrightarrow> (\<exists>u. x = Some (u, r) \<and> s = t @ u)"
  by (auto simp: prepend_def split: option.splits)

lemma scan_string_valid: "scan_string lax s = Some (t, r) \<Longrightarrow> valid_utf8 t"
proof (induction lax s arbitrary: t rule: scan_string.induct)
  case (2 lax c q)
  let ?n = "rune_len (c # q)"
  consider "c = CHR 0x22" | "c = CHR 0x5C" | "c \<noteq> CHR 0x22" "c \<noteq> CHR 0x5C" "?n = 0"
    | "c \<noteq> CHR 0x22" "c \<noteq> CHR 0x5C" "?n \<noteq> 0" by blast
  then show ?case
  proof cases
    case 1
    with 2(4) show ?thesis by (simp add: scan_string.simps)
  next
    case c: 2
    then obtain x k u where x: "scan_escape lax q = Some (x, k)" "scan_string lax (drop k q) = Some (u, r)" "t = x @ u"
      using 2(4) by (auto simp: scan_string.simps prepend_eq split: option.splits)
    have "c \<noteq> CHR 0x22" using c by simp
    from 2(1) [OF this c x(1) refl x(2)] scan_escape_valid [OF x(1)] x(3) show ?thesis by (simp add: plain_rune_def)
  next
    case c: 3
    then obtain u where "scan_string lax q = Some (u, r)" "t = replacement @ u" "\<not> byte c < 32" lax
      using 2(4) by (auto simp: scan_string.simps prepend_eq split: if_splits)
    with 2(2) [OF c(1,2)] c(3) plain_replacement show ?thesis by (auto simp: plain_rune_def)
  next
    case c: 4
    then obtain u where u: "scan_string lax (drop ?n (c # q)) = Some (u, r)" "t = take ?n (c # q) @ u" "\<not> byte c < 32"
      using 2(4) by (auto simp: scan_string.simps prepend_eq split: if_splits)
    have "rune_len (take ?n (c # q)) = length (take ?n (c # q))" "0 < rune_len (take ?n (c # q))"
      using rune_len_take [of "c # q" "[]"] c(3) rune_len_le [of "c # q"] by simp_all
    with valid_rune_append 2(3) [OF c(1,2) u(3) c(3)] u show ?thesis by auto
  qed
qed simp

section \<open>Whole values\<close>

fun utf8_json :: "json \<Rightarrow> bool" and utf8_elems :: "json list \<Rightarrow> bool" and utf8_members :: "(string \<times> json) list \<Rightarrow> bool" where
  "utf8_json (JString s) = valid_utf8 s"
| "utf8_json (JArray vs) = utf8_elems vs"
| "utf8_json (JObject ms) = utf8_members ms"
| "utf8_json _ = True"
| "utf8_elems [] = True"
| "utf8_elems (v # vs) = (utf8_json v \<and> utf8_elems vs)"
| "utf8_members [] = True"
| "utf8_members ((k, v) # ms) = (valid_utf8 k \<and> utf8_json v \<and> utf8_members ms)"

lemma parse_utf8:
  "parse_value lax s = Some (v, r) \<Longrightarrow> utf8_json v"
  "parse_elems lax s = Some (vs, r) \<Longrightarrow> utf8_elems vs"
  "parse_members lax s = Some (ms, r) \<Longrightarrow> utf8_members ms"
proof (induction lax s and lax s and lax s arbitrary: v r and vs r and ms r
    rule: parse_value_parse_elems_parse_members.induct)
  case (1 lax s)
  then show ?case
    by (subst (asm) parse_value.simps)
       (auto dest: scan_string_valid split: list.splits option.splits if_splits)
next
  case (2 lax s)
  then show ?case
    by (subst (asm) parse_elems.simps)
       (fastforce simp: prepend_eq split: list.splits option.splits if_splits)
next
  case (3 lax s)
  obtain q w k r1 d r2 u r3 c r4 where
    a: "skip_ws s = CHR 0x22 # w" "scan_string lax w = Some (k, r1)" "skip_ws r1 = CHR '':'' # r2" "length r2 < length s"
    "parse_value lax r2 = Some (u, r3)" "skip_ws r3 = c # r4"
    and b: "(if c = CHR ''}'' then Some ([(k, u)], r4)
        else if c = CHR '','' \<and> length r4 < length s then prepend [(k, u)] (parse_members lax r4) else None) = Some (ms, r)"
    using 3(3) by (subst (asm) parse_members.simps) (simp split: list.split_asm option.split_asm if_split_asm prod.split_asm)
  have v: "utf8_json u" "valid_utf8 k" using 3(1) a scan_string_valid [OF a(2)] by auto
  show ?case
  proof (cases "c = CHR ''}''")
    case True
    with b v show ?thesis by auto
  next
    case False
    with b obtain ms' where "parse_members lax r4 = Some (ms', r)" "ms = (k, u) # ms'" "c = CHR '',''" "length r4 < length s"
      by (auto simp: prepend_eq split: if_splits)
    with v 3(2) a False show ?thesis by auto
  qed
qed

lemma decode_json_utf8: "decode_json lax s = Some v \<Longrightarrow> utf8_json v"
  by (auto simp: decode_json_def dest: parse_utf8(1) split: option.splits if_splits)

lemma utf8_members_map_of: "utf8_members ms \<Longrightarrow> map_of ms k = Some v \<Longrightarrow> utf8_json v"
  by (induction ms) (auto split: if_splits)

end
