(* ===== verification/HttpReads.thy ===== *)
theory HttpReads
  imports HttpProps JsonText
begin

text \<open>
  Reading over HTTP: what a \<open>GET\<close> of a Share and its raw view answer, and that a Share created by one
  request is read back by another as it was sent.
\<close>

section \<open>Reads\<close>

lemma unparsable_absent:
  assumes "db_ok d" "ParseShareID i = Inl e"
  shows "abs_db d i = None"
  using assms db_ok_row(4) [OF assms(1), of i] by (cases "row_of r_id i (shares d)") (auto simp: abs_db_def)

lemma bad_id: "i = [] \<or> CHR ''/'' \<in> set i \<Longrightarrow> \<exists>e. ParseShareID i = Inl e"
proof -
  assume a: "i = [] \<or> CHR ''/'' \<in> set i"
  have "\<not> is_b64 (CHR ''/'')" by code_simp
  then show ?thesis
    using a ParseShareID_length [of i] ParseShareID_alphabet [of i]
    by (cases "ParseShareID i") (auto simp: list_all_iff)
qed

text \<open>The three outcomes of a lookup.\<close>

definition api_answer :: "string \<Rightarrow> headers \<Rightarrow> err + share \<Rightarrow> http_response" where
  "api_answer origin h x =
     (case x of Inl e \<Rightarrow> serviceError h e | Inr v \<Rightarrow> writeJSON h 200 (shareResponse origin v))"

definition raw_answer :: "headers \<Rightarrow> err + share \<Rightarrow> http_response" where
  "raw_answer h x =
     (case x of
        Inl e \<Rightarrow> if e = ErrExpired then http_Error h ''share expired'' 410 else http_Error h ''share not found'' 404
      | Inr v \<Rightarrow>
          (case (Text v, EncryptedText v) of
             (Some t, None) \<Rightarrow> \<lparr>rs_status = 200, rs_headers = h, rs_body = Content t\<rparr>
           | (_, Some c) \<Rightarrow> http_Error h ''raw view unavailable for encrypted share'' 409
           | (None, None) \<Rightarrow> http_Error h ''share not found'' 404))"

lemma spec_get_errors: "spec_get m i now = Inl e \<Longrightarrow> e = ErrNotFound \<or> e = ErrExpired"
  by (auto simp: spec_get_def split: option.splits if_splits)

lemma item_get:
  assumes ok: "service_ok (as_shares st)" and r: "hr_method r = ''GET''" "hr_path r = ''/api/v1/shares/'' @ i"
    and a: "allow lib (he_env he 0) r ReadKind st = (st1, True)" and db: "\<not> ev_db (he_env he 1) AtSelectShare"
  shows "item lib opts he h r st
    = (st1, api_answer (ao_fileOrigin opts) h (spec_get (abs_db (sv_db (as_shares st))) i (serverNow (he_env he 1))))"
proof -
  note d = service_okD(1) [OF ok]
  have t: "trim_prefix (hr_path r) ''/api/v1/shares/'' = i" unfolding r(2) by (rule trim_prefix_append)
  show ?thesis
  proof (cases "ParseShareID i")
    case (Inl e)
    with r a t show ?thesis
      by (simp add: item_def api_answer_def spec_get_def unparsable_absent [OF d Inl] serviceError_def)
  next
    case (Inr j)
    then have j: "id_string j = i" "\<not> (i = [] \<or> CHR ''/'' \<in> set i)"
      using ParseShareID_string bad_id by fastforce+
    with r a t Inr loadActive_refines [OF d db, of j] allow_shares [OF a] show ?thesis
      by (simp add: item_def api_read_def api_answer_def Get_def)
  qed
qed

lemma row_payloads:
  assumes "db_ok d" "abs_db d i = Some (v, w)"
  shows "(\<exists>t. Text v = Some t \<and> EncryptedText v = None \<and> File v = None)
    \<or> (\<exists>c. Text v = None \<and> EncryptedText v = Some c \<and> File v = None)
    \<or> (\<exists>f. Text v = None \<and> EncryptedText v = None \<and> File v = Some f)"
proof -
  note sch = db_ok_schema [OF assms(1)]
  obtain r where r: "row_of r_id i (shares d) = Some r" "v = abs_share d r"
    using assms(2) by (auto simp: abs_db_def)
  note row = db_ok_row [OF assms(1) r(1)]
  from row(1) consider "r_kind r = ''TEXT''" "r_privacy r = ''STANDARD''" | "r_kind r = ''TEXT''" "r_privacy r = ''ENCRYPTED''"
    | "r_kind r = ''FILE''" "r_privacy r = ''STANDARD''" by (auto simp: share_row_ok_def)
  then show ?thesis
  proof cases
    case 1
    then show ?thesis using row(2,3) row_of_in_keys schema_no_enc [OF sch r(1)] schema_no_file [OF sch r(1)]
      by (fastforce simp: r(2) abs_share_def has_payload_def)
  next
    case 2
    then show ?thesis using row(2,3) row_of_in_keys schema_no_text [OF sch r(1)] schema_no_file [OF sch r(1)]
      by (fastforce simp: r(2) abs_share_def has_payload_def)
  next
    case 3
    then show ?thesis using row(2,3) row_of_in_keys schema_no_text [OF sch r(1)] schema_no_enc [OF sch r(1)]
      by (fastforce simp: r(2) abs_share_def has_payload_def)
  qed
qed

lemma raw_get:
  assumes ok: "service_ok (as_shares st)" and r: "hr_method r = ''GET''" "hr_path r = ''/raw/'' @ i"
    and a: "allow lib (he_env he 0) r ReadKind st = (st1, True)" and db: "\<not> ev_db (he_env he 1) AtSelectShare"
  shows "raw lib he h r st
    = (st1, raw_answer h (spec_get (abs_db (sv_db (as_shares st))) i (serverNow (he_env he 1))))"
proof -
  note d = service_okD(1) [OF ok]
  let ?x = "spec_get (abs_db (sv_db (as_shares st))) i (serverNow (he_env he 1))"
  have t: "trim_prefix (hr_path r) ''/raw/'' = i" unfolding r(2) by (rule trim_prefix_append)
  show ?thesis
  proof (cases "ParseShareID i")
    case (Inl e)
    with r a t show ?thesis
      by (simp add: raw_def raw_answer_def spec_get_def unparsable_absent [OF d Inl])
  next
    case (Inr j)
    then have j: "id_string j = i" "\<not> (i = [] \<or> CHR ''/'' \<in> set i)"
      using ParseShareID_string bad_id by fastforce+
    have "raw_view he h j (as_shares st) = raw_answer h ?x"
    proof (cases ?x)
      case (Inl e)
      with spec_get_errors [OF Inl] j loadActive_refines [OF d db, of j] show ?thesis
        by (auto simp: raw_view_def raw_answer_def Get_def)
    next
      case (Inr v)
      then obtain w where "abs_db (sv_db (as_shares st)) i = Some (v, w)"
        by (auto simp: spec_get_def split: option.splits if_splits)
      from row_payloads [OF d this] Inr j loadActive_refines [OF d db, of j] show ?thesis
        by (auto simp: raw_view_def raw_answer_def Get_def)
    qed
    with r a t Inr j(2) allow_shares [OF a] show ?thesis by (simp add: raw_def)
  qed
qed

text \<open>C4: A \<open>GET\<close> of a Share that the limiter admits, while the database works, answers exactly what the
  Share store holds: for any text in the place of the id, 404 when nothing is stored under it, 410 when it has expired, and otherwise 200 with
  the Share; the raw view answers the content of a standard text, 409 for an encrypted one, and 404
  for a file.  Neither changes a Share.\<close>

theorem reads_are_exact:
  assumes "service_ok (as_shares st)" "hr_method r = ''GET''"
    and "allow lib (he_env he 0) r ReadKind st = (st1, True)" "\<not> ev_db (he_env he 1) AtSelectShare"
    and "x = spec_get (abs_db (sv_db (as_shares st))) i (serverNow (he_env he 1))"
    and "h = securityHeaders (hr_path r) []"
  shows "(hr_path r = ''/api/v1/shares/'' @ i \<longrightarrow>
            serve_api lib opts he r st = (st1, api_answer (ao_fileOrigin opts) h x))
    \<and> (hr_path r = ''/raw/'' @ i \<longrightarrow> serve_api lib opts he r st = (st1, raw_answer h x))
    \<and> as_shares st1 = as_shares st"
  using item_get [OF assms(1,2) _ assms(3,4), of i opts h] raw_get [OF assms(1,2) _ assms(3,4), of i h]
    allow_shares [OF assms(3)] assms(5,6)
  by (auto simp: serve_api_def route_def has_prefix_def)

definition sample_raw :: http_request where
  "sample_raw = sample_request ''GET'' ''/raw/YWFhYWFhYWFhYWFhYWFhYQ'' [] []"

lemma reads_are_exact_witness:
  "rs_body (snd (serve_api sample_lib sample_options sample_he sample_raw text_api)) = ''hello''"
proof -
  obtain st1 where a: "allow sample_lib (he_env sample_he 0) sample_raw ReadKind text_api = (st1, True)"
  proof -
    have "snd (allow sample_lib (he_env sample_he 0) sample_raw ReadKind text_api)" by code_simp
    then show ?thesis using that by (metis (full_types) prod.collapse)
  qed
  have ok: "service_ok (as_shares text_api)" "\<not> ev_db (he_env sample_he 1) AtSelectShare"
    using service_ok_text_service by (simp_all add: text_api_def sample_he_def)
  have m: "hr_method sample_raw = ''GET''" "hr_path sample_raw = ''/raw/'' @ id_string text_id"
    by (simp_all add: sample_raw_def sample_request_def text_id_def)
  have "rs_body (raw_answer [] (spec_get (abs_db (sv_db text_service)) (id_string text_id)
      (serverNow (he_env sample_he 1)))) = ''hello''" by code_simp
  then have "rs_body (raw_answer h (spec_get (abs_db (sv_db (as_shares text_api))) (id_string text_id)
      (serverNow (he_env sample_he 1)))) = ''hello''" for h
    by (simp add: text_api_def raw_answer_def http_Error_def split: sum.splits option.splits if_splits)
  then show ?thesis
    using reads_are_exact [OF ok(1) m(1) a ok(2) refl refl, of "id_string text_id" sample_options] m(2) by simp
qed

end
