(* ===== verification/HttpGuards.thy ===== *)
theory HttpGuards
  imports HttpProps
begin

text \<open>
  What stands before a request reaches the Shares: the rate limiter, the challenge, the upload slots.
\<close>

text \<open>The kind a request is metered as; \<open>None\<close> for those that reach no Share.\<close>

definition metered :: "http_request \<Rightarrow> nat option" where
  "metered r =
     (let p = hr_path r; m = hr_method r
      in if p = ''/api/v1/shares'' then (if m = ''POST'' then Some CreateKind else None)
         else if has_prefix p ''/api/v1/shares/''
         then (if m = ''GET'' then Some ReadKind else if m = ''PATCH'' \<or> m = ''DELETE'' then Some MutationKind else None)
         else if p \<noteq> ''/api/v1/config'' \<and> \<not> has_prefix p ''/api/v1/'' \<and> is_raw p \<and> m = ''GET'' then Some ReadKind
         else None)"

lemma path_kinds: "has_prefix p ''/api/v1/shares/'' \<Longrightarrow> has_prefix p ''/api/v1/'' \<and> \<not> is_raw p \<and> p \<noteq> ''/api/v1/config'' \<and> p \<noteq> ''/api/v1/shares''"
  by (auto simp: has_prefix_iff is_raw_def)

text \<open>C8: Every request that can reach a Share is metered, and first: when the limiter refuses its
  kind for its client the answer is 429 with a \<open>Retry-After\<close> and the Shares are untouched; a request
  that is not metered changes neither the Shares nor the limiter.\<close>

theorem requests_are_metered:
  assumes "serve_api lib opts he r st = (st', resp)"
  shows "case metered r of
      None \<Rightarrow> st' = st
    | Some k \<Rightarrow>
        (\<forall>st1. allow lib (he_env he 0) r k st = (st1, False) \<longrightarrow>
           st' = st1 \<and> as_shares st' = as_shares st \<and> rs_status resp = 429 \<and> hdr_get ''Retry-After'' (rs_headers resp) = ''60'')"
proof -
  let ?h = "securityHeaders (hr_path r) []"
  have retry: "rs_status (rateLimited h 60) = 429 \<and> hdr_get ''Retry-After'' (rs_headers (rateLimited h 60)) = ''60''" for h
  proof -
    have "format_nat 60 = ''60''" by code_simp
    then show ?thesis by (simp add: rateLimited_def writeError_def writeJSON_def)
  qed
  consider (shares) "hr_path r = ''/api/v1/shares''" | (items) "has_prefix (hr_path r) ''/api/v1/shares/''"
    | (raws) "\<not> has_prefix (hr_path r) ''/api/v1/''" "is_raw (hr_path r)" "hr_path r \<noteq> ''/api/v1/config''"
        "\<not> has_prefix (hr_path r) ''/api/v1/shares/''" "hr_path r \<noteq> ''/api/v1/shares''"
    | (other) "hr_path r \<noteq> ''/api/v1/shares''" "\<not> has_prefix (hr_path r) ''/api/v1/shares/''"
        "hr_path r = ''/api/v1/config'' \<or> has_prefix (hr_path r) ''/api/v1/'' \<or> \<not> is_raw (hr_path r)"
    by blast
  then show ?thesis
  proof cases
    case shares
    with assms have "collection lib opts he ?h r st = (st', resp)" by (simp add: serve_api_def route_def)
    with shares retry allow_shares show ?thesis
      by (auto simp: metered_def collection_def dest: allow_shares)
  next
    case items
    with assms path_kinds [OF items] have "item lib opts he ?h r st = (st', resp)"
      by (auto simp: serve_api_def route_def)
    with items path_kinds [OF items] retry show ?thesis
      by (auto simp: metered_def item_def dest: allow_shares split: if_splits)
  next
    case raws
    with assms have "raw lib he ?h r st = (st', resp)"
      by (simp add: serve_api_def route_def is_raw_def)
    with raws retry show ?thesis by (auto simp: metered_def raw_def dest: allow_shares split: if_splits)
  next
    case other
    with assms have "st' = st" by (auto simp: serve_api_def route_def is_raw_def split: if_splits)
    moreover have "metered r = None" using other by (auto simp: metered_def)
    ultimately show ?thesis by simp
  qed
qed

definition spent_api :: "bucket api_state" where
  "spent_api = text_api\<lparr>as_abuse := (as_abuse text_api)\<lparr>ct_max := 0\<rparr>\<rparr>"

lemma requests_are_metered_witness:
  "rs_status (snd (serve_api sample_lib sample_options sample_he sample_delete spent_api)) = 429"
proof -
  have "\<not> snd (allow sample_lib (he_env sample_he 0) sample_delete MutationKind spent_api)" by code_simp
  then obtain st1 where a: "allow sample_lib (he_env sample_he 0) sample_delete MutationKind spent_api = (st1, False)"
    by (metis (full_types) prod.collapse)
  have "metered sample_delete = Some MutationKind" by code_simp
  with requests_are_metered [of sample_lib sample_options sample_he sample_delete spent_api, OF prod.collapse [symmetric]] a
  show ?thesis by simp
qed

section \<open>The challenge\<close>

lemma serve_created:
  assumes "serve_api lib opts he r st = (st', resp)" "rs_status resp = 201"
  obtains st1 h where "h = securityHeaders (hr_path r) []" "hr_method r = ''POST''" "hr_path r = ''/api/v1/shares''"
    "allow lib (he_env he 0) r CreateKind st = (st1, True)" "requireChallenge lib opts (as_abuse st1) h r = None"
    "createJSON opts he h r (as_shares st) = (as_shares st', resp)
       \<or> upload_file opts he h r (as_shares st) = (as_shares st', resp)"
proof -
  let ?h = "securityHeaders (hr_path r) []"
  have "rs_status (raw_view he h i s) \<noteq> 201" "rs_status (api_read opts he h i s) \<noteq> 201" for h i s
    by (auto simp: raw_view_def api_read_def split: sum.splits option.splits)
  then have noraw: "\<not> raw lib he ?h r st = (st', resp)"
    using assms(2) by (auto simp: raw_def Let_def split: prod.splits bool.splits if_splits sum.splits)
  have patch: "rs_status x \<noteq> 201" if "build_patch h k p q = Inl x" for h k p q x
    using that validate_status [of h]
    by (fastforce simp: build_patch_def Let_def split: if_splits privacy_mode.splits member.splits sum.splits)
  have json: "rs_status x \<noteq> 201" if "requireJSON h r = Some x" for h x
    using that requireIdentityEncoding_refusal [of h r] by (auto simp: requireJSON_def split: option.splits list.splits if_splits)
  have auth: "rs_status x \<noteq> 201" if "authorization_header h r = Inl x" for h x
    using that by (auto simp: authorization_header_def split: list.splits if_splits)
  have patch': "rs_status (snd (api_patch opts he h r i s)) \<noteq> 201" for h i s
  proof (cases "authorization_header h r")
    case (Inr c)
    show ?thesis
    proof (cases "AuthorizeOwner (he_env he 1) s i c")
      case x: (Inr b)
      obtain k p where b: "b = (k, p)" by fastforce
      show ?thesis
      proof (cases "requireJSON h r")
        case None
        with Inr x b show ?thesis
          using patch [of h k p] by (auto simp: api_patch_def split: sum.splits prod.splits)
      qed (use Inr x b json in \<open>auto simp: api_patch_def\<close>)
    qed (use Inr in \<open>simp add: api_patch_def\<close>)
  qed (use auth in \<open>auto simp: api_patch_def\<close>)
  have "rs_status (snd (api_delete he h r i s)) \<noteq> 201" for h i s
    by (auto simp: api_delete_def dest: auth split: sum.splits option.splits prod.splits if_splits)
  then have noitem: "\<not> item lib opts he ?h r st = (st', resp)"
    using assms(2) patch' \<open>\<And>h i s. rs_status (api_read opts he h i s) \<noteq> 201\<close>
    by (auto simp: item_def on_shares_def Let_def split: prod.splits bool.splits if_splits sum.splits) (metis snd_conv)+
  from assms noraw noitem have c: "hr_path r = ''/api/v1/shares''" "collection lib opts he ?h r st = (st', resp)"
    by (auto simp: serve_api_def route_def publicConfig_def http_NotFound_def split: if_splits)
  then obtain st1 where a: "hr_method r = ''POST''" "allow lib (he_env he 0) r CreateKind st = (st1, True)"
    "api_create lib opts he ?h r st1 = (st', resp)"
    using assms(2) by (auto simp: collection_def split: if_splits prod.splits bool.splits)
  have ch: "requireChallenge lib opts (as_abuse st1) ?h r = None"
    using a(3) assms(2) requireChallenge_refusal [of lib opts "as_abuse st1" ?h r]
    by (auto simp: api_create_def Let_def split: option.splits)
  have "createJSON opts he ?h r (as_shares st1) = (as_shares st', resp) \<or> createFile opts he ?h r st1 = (st', resp)"
    using a(3) assms(2) requireIdentityEncoding_refusal [of ?h r] ch
    by (auto simp: api_create_def Let_def split: option.splits list.splits if_splits prod.splits)
  then have "createJSON opts he ?h r (as_shares st) = (as_shares st', resp)
      \<or> upload_file opts he ?h r (as_shares st) = (as_shares st', resp)"
    using createFile_cases [of opts he ?h r st1 st' resp] assms(2) allow_shares [OF a(2)] by auto
  with a ch c show thesis using that by blast
qed

text \<open>C7: With a challenge configured, no Share is created without a verified one: a \<open>201\<close> is
  answered only when the request carried exactly one token, not blank, and the provider, asked about
  that token, answered with a 2xx status and a body that confirms it (for Turnstile also the hostname
  and the action); when it is down or answers anything else, nothing is created.\<close>

theorem creation_needs_challenge:
  assumes "serve_api lib opts he r st = (st', resp)" "rs_status resp = 201" "ao_Challenge opts = Some v"
  shows "\<exists>token ip status body. hdr_values ''X-Upaste-Challenge'' (hr_headers r) = [token] \<and> trim_space token \<noteq> []
    \<and> lb_client lib (verifier_ask v token ip) = Some (status, body) \<and> 200 \<le> status \<and> status < 300
    \<and> verifier_confirms v body"
proof -
  from assms(1,2) obtain c h where "requireChallenge lib opts c h r = None" by (rule serve_created) (rule that)
  then obtain token where t: "hdr_values ''X-Upaste-Challenge'' (hr_headers r) = [token]" "trim_space token \<noteq> []"
    "Verify (lb_client lib) v token (challengeRemoteIP c r) = None"
    using assms(3) by (auto simp: requireChallenge_def split: list.splits if_splits option.splits)
  from t(3) configured.verify_None [of "lb_client lib" v token] t(1,2) show ?thesis by blast
qed

definition sample_verifier :: verifier where
  "sample_verifier = CapVerifier ''https://cap.example/site'' ''secret''"

definition cap_lib :: "bucket lib" where
  "cap_lib = sample_lib\<lparr>lb_client := (\<lambda>q. if out_url q = ''https://cap.example/site/siteverify''
     then Some (200, ''{\"success\":true}'') else None)\<rparr>"

definition guarded_post :: http_request where
  "guarded_post = sample_post\<lparr>hr_headers := (''X-Upaste-Challenge'', ''tok'') # hr_headers sample_post\<rparr>"

lemma creation_needs_challenge_witness:
  "\<exists>token ip status body. hdr_values ''X-Upaste-Challenge'' (hr_headers guarded_post) = [token]
    \<and> lb_client cap_lib (verifier_ask sample_verifier token ip) = Some (status, body) \<and> cap_confirms body"
proof -
  let ?o = "sample_options\<lparr>ao_Challenge := Some sample_verifier\<rparr>"
  have "rs_status (snd (serve_api cap_lib ?o sample_he guarded_post empty_api)) = 201" by code_simp
  from creation_needs_challenge [OF prod.collapse [symmetric] this, of sample_verifier]
  have "\<exists>token ip status body. hdr_values ''X-Upaste-Challenge'' (hr_headers guarded_post) = [token]
    \<and> lb_client cap_lib (verifier_ask sample_verifier token ip) = Some (status, body)
    \<and> verifier_confirms sample_verifier body" by simp blast
  moreover have "verifier_confirms sample_verifier = cap_confirms" by (simp add: sample_verifier_def)
  ultimately show ?thesis by (simp only:)
qed

end
