(* ===== verification/HttpRoundtrip.thy ===== *)
theory HttpRoundtrip
  imports HttpReads HttpGuards
begin

text \<open>
  A Share created by a \<open>POST\<close> of JSON is read back by a \<open>GET\<close> of the location it was given, as it was
  sent: through the two JSON codecs, base64url, the tables and the limiter.
\<close>

section \<open>What the responses are made of is valid\<close>

lemma ascii_digits: "list_all (\<lambda>c. byte c < 128) (format_nat n)"
  using format_nat_digits [of n] by (auto simp: list_all_iff is_digit_def byte_def)

lemma ascii_pad: "list_all (\<lambda>c. byte c < 128) (pad n i)"
  using ascii_digits [of "nat \<bar>i\<bar>"] by (auto simp: pad_def Let_def list_all_iff byte_def)

lemma ascii_trim: "list_all P s \<Longrightarrow> list_all P (trim_zeros s)"
  by (auto simp: trim_zeros_def list_all_iff dest: set_dropWhileD)

lemma ascii_rfc3339: "list_all (\<lambda>c. byte c < 128) (format_rfc3339 t)"
  using ascii_pad ascii_trim [OF ascii_pad]
  by (simp add: format_rfc3339_def Let_def byte_def split: prod.split)

lemma ascii_b64: "list_all (\<lambda>c. byte c < 128) (b64_encode b)"
proof -
  have "is_b64 c \<Longrightarrow> byte c < 128" for c by (auto simp: is_b64_def byte_def)
  then show ?thesis using b64_encode_alphabet [of b] by (auto simp: list_all_iff)
qed

lemmas ascii_valid = ascii_rfc3339 [THEN valid_utf8_ascii] ascii_b64 [THEN valid_utf8_ascii]

lemma dec_create_text:
  assumes "dec_create v = Some q" "utf8_json v" "cq_Text q = Given t"
  shows "tq_content t = Some c \<Longrightarrow> valid_utf8 c"
proof -
  obtain ms where ms: "struct_members [''payload_kind'', ''privacy_mode'', ''text'', ''encrypted_text'', ''expires_at''] v = Some ms"
    "member_field dec_text ''text'' ms = Some (Given t)"
    using assms(1,3) by (auto simp: dec_create_def split: Option.bind_splits)
  have "utf8_members ms" using ms(1) assms(2) by (auto simp: struct_members_def split: json.splits if_splits)
  with ms(2) obtain u where u: "map_of ms ''text'' = Some u" "utf8_json u" "dec_text u = Some t"
    by (auto simp: member_field_def dest: utf8_members_map_of split: option.splits if_splits)
  assume "tq_content t = Some c"
  with u(2,3) show ?thesis
    by (auto simp: dec_text_def string_field_def dest: utf8_members_map_of
        split: json.splits if_splits Option.bind_splits option.splits)
qed

lemma text_formats: "schema_ok d \<Longrightarrow> row_of t_share i (texts d) = Some t \<Longrightarrow> valid_utf8 (t_format t)"
  by (drule (1) schema_text_row) (auto simp: text_row_ok_def byte_def intro!: valid_utf8_ascii)

lemma ascii_const:
  "valid_utf8 (kind_string k)" "valid_utf8 (privacy_string p)" "valid_utf8 EncryptedTextProtocolV1"
proof -
  show "valid_utf8 (kind_string k)" by (cases k) (simp_all add: valid_utf8_ascii byte_def)
  show "valid_utf8 (privacy_string p)" by (cases p) (simp_all add: valid_utf8_ascii byte_def)
  show "valid_utf8 EncryptedTextProtocolV1" by (simp add: valid_utf8_ascii byte_def EncryptedTextProtocolV1_def)
qed

lemma b64_valid: "list_all is_b64 s \<Longrightarrow> valid_utf8 s"
proof -
  have "is_b64 c \<Longrightarrow> byte c < 128" for c by (auto simp: is_b64_def byte_def)
  then show "list_all is_b64 s \<Longrightarrow> valid_utf8 s" by (auto simp: list_all_iff intro!: valid_utf8_ascii)
qed

lemma members_ok_append: "members_ok (a @ b) \<longleftrightarrow> members_ok a \<and> members_ok b"
  by (induction a) auto

text \<open>The response about a stored Share that is no file can be read back.\<close>

lemma response_json_ok:
  assumes d: "db_ok d" "abs_db d i = Some (w, x)" and f: "File w = None"
    and t: "\<forall>t. Text w = Some t \<longrightarrow> valid_utf8 (Content t)"
  shows "json_ok (responseFromShare origin w)"
proof -
  obtain r where r: "row_of r_id i (shares d) = Some r" "w = abs_share d r"
    using d(2) by (auto simp: abs_db_def)
  note row = db_ok_row [OF d(1) r(1)]
  have "valid_utf8 (id_string (ID w))"
    using b64_valid [OF ParseShareID_alphabet [OF row(4)]] row(2) by (simp add: r(2) abs_share_def)
  moreover have "members_ok (optional ''text'' text_json (Text w))"
    using t text_formats [OF db_ok_schema [OF d(1)]]
    by (auto simp: optional_def r(2) abs_share_def text_json_def valid_utf8_ascii byte_def split: option.split)
  moreover have "members_ok (optional ''encrypted_text'' encrypted_json (EncryptedText w))"
    using schema_enc_row [OF db_ok_schema [OF d(1)]] ascii_const(3)
    by (auto simp: optional_def r(2) abs_share_def encrypted_json_def valid_utf8_ascii byte_def ascii_valid enc_row_ok_def
        split: option.split)
  ultimately show ?thesis
    using f by (auto simp: responseFromShare_def members_ok_append valid_utf8_ascii byte_def ascii_const ascii_valid
        time_json_def optional_def split: option.split)
qed

lemma share_json_ok: "json_ok (responseFromShare origin w) \<Longrightarrow> json_ok (shareResponse origin w)"
  by (simp add: shareResponse_def valid_utf8_ascii byte_def)

lemma response_decodes:
  assumes "db_ok d" "abs_db d i = Some (w, x)" "File w = None" "\<forall>t. Text w = Some t \<longrightarrow> valid_utf8 (Content t)"
  shows "decode_json False (rs_body (writeJSON h 200 (shareResponse origin w))) = Some (shareResponse origin w)"
  using decode_encode_json [OF share_json_ok [OF response_json_ok [OF assms]]]
  by (simp add: writeJSON_def newline_def)

section \<open>The round trip\<close>

definition members_of :: "string \<Rightarrow> share \<Rightarrow> (string \<times> json) list" where
  "members_of origin w = (case responseFromShare origin w of JObject ms \<Rightarrow> ms | _ \<Rightarrow> [])"

lemma share_response_members: "shareResponse origin w = JObject [(''share'', JObject (members_of origin w))]"
  by (simp add: shareResponse_def members_of_def responseFromShare_def)

lemma posted_share:
  assumes p: "serve_api lib opts he r st = (st1, resp)" "rs_status resp = 201" "hr_parts r = None"
    and ok: "he_ok he" "service_ok (as_shares st)" and q: "decodeJSON dec_create r = Inr q"
  obtains v x where "hdr_get ''Location'' (rs_headers resp) = ''/api/v1/shares/'' @ id_string (ID v)"
    "abs_db (sv_db (as_shares st1)) (id_string (ID v)) = Some (stored v, x)" "service_ok (as_shares st1)" "File v = None"
    "(\<exists>t tx h. cq_Text q = Given t \<and> api_validateText h t = Inr tx \<and> Text v = Some tx \<and> EncryptedText v = None)
     \<or> (\<exists>t c h. cq_EncryptedText q = Given t \<and> api_validateEncryptedText h t = Inr c \<and> Text v = None \<and> EncryptedText v = Some c)"
proof -
  from p(1,2) obtain h where h: "createJSON opts he h r (as_shares st) = (as_shares st1, resp)"
  proof (rule serve_created)
    fix sta h
    assume "createJSON opts he h r (as_shares st) = (as_shares st1, resp) \<or> upload_file opts he h r (as_shares st) = (as_shares st1, resp)"
    moreover have "upload_file opts he h r (as_shares st) \<noteq> (as_shares st1, resp)"
      using p(2,3) by (auto simp: upload_file_def)
    ultimately show thesis using that by blast
  qed
  from createJSON_cases [OF h] p(2) q obtain v token where
    v: "resp = created h (ao_fileOrigin opts) v token"
    "plain_create he h (as_shares st) q (as_shares st1) v token \<or> encrypted_create he h (as_shares st) q (as_shares st1) v token"
    by auto
  have loc: "hdr_get ''Location'' (rs_headers resp) = ''/api/v1/shares/'' @ id_string (ID v)"
    by (simp add: v(1) created_def writeJSON_def)
  from v(2) show thesis
  proof
    assume c: "plain_create he h (as_shares st) q (as_shares st1) v token"
    note a = plain_create_added [OF c ok]
    from c obtain t tx where t: "cq_Text q = Given t" "api_validateText h t = Inr tx"
      "Create (he_env he 1) (as_shares st) tx (member_value (cq_ExpiresAt q)) = (as_shares st1, Inr (v, token))"
      by (auto simp: plain_create_def)
    from create_fields [OF conjunct2 [OF Create_Inr_valid [OF t(3)]]] t(1,2) a loc show thesis
      by (intro that) (auto simp: added_def)
  next
    assume c: "encrypted_create he h (as_shares st) q (as_shares st1) v token"
    note a = encrypted_create_added [OF c ok]
    from c obtain t tx where t: "cq_EncryptedText q = Given t" "api_validateEncryptedText h t = Inr tx"
      "CreateEncrypted (he_env he 1) (as_shares st) tx (member_value (cq_ExpiresAt q)) = (as_shares st1, Inr (v, token))"
      by (auto simp: encrypted_create_def)
    from create_fields [OF conjunct2 [OF CreateEncrypted_Inr_valid [OF t(3)]]] t(1,2) a loc show thesis
      by (intro that) (auto simp: added_def)
  qed
qed

lemma canonical_members:
  "decodeBase64URL n a b = Inr x \<Longrightarrow> b64_encode x = n"
  by (auto simp: decodeBase64URL_def split: if_splits option.splits)

lemma validated_text:
  assumes "api_validateText h t = Inr tx"
  shows "tq_format t = Some (Format tx) \<and> tq_content t = Some (Content tx)"
  using assms by (auto simp: api_validateText_def ParseTextFormat_def split: option.splits sum.splits if_splits)

lemma validated_encrypted:
  assumes "api_validateEncryptedText h t = Inr c"
  shows "eq_protocol t = Some (Protocol c) \<and> eq_nonce t = Some (b64_encode (Nonce c))
    \<and> eq_ciphertext t = Some (b64_encode (Ciphertext c))"
  using assms
  by (auto simp: api_validateEncryptedText_def dest: canonical_members split: option.splits sum.splits if_splits)

lemma decoded_text_valid:
  assumes "decodeJSON dec_create r = Inr q" "cq_Text q = Given t" "tq_content t = Some c"
  shows "valid_utf8 c"
proof -
  obtain v where "decode_json False (src_data (hr_body r)) = Some v" "dec_create v = Some q"
    using assms(1) by (auto simp: decodeJSON_def read_json_def split: if_splits sum.splits option.splits)
  with dec_create_text [OF _ decode_json_utf8 assms(2,3)] show ?thesis by blast
qed

text \<open>C3: A Share created from JSON is read back as it was sent: the \<open>GET\<close> of the location that the
  \<open>201\<close> named, once the limiter admits it and the database answers, is answered 200 (or 410 when the
  Share has expired meanwhile) with a body that decodes to the text and its format, or to the protocol,
  the nonce and the ciphertext, of the request.\<close>

theorem created_is_read_back:
  assumes "service_ok (as_shares st)" "he_ok he" "serve_api lib opts he r st = (st1, resp)" "rs_status resp = 201"
    and "hr_parts r = None" "decodeJSON dec_create r = Inr q"
    and g: "hr_method g = ''GET''" "hr_path g = hdr_get ''Location'' (rs_headers resp)"
    and a: "allow lib (he_env he2 0) g ReadKind st1 = (sta, True)" "\<not> ev_db (he_env he2 1) AtSelectShare"
    and s: "serve_api lib opts he2 g st1 = (st2, resp2)" "rs_status resp2 \<noteq> 410"
  shows "rs_status resp2 = 200 \<and> (\<exists>ms. decode_json False (rs_body resp2) = Some (JObject [(''share'', JObject ms)])
    \<and> ((\<exists>t f c. cq_Text q = Given t \<and> tq_format t = Some f \<and> tq_content t = Some c
          \<and> map_of ms ''text'' = Some (JObject [(''format'', JString f), (''content'', JString c)]))
       \<or> (\<exists>t p n c. cq_EncryptedText q = Given t \<and> eq_protocol t = Some p \<and> eq_nonce t = Some n \<and> eq_ciphertext t = Some c
          \<and> map_of ms ''encrypted_text''
              = Some (JObject [(''protocol'', JString p), (''nonce'', JString n), (''ciphertext'', JString c)]))))"
proof -
  from posted_share [OF assms(3-5,2,1,6)] obtain v x where
    v: "hdr_get ''Location'' (rs_headers resp) = ''/api/v1/shares/'' @ id_string (ID v)"
    "abs_db (sv_db (as_shares st1)) (id_string (ID v)) = Some (stored v, x)" "service_ok (as_shares st1)" "File v = None"
    and pay: "(\<exists>t tx h. cq_Text q = Given t \<and> api_validateText h t = Inr tx \<and> Text v = Some tx \<and> EncryptedText v = None)
     \<or> (\<exists>t c h. cq_EncryptedText q = Given t \<and> api_validateEncryptedText h t = Inr c \<and> Text v = None \<and> EncryptedText v = Some c)" .
  let ?h = "securityHeaders (hr_path g) []" and ?o = "ao_fileOrigin opts"
  have gp: "hr_path g = ''/api/v1/shares/'' @ id_string (ID v)" using g(2) v(1) by simp
  from gp have "has_prefix (hr_path g) ''/api/v1/shares/''" by (simp add: has_prefix_def)
  from path_kinds [OF this] this s(1) have "item lib opts he2 ?h g st1 = (st2, resp2)"
    by (auto simp: serve_api_def route_def)
  then have r2: "resp2 = api_answer ?o ?h (spec_get (abs_db (sv_db (as_shares st1))) (id_string (ID v)) (serverNow (he_env he2 1)))"
    using item_get [OF v(3) g(1) gp a, of opts ?h] by simp
  have live: "\<not> IsExpired (ExpiresAt (stored v)) (serverNow (he_env he2 1))"
    using s(2) r2 v(2) by (auto simp: spec_get_def api_answer_def serviceError_def)
  with r2 v(2) have ans: "resp2 = writeJSON ?h 200 (shareResponse ?o (stored v))"
    by (simp add: spec_get_def api_answer_def)
  have st: "Text (stored v) = Text v" "EncryptedText (stored v) = EncryptedText v" "File (stored v) = None"
    using v(4) by (simp_all add: stored_def)
  have utf: "\<forall>t. Text (stored v) = Some t \<longrightarrow> valid_utf8 (Content t)"
    using pay st(1) validated_text decoded_text_valid [OF assms(6)] by fastforce
  have dec: "decode_json False (rs_body resp2) = Some (JObject [(''share'', JObject (members_of ?o (stored v)))])"
    using response_decodes [OF service_okD(1) [OF v(3)] v(2) st(3) utf, of ?h ?o]
    by (simp add: ans share_response_members)
  have ms: "map_of (members_of ?o (stored v)) ''text'' = map_option text_json (Text v)"
    "map_of (members_of ?o (stored v)) ''encrypted_text'' = map_option encrypted_json (EncryptedText v)"
    using st by (auto simp: members_of_def responseFromShare_def optional_def split: option.split)
  from pay show ?thesis
  proof (elim disjE exE conjE)
    fix t tx h assume "cq_Text q = Given t" "api_validateText h t = Inr tx" "Text v = Some tx"
    with validated_text [of h t tx] dec ms(1) ans show ?thesis by (auto simp: text_json_def)
  next
    fix t c h assume "cq_EncryptedText q = Given t" "api_validateEncryptedText h t = Inr c" "EncryptedText v = Some c"
    with validated_encrypted [of h t c] dec ms(2) ans show ?thesis by (auto simp: encrypted_json_def)
  qed
qed

lemma created_is_read_back_witness:
  "\<exists>ms. decode_json False (rs_body (snd (serve_api sample_lib sample_options sample_he sample_get
      (fst (serve_api sample_lib sample_options sample_he sample_post empty_api))))) = Some (JObject [(''share'', JObject ms)])
    \<and> map_of ms ''text'' = Some (JObject [(''format'', JString ''PLAIN''), (''content'', JString ''hi'')])"
proof -
  let ?p = "serve_api sample_lib sample_options sample_he sample_post empty_api"
  let ?g = "serve_api sample_lib sample_options sample_he sample_get (fst ?p)"
  have q: "decodeJSON dec_create sample_post = Inr \<lparr>cq_PayloadKind = Some ''TEXT'', cq_PrivacyMode = Some ''STANDARD'',
      cq_Text = Given \<lparr>tq_format = Some ''PLAIN'', tq_content = Some ''hi''\<rparr>, cq_EncryptedText = Absent, cq_ExpiresAt = Null\<rparr>"
    by code_simp
  have run: "case ?p of (st1, resp) \<Rightarrow> rs_status resp = 201 \<and> hr_path sample_get = hdr_get ''Location'' (rs_headers resp)
      \<and> snd (allow sample_lib (he_env sample_he 0) sample_get ReadKind st1)
      \<and> rs_status (snd (serve_api sample_lib sample_options sample_he sample_get st1)) \<noteq> 410" by code_simp
  then obtain sta where a: "allow sample_lib (he_env sample_he 0) sample_get ReadKind (fst ?p) = (sta, True)"
    by (auto split: prod.splits) (metis (full_types) prod.collapse)
  have m: "hr_parts sample_post = None" "hr_method sample_get = ''GET''" "\<not> ev_db (he_env sample_he 1) AtSelectShare"
    "service_ok (as_shares empty_api)"
    using service_ok_empty_service
    by (simp_all add: sample_post_def sample_get_def sample_request_def sample_he_def empty_api_def)
  from run have r: "rs_status (snd ?p) = 201" "hr_path sample_get = hdr_get ''Location'' (rs_headers (snd ?p))"
    "rs_status (snd ?g) \<noteq> 410" by (simp_all add: case_prod_beta)
  from created_is_read_back [OF m(4) sample_he_ok prod.collapse [symmetric] r(1) m(1) q m(2) r(2) a m(3) prod.collapse [symmetric] r(3)]
  show ?thesis by simp
qed

end
