(* ===== verification/MimeFormat.thy ===== *)
theory MimeFormat
  imports Mime
begin

text \<open>
  \<open>mime.FormatMediaType\<close>, which writes the \<open>Content-Disposition\<close> of a download, and that
  \<open>ParseMediaType\<close> reads the file name back, whatever it contains.
\<close>

section \<open>Writing\<close>

definition is_token :: "string \<Rightarrow> bool" where
  "is_token s \<longleftrightarrow> s \<noteq> [] \<and> list_all token_char s"

definition needs_encoding :: "string \<Rightarrow> bool" where
  "needs_encoding s \<longleftrightarrow> list_ex (\<lambda>c. (byte c < 32 \<or> byte c > 126) \<and> byte c \<noteq> 9) s"

definition upper_hex :: "nat \<Rightarrow> char" where
  "upper_hex n = char_of (if n < 10 then 48 + n else 55 + n)"

fun percent_escape :: "string \<Rightarrow> string" where
  "percent_escape [] = []"
| "percent_escape (c # s) =
     (if byte c \<le> 32 \<or> byte c \<ge> 127 \<or> c \<in> {CHR ''*'', CHR 0x27, CHR ''%''} \<or> c \<in> set tspecials
      then CHR ''%'' # upper_hex (byte c div 16) # upper_hex (byte c mod 16) # percent_escape s
      else c # percent_escape s)"

fun backslash_escape :: "string \<Rightarrow> string" where
  "backslash_escape [] = []"
| "backslash_escape (c # s) =
     (if c = CHR 0x22 \<or> c = CHR 0x5C then CHR 0x5C # c # backslash_escape s else c # backslash_escape s)"

definition format_value :: "string \<Rightarrow> string" where
  "format_value v =
     (if needs_encoding v then ''*=utf-8'' @ [CHR 0x27, CHR 0x27] @ percent_escape v
      else if is_token v then CHR ''='' # v
      else CHR ''='' # CHR 0x22 # backslash_escape v @ [CHR 0x22])"

text \<open>\<open>mime.FormatMediaType\<close> of a type without a slash and its parameters, sorted by name.\<close>

definition FormatMediaType :: "string \<Rightarrow> (string \<times> string) list \<Rightarrow> string" where
  "FormatMediaType t ps =
     (if \<not> is_token t \<or> \<not> list_all (\<lambda>p. is_token (fst p)) ps then []
      else to_lower t @ concat (map (\<lambda>(k, v). ''; '' @ to_lower k @ format_value v) ps))"

section \<open>What is written is read back\<close>

lemma visible_not_space:
  assumes "33 \<le> byte c" "byte c \<le> 126"
  shows "trim_left (c # s) = c # s"
proof -
  have sp: "\<forall>p\<in>set spaces. p \<noteq> [] \<and> \<not> (33 \<le> byte (hd p) \<and> byte (hd p) \<le> 126)" by code_simp
  have "\<not> has_prefix (c # s) p" if "p \<in> set spaces" for p
    using sp that assms by (cases p) (auto simp: has_prefix_def)
  then have "find (has_prefix (c # s)) spaces = None" by (simp add: find_None_iff)
  then show ?thesis by (simp add: trim_left_def trim_lead.simps [of spaces "c # s"] lead_len_def)
qed

lemma token_not_space: "token_char c \<Longrightarrow> trim_left (c # s) = c # s"
  by (simp add: visible_not_space token_char_def)

lemma trim_left_token: "is_token v \<Longrightarrow> trim_left v = v"
  by (cases v) (auto simp: is_token_def token_not_space)

lemma upper_hex_facts:
  assumes "n < 16"
  shows "token_char (upper_hex n)" "upper_hex n \<noteq> CHR 0x27" "unhex_digit (upper_hex n) = Some n"
proof -
  have "\<forall>n\<in>set [0..<16]. token_char (upper_hex n) \<and> upper_hex n \<noteq> CHR 0x27 \<and> unhex_digit (upper_hex n) = Some n"
    by code_simp
  with assms show "token_char (upper_hex n)" "upper_hex n \<noteq> CHR 0x27" "unhex_digit (upper_hex n) = Some n" by simp_all
qed

lemma byte_nibbles: "byte c div 16 < 16" "byte c mod 16 < 16" "char_of (16 * (byte c div 16) + byte c mod 16) = c"
proof -
  have "byte c < 256" by (simp add: byte_def)
  then show "byte c div 16 < 16" by simp
  show "char_of (16 * (byte c div 16) + byte c mod 16) = c" by (simp add: byte_def)
qed simp

lemma percent_unescape_escape: "percent_unescape (percent_escape v) = Some v"
  by (induction v) (simp_all add: upper_hex_facts byte_nibbles del: One_nat_def)

lemma escaped_chars: "list_all (\<lambda>c. token_char c \<and> c \<noteq> CHR 0x27) (percent_escape v)"
proof (induction v)
  case (Cons c v)
  have p: "token_char (CHR ''%'')" by code_simp
  show ?case
  proof (cases "byte c \<le> 32 \<or> byte c \<ge> 127 \<or> c \<in> {CHR ''*'', CHR 0x27, CHR ''%''} \<or> c \<in> set tspecials")
    case True
    with Cons p show ?thesis by (simp add: upper_hex_facts byte_nibbles)
  next
    case False
    then have "token_char c" "c \<noteq> CHR 0x27" by (simp_all add: token_char_def)
    with Cons False show ?thesis by simp
  qed
qed simp

lemma consume_escaped:
  "list_all (\<lambda>c. c \<noteq> CHR 0x0D \<and> c \<noteq> CHR 0x0A) v \<Longrightarrow> consume_quoted (backslash_escape v @ [CHR 0x22]) = Some (v, [])"
proof (induction v)
  case (Cons c v)
  obtain d q where r: "backslash_escape v @ [CHR 0x22] = d # q" by (cases "backslash_escape v") auto
  have "CHR 0x22 \<in> set tspecials" "CHR 0x5C \<in> set tspecials" by (simp_all add: tspecials_def)
  with Cons r show ?case by simp
qed simp

lemma takeWhile_token:
  assumes "list_all token_char k"
  shows "takeWhile token_char (k @ CHR ''='' # q) = k" "dropWhile token_char (k @ CHR ''='' # q) = CHR ''='' # q"
proof -
  have "\<not> token_char (CHR ''='')" by code_simp
  with assms show "takeWhile token_char (k @ CHR ''='' # q) = k" "dropWhile token_char (k @ CHR ''='' # q) = CHR ''='' # q"
    by (auto simp: list_all_iff takeWhile_append dropWhile_append takeWhile_eq_all_conv)
qed

text \<open>One parameter to the end of the string.\<close>

lemma consume_last_param:
  assumes k: "is_token k" "to_lower k = k" and q: "trim_left q = q" "consume_value q = (v, [])" "q \<noteq> []"
  shows "media_params (''; '' @ k @ CHR ''='' # q) = Some [(k, v)]"
proof -
  obtain c k' where ck: "k = c # k'" "token_char c" "list_all token_char k" using k(1) by (cases k) (auto simp: is_token_def)
  have ne: "k \<noteq> []" using ck(1) by simp
  have semi: "trim_left (CHR '';'' # s) = CHR '';'' # s" "trim_left (CHR ''='' # s) = CHR ''='' # s" for s
    by (rule visible_not_space, code_simp, code_simp)+
  have "trim_left (CHR '' '' # c # s) = c # s" for s
  proof -
    have len: "\<forall>p\<in>set spaces. p \<noteq> [] \<and> (hd p = CHR '' '' \<longrightarrow> length p = 1)" "'' '' \<in> set spaces" by code_simp+
    have "find (has_prefix (CHR '' '' # c # s)) spaces \<noteq> None"
      using len(2) by (auto simp: find_None_iff has_prefix_def)
    then obtain p where p: "find (has_prefix (CHR '' '' # c # s)) spaces = Some p" by auto
    then have "p \<in> set spaces" "has_prefix (CHR '' '' # c # s) p" by (auto simp: find_Some_iff)
    with len(1) have "length p = 1" by (cases p) (auto simp: has_prefix_def)
    with p have "lead_len spaces (CHR '' '' # c # s) = 1" by (simp add: lead_len_def)
    then have "trim_left (CHR '' '' # c # s) = trim_left (c # s)"
      by (simp add: trim_left_def trim_lead.simps [of spaces "CHR '' '' # c # s"])
    with token_not_space [OF ck(2)] show ?thesis by simp
  qed
  then have sp: "trim_left (CHR '' '' # k @ s) = k @ s" for s using ck(1) by simp
  have "consume_param (''; '' @ k @ CHR ''='' # q) = Some (k, v, [])"
    using k(2) q ne ck(3) by (simp add: consume_param_def semi sp takeWhile_token Let_def)
  moreover have "trim_left [] = []" "media_params [] = Some []"
    by (simp_all add: trim_left_def trim_lead.simps media_params.simps)
  ultimately show ?thesis
    by (subst media_params.simps) (simp add: semi)
qed

lemma disposition_params:
  assumes "media_params (''; '' @ k @ CHR ''='' # q) = Some ps"
  shows "ParseMediaType (''attachment; '' @ k @ CHR ''='' # q) = Some (''attachment'', ps)"
proof -
  have "takeWhile (\<lambda>c. c \<noteq> CHR '';'') (''attachment; '' @ k @ CHR ''='' # q) = ''attachment''" by simp
  moreover have "trim_space (to_lower ''attachment'') = ''attachment''" "media_type_ok ''attachment''" by code_simp+
  ultimately show ?thesis using assms by (simp add: ParseMediaType_def Let_def del: to_lower.simps)
qed

text \<open>Whatever its name, the file of a download is named so.\<close>

lemma disposition_round_trip:
  obtains ps where "ParseMediaType (FormatMediaType ''attachment'' [(''filename'', v)]) = Some (''attachment'', ps)"
    "media_param ps ''filename'' = Some v"
proof -
  have tok: "is_token ''filename''" "is_token ''attachment''" "to_lower ''filename'' = ''filename''"
    "to_lower ''attachment'' = ''attachment''" "is_token ''filename*''" "to_lower ''filename*'' = ''filename*''" by code_simp+
  have F: "FormatMediaType ''attachment'' [(''filename'', v)] = ''attachment; '' @ ''filename'' @ format_value v"
    using tok by (simp add: FormatMediaType_def del: to_lower.simps)
  show ?thesis
  proof (cases "needs_encoding v")
    case True
    let ?e = "percent_escape v"
    let ?w = "''utf-8'' @ [CHR 0x27, CHR 0x27] @ ?e"
    have w: "is_token ?w"
    proof -
      have "list_all token_char (''utf-8'' @ [CHR 0x27, CHR 0x27])" by code_simp
      moreover have "list_all token_char ?e" using escaped_chars [of v] by (simp add: list_all_iff)
      ultimately show ?thesis by (simp add: is_token_def)
    qed
    have "consume_value ?w = (?w, [])"
      using w by (simp add: consume_value_def is_token_def takeWhile_eq_all_conv list_all_iff)
    from consume_last_param [OF tok(5,6) trim_left_token [OF w] this]
    have "media_params (''; '' @ ''filename*'' @ CHR ''='' # ?w) = Some [(''filename*'', ?w)]" by simp
    from disposition_params [OF this]
    have 1: "ParseMediaType (FormatMediaType ''attachment'' [(''filename'', v)]) = Some (''attachment'', [(''filename*'', ?w)])"
      using True by (simp add: F format_value_def del: to_lower.simps)
    have "decode_2231 ?w = Some v"
    proof -
      have "to_lower ''utf-8'' = ''utf-8''" by code_simp
      then show ?thesis using percent_unescape_escape [of v] by (simp add: decode_2231_def cut_def del: to_lower.simps)
    qed
    with 1 show ?thesis by (intro that [OF 1]) (simp add: media_param_def)
  next
    case False
    have "\<exists>q. format_value v = CHR ''='' # q \<and> trim_left q = q \<and> consume_value q = (v, []) \<and> q \<noteq> []"
    proof (cases "is_token v")
      case True
      then have "consume_value v = (v, [])"
        by (cases v) (auto simp: consume_value_def is_token_def takeWhile_eq_all_conv list_all_iff token_char_def tspecials_def)
      with True False trim_left_token [OF True] show ?thesis by (simp add: format_value_def is_token_def)
    next
      case no: False
      have "list_all (\<lambda>c. c \<noteq> CHR 0x0D \<and> c \<noteq> CHR 0x0A) v"
        using False by (auto simp: needs_encoding_def list_ex_iff list_all_iff byte_def)
      from consume_escaped [OF this] no False show ?thesis
        by (auto simp: format_value_def consume_value_def intro!: visible_not_space) (simp_all add: byte_def)
    qed
    then obtain q where q: "format_value v = CHR ''='' # q" "trim_left q = q" "consume_value q = (v, [])" "q \<noteq> []" by blast
    from disposition_params [OF consume_last_param [OF tok(1,3) q(2-4)]]
    have 1: "ParseMediaType (FormatMediaType ''attachment'' [(''filename'', v)]) = Some (''attachment'', [(''filename'', v)])"
      by (simp add: F q(1) del: to_lower.simps)
    show ?thesis by (intro that [OF 1]) (simp add: media_param_def format_nat.simps)
  qed
qed

end
