(* ===== verification/FileApi.thy ===== *)
theory FileApi
  imports HttpApi MimeFormat
begin

text \<open>
  Package \<open>internal/fileapi\<close>: the listener that serves the objects of File Shares.  What
  \<open>http.ServeContent\<close> makes of a request for given content (ranges, conditions) is a parameter.
\<close>

text \<open>The request, the name, the modification time, the content and the headers set so far.\<close>

type_synonym content_server = "http_request \<Rightarrow> string \<Rightarrow> time \<Rightarrow> bytes \<Rightarrow> headers \<Rightarrow> http_response"

definition file_path :: "string \<Rightarrow> bool" where
  "file_path p \<longleftrightarrow> p = ''/f'' \<or> has_prefix p ''/f/''"

definition file_csp :: string where
  "file_csp =
     (let none = CHR 0x27 # ''none'' @ [CHR 0x27]
      in ''default-src '' @ none @ ''; base-uri '' @ none @ ''; form-action '' @ none @ ''; frame-ancestors '' @ none
         @ ''; sandbox'')"

text \<open>\<open>fileResponseWriter.apply\<close>\<close>

definition file_headers :: "headers \<Rightarrow> headers" where
  "file_headers h =
     hdr_set ''X-Frame-Options'' ''DENY''
      (hdr_set ''Content-Security-Policy'' file_csp
        (hdr_set ''Referrer-Policy'' ''no-referrer''
          (hdr_set ''Cache-Control'' ''no-store'' (hdr_set ''X-Content-Type-Options'' ''nosniff'' h))))"

definition file_rateLimited :: "headers \<Rightarrow> nat \<Rightarrow> http_response" where
  "file_rateLimited h retry = http_Error (hdr_set ''Retry-After'' (format_nat retry) h) ''too many requests'' 429"

definition file_error :: "headers \<Rightarrow> err \<Rightarrow> http_response" where
  "file_error h e =
     (if errors_is e ErrNotFound then http_Error h ''file not found'' 404
      else if errors_is e ErrExpired then http_Error h ''file expired'' 410
      else http_Error h ''internal error'' 500)"

definition download_headers :: "headers \<Rightarrow> file_meta \<Rightarrow> headers" where
  "download_headers h f =
     hdr_set ''Content-Length'' (format_int (Size f))
      (hdr_set ''ETag'' (CHR 0x22 # hex_encode (SHA256 f) @ [CHR 0x22])
        (hdr_set ''Content-Disposition'' (FormatMediaType ''attachment'' [(''filename'', Filename f)])
          (hdr_set ''Content-Type'' (MediaType f) h)))"

text \<open>The part of the handler between taking and giving back a download slot.\<close>

definition download :: "content_server \<Rightarrow> http_env \<Rightarrow> headers \<Rightarrow> http_request \<Rightarrow> service \<Rightarrow> http_response" where
  "download serve he h r s =
     (let idValue = trim_prefix (hr_path r) ''/f/''
      in if idValue = [] \<or> CHR ''/'' \<in> set idValue then http_Error h ''file not found'' 404
         else case ParseShareID idValue of
           Inl e \<Rightarrow> http_Error h ''file not found'' 404
         | Inr i \<Rightarrow>
             (case OpenFile (he_env he 1) s i of
                Inl e \<Rightarrow> file_error h e
              | Inr (v, object) \<Rightarrow>
                  if he_write_deadline he then http_Error h ''internal error'' 500
                  else (case File v of
                    None \<Rightarrow> http_Error h ''internal error'' 500
                  | Some f \<Rightarrow> serve r (Filename f) (CreatedAt v) object (download_headers h f))))"

definition release_download :: "'l control \<Rightarrow> 'l control" where
  "release_download c = (case ReleaseDownload c of None \<Rightarrow> c | Some c' \<Rightarrow> c')"

definition file_route ::
  "'l lib \<Rightarrow> content_server \<Rightarrow> http_env \<Rightarrow> headers \<Rightarrow> http_request \<Rightarrow> 'l api_state \<Rightarrow> 'l api_state \<times> http_response" where
  "file_route lib serve he h r st =
     (if \<not> file_path (hr_path r) then (st, http_NotFound h)
      else if hr_method r \<noteq> ''GET'' \<and> hr_method r \<noteq> ''HEAD''
      then (st, http_Error (hdr_set ''Allow'' ''GET, HEAD'' h) ''method not allowed'' 405)
      else case Allow (lb_limiter lib) (ev_now (he_env he 0)) (hr_remote r) (hdr_get ''X-Forwarded-For'' (hr_headers r))
                  ReadKind (as_abuse st) of
        (c, False) \<Rightarrow> (st\<lparr>as_abuse := c\<rparr>, file_rateLimited h 60)
      | (c, True) \<Rightarrow>
          (case TryDownload c of
             (c1, False) \<Rightarrow> (st\<lparr>as_abuse := c1\<rparr>, file_rateLimited h 1)
           | (c1, True) \<Rightarrow> (st\<lparr>as_abuse := release_download c1\<rparr>, download serve he h r (as_shares st))))"

text \<open>\<open>headResponseWriter\<close> drops the body.\<close>

definition without_body :: "http_request \<Rightarrow> http_response \<Rightarrow> http_response" where
  "without_body r resp = (if hr_method r = ''HEAD'' then resp\<lparr>rs_body := []\<rparr> else resp)"

text \<open>The handler \<open>NewWithAbuse\<close> returns: the headers are set before the handler runs and again
  when it writes.\<close>

definition serve_file ::
  "'l lib \<Rightarrow> content_server \<Rightarrow> http_env \<Rightarrow> http_request \<Rightarrow> 'l api_state \<Rightarrow> 'l api_state \<times> http_response" where
  "serve_file lib serve he r st =
     (if file_path (hr_path r)
      then (case file_route lib serve he (file_headers []) r st of
              (st1, resp) \<Rightarrow> (st1, without_body r (resp\<lparr>rs_headers := file_headers (rs_headers resp)\<rparr>)))
      else (case file_route lib serve he [] r st of (st1, resp) \<Rightarrow> (st1, without_body r resp)))"

end
