(* ===== verification/AdminApi.thy ===== *)
theory AdminApi
  imports HttpApi AdminSession ShareAdmin Maintenance
begin

text \<open>
  Package \<open>internal/adminapi\<close>: the Superadmin's API.  Every operation but the login is behind the
  session cookie, and those that change something also behind the session's CSRF token; the state
  is the Shares and the session manager.  Calls on the clock and the services are numbered in
  their order: 0 looks the session up, 1 checks the CSRF token, 2 and on serve the request.
\<close>

section \<open>State and options\<close>

definition basePath :: string where "basePath = ''/api/v1/admin''"
definition maxAdminBody :: nat where "maxAdminBody = 65536"
definition defaultPageSize :: int where "defaultPageSize = 50"
definition maxPageSize :: int where "maxPageSize = 100"
definition maxBulkDeleteIDs :: nat where "maxBulkDeleteIDs = 100"

definition SessionCookieName :: string where "SessionCookieName = ''upaste_admin_session''"

text \<open>The canonical form of \<open>CSRFHeaderName\<close>.\<close>

definition CSRFHeaderName :: string where "CSRFHeaderName = ''X-Upaste-Csrf''"

record 'l admin_state =
  ad_shares :: service
  ad_manager :: "'l manager"

record admin_api =
  aa_fileOrigin :: string
  aa_trusted :: "prefix list"
  aa_cleaner :: bool

section \<open>Cookies\<close>

definition textproto_space :: "char \<Rightarrow> bool" where
  "textproto_space c \<longleftrightarrow> c = CHR '' '' \<or> byte c = 9 \<or> byte c = 10 \<or> byte c = 13"

definition textproto_trim :: "string \<Rightarrow> string" where
  "textproto_trim s = rev (dropWhile textproto_space (rev (dropWhile textproto_space s)))"

definition cookie_byte :: "char \<Rightarrow> bool" where
  "cookie_byte c \<longleftrightarrow> 32 \<le> byte c \<and> byte c < 127 \<and> c \<noteq> CHR 0x22 \<and> c \<noteq> CHR '';'' \<and> c \<noteq> CHR 0x5C"

definition cookie_value :: "string \<Rightarrow> string option" where
  "cookie_value raw =
     (let v = (if length raw > 1 \<and> hd raw = CHR 0x22 \<and> last raw = CHR 0x22 then butlast (tl raw) else raw)
      in if list_all cookie_byte v then Some v else None)"

definition cookie_part :: "string \<Rightarrow> (string \<times> string) option" where
  "cookie_part part =
     (let p = textproto_trim part;
          kv = (case cut (CHR ''='') p of None \<Rightarrow> (p, []) | Some x \<Rightarrow> x);
          name = textproto_trim (fst kv)
      in if name = [] \<or> \<not> list_all token_char name then None
         else map_option (\<lambda>v. (name, v)) (cookie_value (snd kv)))"

text \<open>\<open>Request.Cookie\<close>: the first cookie of the name.\<close>

definition request_cookie :: "string \<Rightarrow> http_request \<Rightarrow> string option" where
  "request_cookie name r =
     map_of (List.map_filter cookie_part (concat (map (\<lambda>line. split_on (CHR '';'') (textproto_trim line))
       (hdr_values ''Cookie'' (hr_headers r))))) name"

text \<open>\<open>time.Format\<close> with \<open>http.TimeFormat\<close>.\<close>

definition http_date :: "time \<Rightarrow> string" where
  "http_date t =
     (let secs = t div 1000000000; days = secs div 86400; sod = secs mod 86400
      in case civil_from_days days of
           (y, m, d) \<Rightarrow>
             [''Sun'', ''Mon'', ''Tue'', ''Wed'', ''Thu'', ''Fri'', ''Sat''] ! nat ((days + 4) mod 7) @ '', '' @ pad 2 d @ '' ''
             @ [''Jan'', ''Feb'', ''Mar'', ''Apr'', ''May'', ''Jun'', ''Jul'', ''Aug'', ''Sep'', ''Oct'', ''Nov'', ''Dec''] ! nat (m - 1)
             @ '' '' @ pad 4 y @ '' '' @ pad 2 (sod div 3600) @ '':'' @ pad 2 (sod div 60 mod 60) @ '':'' @ pad 2 (sod mod 60)
             @ '' GMT'')"

text \<open>\<open>http.SetCookie\<close> of the session cookie: \<open>HttpOnly\<close>, \<open>SameSite=Strict\<close>, for the path \<open>/\<close>.\<close>

definition set_cookie :: "string \<Rightarrow> time \<Rightarrow> string \<Rightarrow> bool \<Rightarrow> headers \<Rightarrow> headers" where
  "set_cookie value expires age secure h =
     hdr_add ''Set-Cookie'' (SessionCookieName @ ''='' @ value @ ''; Path=/; Expires='' @ http_date expires
       @ ''; Max-Age='' @ age @ ''; HttpOnly'' @ (if secure then ''; Secure'' else []) @ ''; SameSite=Strict'') h"

definition clearCookie :: "'l manager \<Rightarrow> headers \<Rightarrow> headers" where
  "clearCookie m h = set_cookie [] second ''0'' (mg_secure m) h"

section \<open>Responses\<close>

definition admin_unauthorized :: "headers \<Rightarrow> http_response" where
  "admin_unauthorized h =
     writeError (hdr_set ''WWW-Authenticate'' ''Cookie'' h) 401 ''unauthorized'' ''admin authentication required''"

definition methodNotAllowed :: "headers \<Rightarrow> string \<Rightarrow> http_response" where
  "methodNotAllowed h allowed = writeError (hdr_set ''Allow'' allowed h) 405 ''invalid_request'' ''method not allowed''"

definition admin_bad :: "headers \<Rightarrow> string \<Rightarrow> http_response" where
  "admin_bad h message = writeError h 400 ''invalid_request'' message"

definition share_state :: "time option \<Rightarrow> time \<Rightarrow> string" where
  "share_state expires now = (if IsExpired expires now then ''expired'' else ''active'')"

definition omit_blank :: "string \<Rightarrow> string \<Rightarrow> (string \<times> json) list" where
  "omit_blank name s = (if s = [] then [] else [(name, JString s)])"

definition listItemFromShare :: "time \<Rightarrow> admin_item \<Rightarrow> json" where
  "listItemFromShare now v =
     JObject ([(''id'', JString (id_string (ai_ID v))), (''payload_kind'', JString (kind_string (ai_PayloadKind v))),
               (''privacy_mode'', JString (privacy_string (ai_PrivacyMode v))),
               (''state'', JString (share_state (ai_ExpiresAt v) now)),
               (''created_at'', JString (format_rfc3339 (ai_CreatedAt v))),
               (''updated_at'', JString (format_rfc3339 (ai_UpdatedAt v))), (''expires_at'', time_json (ai_ExpiresAt v)),
               (''payload_bytes'', JNumber (format_int (ai_PayloadBytes v)))]
       @ omit_blank ''file_filename'' (ai_FileFilename v) @ omit_blank ''file_media_type'' (ai_FileMediaType v))"

definition admin_encrypted_json :: "encrypted_text \<Rightarrow> json" where
  "admin_encrypted_json e =
     JObject [(''protocol'', JString (Protocol e)), (''nonce'', JString (b64_encode (Nonce e))),
              (''ciphertext_bytes'', JNumber (format_int (int (length (Ciphertext e))))),
              (''notice'', JString (''Client-side encrypted '' @ encode_rune 8212 @ '' plaintext unavailable to the server.''))]"

definition share_bytes :: "share \<Rightarrow> int" where
  "share_bytes v =
     (case Text v of
        Some t \<Rightarrow> int (length (Content t))
      | None \<Rightarrow>
          (case EncryptedText v of
             Some e \<Rightarrow> int (length (Ciphertext e))
           | None \<Rightarrow> (case File v of Some f \<Rightarrow> Size f | None \<Rightarrow> 0)))"

definition admin_responseFromShare :: "string \<Rightarrow> time \<Rightarrow> share \<Rightarrow> json" where
  "admin_responseFromShare origin now v =
     JObject ([(''id'', JString (id_string (ID v))), (''payload_kind'', JString (kind_string (PayloadKind v))),
               (''privacy_mode'', JString (privacy_string (PrivacyMode v))),
               (''state'', JString (share_state (ExpiresAt v) now)),
               (''created_at'', JString (format_rfc3339 (CreatedAt v))),
               (''updated_at'', JString (format_rfc3339 (UpdatedAt v))), (''expires_at'', time_json (ExpiresAt v)),
               (''payload_bytes'', JNumber (format_int (share_bytes v)))]
       @ optional ''text'' text_json (Text v) @ optional ''encrypted_text'' admin_encrypted_json (EncryptedText v)
       @ optional ''file'' (file_json origin (ID v)) (File v))"

definition summary_json :: "admin_summary \<Rightarrow> json" where
  "summary_json s =
     JObject [(''active'', JNumber (format_int (int (Active s)))), (''expired'', JNumber (format_int (int (Expired s)))),
              (''text'', JNumber (format_int (int (TextCount s)))), (''file'', JNumber (format_int (int (FileCount s)))),
              (''encrypted'', JNumber (format_int (int (EncryptedCount s)))), (''file_bytes'', JNumber (format_int (FileBytes s)))]"

section \<open>Request bodies and parameters\<close>

text \<open>
  \<open>decodeStrict\<close>: one JSON value, read by \<open>encoding/json\<close> from at most \<open>maxAdminBody + 1\<close> bytes, into
  a struct whose fields are \<open>names\<close>, and nothing after it.
\<close>

definition decodeStrict :: "string list \<Rightarrow> ((string \<times> json) list \<Rightarrow> 'a option) \<Rightarrow> http_request \<Rightarrow> 'a option" where
  "decodeStrict names dec r =
     (let data = src_data (hr_body r)
      in if length data \<le> maxAdminBody \<and> src_err (hr_body r) \<noteq> None then None
         else case v1_members (take (maxAdminBody + 1) data) of
           None \<Rightarrow> None
         | Some (ms, rest) \<Rightarrow>
             if \<not> list_all (\<lambda>m. list_ex (equal_fold (fst m)) names) ms \<or> skip_ws rest \<noteq> [] then None
             else dec ms)"

definition dec_login :: "(string \<times> json) list \<Rightarrow> string option" where
  "dec_login ms = v1_field json_string ''token'' ms []"

text \<open>An array into a slice of strings: elements that are \<open>null\<close> keep what the slice had there.\<close>

fun fill_strings :: "string list \<Rightarrow> json list \<Rightarrow> string list option" where
  "fill_strings old [] = Some []"
| "fill_strings old (v # vs) =
     (case (if v = JNull then Some (case old of [] \<Rightarrow> [] | s # ss \<Rightarrow> s) else json_string v, fill_strings (tl old) vs) of
        (Some s, Some ss) \<Rightarrow> Some (s # ss) | _ \<Rightarrow> None)"

text \<open>The only field is \<open>ids\<close>; \<open>null\<close> makes the slice nil.\<close>

fun dec_ids :: "string list \<Rightarrow> (string \<times> json) list \<Rightarrow> string list option" where
  "dec_ids ids [] = Some ids"
| "dec_ids ids ((k, v) # ms) =
     (case v of
        JNull \<Rightarrow> dec_ids [] ms
      | JArray vs \<Rightarrow> (case fill_strings ids vs of None \<Rightarrow> None | Some ids' \<Rightarrow> dec_ids ids' ms)
      | _ \<Rightarrow> None)"

definition parseFilter :: "http_request \<Rightarrow> admin_filter option" where
  "parseFilter r =
     (let q = parse_query (hr_query r);
          get = query_get q
      in case (if get ''limit'' = [] then Some defaultPageSize
               else case parse_int64 (get ''limit'') of
                 None \<Rightarrow> None
               | Some n \<Rightarrow> if n < 1 \<or> n > maxPageSize then None else Some n) of
           None \<Rightarrow> None
         | Some limit \<Rightarrow>
             if get ''kind'' \<noteq> [] \<and> isl (ParsePayloadKind (get ''kind'')) then None
             else if get ''privacy'' \<noteq> [] \<and> isl (ParsePrivacyMode (get ''privacy'')) then None
             else if get ''id'' \<noteq> [] \<and> isl (ParseShareID (get ''id'')) then None
             else Some \<lparr>af_PayloadKind = get ''kind'', af_PrivacyMode = get ''privacy'', af_Lifecycle = get ''lifecycle'',
                        af_Sort = get ''sort'', af_Cursor = get ''cursor'', af_Limit = limit, af_ExactID = get ''id''\<rparr>)"

section \<open>Sessions\<close>

text \<open>The state after the look-ups, and the refusal or the session and the cookie.\<close>

definition authenticate ::
  "http_env \<Rightarrow> headers \<Rightarrow> http_request \<Rightarrow> bool \<Rightarrow> 'l manager \<Rightarrow> 'l manager \<times> (http_response + session \<times> string)" where
  "authenticate he h r requireCSRF m =
     (case request_cookie SessionCookieName r of
        None \<Rightarrow> (m, Inl (admin_unauthorized h))
      | Some raw \<Rightarrow>
          if raw = [] then (m, Inl (admin_unauthorized h))
          else (case Lookup (ev_sha (he_env he 0)) (ev_now (he_env he 0)) raw m of
            (m1, None) \<Rightarrow> (m1, Inl (admin_unauthorized h))
          | (m1, Some session) \<Rightarrow>
              if requireCSRF
              then
                (let failed = Inl (writeError h 403 ''csrf_failed'' ''CSRF validation failed'')
                 in case hdr_values CSRFHeaderName (hr_headers r) of
                      [v] \<Rightarrow>
                        if trim_space v = [] then (m1, failed)
                        else (case CSRFMatches (ev_sha (he_env he 1)) (ev_now (he_env he 1)) raw v m1 of
                          (m2, b) \<Rightarrow> (m2, if b then Inr (session, raw) else failed))
                    | _ \<Rightarrow> (m1, failed))
              else (m1, Inr (session, raw))))"

definition guarded ::
  "http_env \<Rightarrow> headers \<Rightarrow> http_request \<Rightarrow> bool \<Rightarrow> 'l admin_state
     \<Rightarrow> (session \<Rightarrow> string \<Rightarrow> 'l admin_state \<Rightarrow> 'l admin_state \<times> http_response) \<Rightarrow> 'l admin_state \<times> http_response" where
  "guarded he h r requireCSRF st body =
     (case authenticate he h r requireCSRF (ad_manager st) of
        (m1, Inl resp) \<Rightarrow> (st\<lparr>ad_manager := m1\<rparr>, resp)
      | (m1, Inr (session, raw)) \<Rightarrow> body session raw (st\<lparr>ad_manager := m1\<rparr>))"

definition session_json :: "string \<Rightarrow> time \<Rightarrow> json" where
  "session_json csrf expires =
     JObject [(''authenticated'', JBool True), (''csrf'', JString csrf), (''expires_at'', JString (format_rfc3339 expires))]"

definition clientKey :: "admin_api \<Rightarrow> http_request \<Rightarrow> string" where
  "clientKey api r = RateKey (ClientIP (hr_remote r) (hdr_get ''X-Forwarded-For'' (hr_headers r)) (aa_trusted api))"

definition admin_login ::
  "'l limiter_lib \<Rightarrow> admin_api \<Rightarrow> http_env \<Rightarrow> headers \<Rightarrow> http_request \<Rightarrow> 'l admin_state \<Rightarrow> 'l admin_state \<times> http_response" where
  "admin_login lib api he h r st =
     (case decodeStrict [''token''] dec_login r of
        None \<Rightarrow> (st, admin_bad h ''request body is invalid'')
      | Some token \<Rightarrow>
          if trim_space token = [] then (st, admin_bad h ''request body is invalid'')
          else (case Login lib (ev_sha (he_env he 0)) (ev_now (he_env he 0)) (ev_token_rnd (he_env he 1))
                       (ev_token_rnd (he_env he 2)) token (clientKey api r) (ad_manager st) of
            (m1, Inl e) \<Rightarrow>
              (st\<lparr>ad_manager := m1\<rparr>,
               if errors_is e ErrRateLimited
               then writeError (hdr_set ''Retry-After'' ''60'' h) 429 ''rate_limited'' ''too many requests''
               else writeError h 401 ''unauthorized'' ''authentication failed'')
          | (m1, Inr (raw, csrf)) \<Rightarrow>
              (let expiresAt = ev_now (he_env he 3) + mg_ttl m1
               in (st\<lparr>ad_manager := m1\<rparr>,
                   writeJSON (set_cookie raw expiresAt (format_int (mg_ttl m1 div second)) (mg_secure m1 \<or> hr_tls r) h)
                     200 (session_json csrf expiresAt)))))"

definition admin_session ::
  "'l limiter_lib \<Rightarrow> admin_api \<Rightarrow> http_env \<Rightarrow> headers \<Rightarrow> http_request \<Rightarrow> 'l admin_state \<Rightarrow> 'l admin_state \<times> http_response" where
  "admin_session lib api he h r st =
     (if hr_method r = ''POST'' then admin_login lib api he h r st
      else if hr_method r = ''GET''
      then guarded he h r False st
             (\<lambda>session raw st1. (st1, writeJSON h 200 (session_json (CSRFToken session) (SessionExpiresAt session))))
      else if hr_method r = ''DELETE''
      then guarded he h r True st
             (\<lambda>session raw st1.
                (st1\<lparr>ad_manager := Logout (ev_sha (he_env he 2)) raw (ad_manager st1)\<rparr>,
                 http_status (clearCookie (ad_manager st1) h) 204))
      else (st, methodNotAllowed h ''GET, POST, DELETE''))"

section \<open>Governance\<close>

definition admin_summary ::
  "http_env \<Rightarrow> headers \<Rightarrow> http_request \<Rightarrow> 'l admin_state \<Rightarrow> 'l admin_state \<times> http_response" where
  "admin_summary he h r st =
     (if hr_method r \<noteq> ''GET'' then (st, methodNotAllowed h ''GET'')
      else guarded he h r False st
             (\<lambda>session raw st1.
                (st1, case AdminSummary (he_env he 2) (ad_shares st1) of
                        Inl e \<Rightarrow> internalError h
                      | Inr summary \<Rightarrow> writeJSON h 200 (JObject [(''summary'', summary_json summary)]))))"

definition listShares ::
  "http_env \<Rightarrow> headers \<Rightarrow> http_request \<Rightarrow> 'l admin_state \<Rightarrow> 'l admin_state \<times> http_response" where
  "listShares he h r st =
     (if hr_method r \<noteq> ''GET'' then (st, methodNotAllowed h ''GET'')
      else guarded he h r False st
             (\<lambda>session raw st1.
                (st1, case parseFilter r of
                        None \<Rightarrow> admin_bad h ''invalid listing parameters''
                      | Some flt \<Rightarrow>
                          (case AdminList (he_env he 2) (ad_shares st1) flt of
                             Inl e \<Rightarrow> admin_bad h ''invalid cursor or listing parameters''
                           | Inr (values, cursor) \<Rightarrow>
                               writeJSON h 200 (JObject
                                 [(''next_cursor'', JString cursor),
                                  (''shares'', JArray (map (\<lambda>(k, v). listItemFromShare (ev_now (he_env he (3 + k))) v)
                                     (enumerate 0 values)))])))))"

definition shareItem ::
  "admin_api \<Rightarrow> http_env \<Rightarrow> headers \<Rightarrow> http_request \<Rightarrow> string \<Rightarrow> 'l admin_state \<Rightarrow> 'l admin_state \<times> http_response" where
  "shareItem api he h r idValue st =
     (case ParseShareID idValue of
        Inl e \<Rightarrow> (st, writeError h 404 ''not_found'' ''share not found'')
      | Inr i \<Rightarrow>
          if hr_method r = ''GET''
          then guarded he h r False st
                 (\<lambda>session raw st1.
                    (st1, case AdminGet (he_env he 2) (ad_shares st1) i of
                            Inl e \<Rightarrow>
                              if errors_is e ErrNotFound then writeError h 404 ''not_found'' ''share not found''
                              else internalError h
                          | Inr v \<Rightarrow>
                              writeJSON h 200 (JObject [(''share'',
                                admin_responseFromShare (aa_fileOrigin api) (ev_now (he_env he 3)) v)])))
          else if hr_method r = ''DELETE''
          then guarded he h r True st
                 (\<lambda>session raw st1.
                    (case AdminDelete (he_env he 2) (ad_shares st1) i of
                       (s, x) \<Rightarrow>
                         (st1\<lparr>ad_shares := s\<rparr>,
                          case x of
                            None \<Rightarrow> http_status h 204
                          | Some e \<Rightarrow>
                              if errors_as_cleanup e \<noteq> None then http_status h 204
                              else if errors_is e ErrNotFound then writeError h 404 ''not_found'' ''share not found''
                              else internalError h)))
          else (st, methodNotAllowed h ''GET, DELETE''))"

text \<open>The ids in their order: how many were deleted, and which were not.\<close>

fun delete_ids :: "(nat \<Rightarrow> env) \<Rightarrow> share_id list \<Rightarrow> service \<Rightarrow> service \<times> nat \<times> string list" where
  "delete_ids envs [] s = (s, 0, [])"
| "delete_ids envs (i # is) s =
     (case AdminDelete (envs 0) s i of
        (s1, x) \<Rightarrow>
          (case delete_ids (\<lambda>n. envs (Suc n)) is s1 of
             (s2, deleted, failed) \<Rightarrow>
               (case x of None \<Rightarrow> (s2, Suc deleted, failed) | Some e \<Rightarrow> (s2, deleted, id_string i # failed))))"

definition bulkDelete ::
  "http_env \<Rightarrow> headers \<Rightarrow> http_request \<Rightarrow> 'l admin_state \<Rightarrow> 'l admin_state \<times> http_response" where
  "bulkDelete he h r st =
     (if hr_method r \<noteq> ''POST'' then (st, methodNotAllowed h ''POST'')
      else guarded he h r True st
             (\<lambda>session raw st1.
                (case decodeStrict [''ids''] (dec_ids []) r of
                   None \<Rightarrow> (st1, admin_bad h ''ids must contain 1-100 Share IDs'')
                 | Some ids \<Rightarrow>
                     if ids = [] \<or> length ids > maxBulkDeleteIDs
                     then (st1, admin_bad h ''ids must contain 1-100 Share IDs'')
                     else
                       (case delete_ids (\<lambda>n. he_env he (2 + n))
                               (List.map_filter (\<lambda>v. case ParseShareID v of Inl e \<Rightarrow> None | Inr i \<Rightarrow> Some i) ids)
                               (ad_shares st1) of
                          (s, deleted, failed) \<Rightarrow>
                            (st1\<lparr>ad_shares := s\<rparr>,
                             writeJSON h 200 (JObject
                               [(''deleted'', JNumber (format_int (int deleted))),
                                (''failed'', JArray (map JString (filter (\<lambda>v. isl (ParseShareID v)) ids @ failed)))]))))))"

text \<open>A cleaner comes with the object store.\<close>

definition cleanupExpired ::
  "admin_api \<Rightarrow> http_env \<Rightarrow> headers \<Rightarrow> http_request \<Rightarrow> 'l admin_state \<Rightarrow> 'l admin_state \<times> http_response" where
  "cleanupExpired api he h r st =
     (if hr_method r \<noteq> ''POST'' then (st, methodNotAllowed h ''POST'')
      else guarded he h r True st
             (\<lambda>session raw st1.
                (case (if aa_cleaner api then sv_store (ad_shares st1) else None) of
                   None \<Rightarrow> (st1, writeError h 501 ''unsupported'' ''cleanup is unavailable'')
                 | Some fs \<Rightarrow>
                     (case CleanupExpired (\<lambda>n. he_env he (2 + n)) (ev_now (he_env he 2)) (sv_db (ad_shares st1)) fs of
                        (d1, fs1, x) \<Rightarrow>
                          (st1\<lparr>ad_shares := (ad_shares st1)\<lparr>sv_db := d1, sv_store := Some fs1\<rparr>\<rparr>,
                           case x of
                             Inl e \<Rightarrow> internalError h
                           | Inr n \<Rightarrow> writeJSON h 200 (JObject [(''purged'', JNumber (format_int (int n)))]))))))"

section \<open>Dispatch\<close>

definition admin_route ::
  "'l limiter_lib \<Rightarrow> admin_api \<Rightarrow> http_env \<Rightarrow> headers \<Rightarrow> http_request \<Rightarrow> 'l admin_state \<Rightarrow> 'l admin_state \<times> http_response" where
  "admin_route lib api he h r st =
     (let path = trim_suffix (hr_path r) ''/'';
          shares = basePath @ ''/shares/''
      in if path = basePath @ ''/session'' then admin_session lib api he h r st
         else if path = basePath @ ''/summary'' then admin_summary he h r st
         else if path = basePath @ ''/shares'' then listShares he h r st
         else if path = basePath @ ''/shares/bulk-delete'' then bulkDelete he h r st
         else if path = basePath @ ''/cleanup/expired'' then cleanupExpired api he h r st
         else if has_prefix path shares \<and> CHR ''/'' \<notin> set (trim_prefix path shares)
         then shareItem api he h r (trim_prefix path shares) st
         else (st, writeError h 404 ''not_found'' ''not found''))"

definition admin_headers :: "headers \<Rightarrow> headers" where
  "admin_headers h =
     hdr_set ''Referrer-Policy'' ''no-referrer''
       (hdr_set ''X-Content-Type-Options'' ''nosniff'' (hdr_set ''Cache-Control'' ''no-store'' h))"

text \<open>The handler \<open>New\<close> returns.\<close>

definition serve_admin ::
  "'l limiter_lib \<Rightarrow> admin_api \<Rightarrow> http_env \<Rightarrow> http_request \<Rightarrow> 'l admin_state \<Rightarrow> 'l admin_state \<times> http_response" where
  "serve_admin lib api he r st = admin_route lib api he (admin_headers []) r st"

end
