(* ===== verification/ShareFrame.thy ===== *)
theory ShareFrame
  imports HttpHandlers AdminApi
begin

text \<open>
  What no operation touches: the retention policy, and whether there is an object store.
\<close>

definition framed :: "service \<Rightarrow> service \<Rightarrow> bool" where
  "framed s s' \<longleftrightarrow> sv_retention s' = sv_retention s \<and> (sv_store s' = None \<longleftrightarrow> sv_store s = None)"

named_theorems framing "operations that keep the frame of a service"

lemma framed_refl [framing]: "framed s s"
  by (simp add: framed_def)

lemma framed_trans: "framed a b \<Longrightarrow> framed b c \<Longrightarrow> framed a c"
  by (simp add: framed_def)

lemma framed_updates [framing]:
  "framed s (s\<lparr>sv_db := d\<rparr>)"
  "sv_store s = Some fs \<Longrightarrow> framed s (s\<lparr>sv_store := Some fs'\<rparr>)"
  "sv_store s = Some fs \<Longrightarrow> framed s (s\<lparr>sv_db := d, sv_store := Some fs'\<rparr>)"
  by (simp_all add: framed_def)

section \<open>The share service\<close>

lemma framed_create [framing]: "framed s (fst (create env s privacy txt enc ex))"
  by (auto simp: create_def Let_def split: sum.splits intro: framing)

lemma framed_Create [framing]: "framed s (fst (Create env s txt ex))"
  by (auto simp: Create_def split: option.splits intro: framing)

lemma framed_CreateEncrypted [framing]: "framed s (fst (CreateEncrypted env s enc ex))"
  by (auto simp: CreateEncrypted_def split: option.splits intro: framing)

lemma framed_Update [framing]: "framed s (fst (Update env s i cand pt))"
  unfolding Update_def Let_def
  by (simp split: sum.splits option.splits prod.splits add: framing)

lemma framed_Delete [framing]: "framed s (fst (Delete env s i cand))"
  unfolding Delete_def Let_def
  by (auto split: sum.splits option.splits prod.splits intro: framing)

lemma framed_AdminDelete [framing]: "framed s (fst (AdminDelete env s i))"
  unfolding AdminDelete_def Let_def
  by (auto split: option.splits prod.splits intro: framing)

lemma framed_StageFile [framing]: "framed s (fst (StageFile env k sufs source s))"
  by (auto simp: StageFile_def split: option.splits prod.splits intro: framing)

lemma framed_uncommitted: "sv_store s = Some fs' \<Longrightarrow> framed s (fst (uncommitted env s st fs e))"
  by (auto simp: uncommitted_def split: prod.splits intro: framing)

lemma framed_create_file: "sv_store s = Some fs \<Longrightarrow> framed s (fst (create_file env s fs filename st ex))"
  unfolding create_file_def Let_def
  by (auto split: sum.splits option.splits prod.splits intro: framing framed_uncommitted)

lemma framed_CreateFile [framing]: "framed s (fst (CreateFile env s filename st ex))"
  using framed_create_file [of s _ env filename _ ex]
  by (auto simp: CreateFile_def framed_refl split: option.splits prod.splits) (metis fst_conv)

section \<open>The public API\<close>

lemma framed_abort_staged [framing]: "framed s (abort_staged he st s)"
  by (auto simp: abort_staged_def split: option.splits prod.splits intro: framing)

lemma framed_read_part [framing]: "framed s (fst (read_part he h p s u))"
  using framed_StageFile [of s "he_env he 1" "he_key_rnd he" "he_sufs he" "pt_source p"]
  by (auto simp: read_part_def Let_def framed_refl split: option.splits prod.splits sum.splits)

lemma framed_read_parts [framing]: "framed s (fst (read_parts he h es s u))"
proof (induction he h es s u rule: read_parts.induct)
  case (3 he h p ps s u)
  with framed_read_part [of s he h p u] show ?case
    by (auto split: prod.splits sum.splits intro: framed_trans)
qed (simp_all add: framing)

lemma framed_createJSON [framing]: "framed s (fst (createJSON opts he h r s))"
proof -
  have c: "framed s s1" if "Create env s t ex = (s1, x)" for env t ex s1 x
    using framed_Create [of s env t ex] that by simp
  have e: "framed s s1" if "CreateEncrypted env s t ex = (s1, x)" for env t ex s1 x
    using framed_CreateEncrypted [of s env t ex] that by simp
  show ?thesis
    unfolding createJSON_def Let_def
    by (auto simp: framed_refl dest: c e split: sum.splits option.splits prod.splits payload_kind.splits privacy_mode.splits
        member.splits)
qed

lemma framed_upload_file [framing]: "framed s (fst (upload_file opts he h r s))"
proof -
  have parts: "framed s s1" if "read_parts he h es s no_upload = (s1, x)" for es s1 x
    using framed_read_parts [of s he h es no_upload] that by simp
  have fin: "framed s1 s2" if "CreateFile env s1 n st ex = (s2, x)" for env s1 n st ex s2 x
    using framed_CreateFile [of s1 env n st ex] that by simp
  show ?thesis
    unfolding upload_file_def
    by (auto simp: framed_refl dest!: parts fin split: option.splits prod.splits sum.splits
        intro: framed_trans framed_abort_staged)
qed

lemma framed_api_patch [framing]: "framed s (fst (api_patch opts he h r i s))"
  using framed_Update
  by (fastforce simp: api_patch_def framed_refl split: option.splits prod.splits sum.splits dest: arg_cong [where f = fst])

lemma framed_api_delete [framing]: "framed s (fst (api_delete he h r i s))"
  using framed_Delete
  by (fastforce simp: api_delete_def framed_refl split: option.splits prod.splits sum.splits dest: arg_cong [where f = fst])

lemma allow_same_shares: "as_shares (fst (allow lib env r k st)) = as_shares st"
  by (simp add: allow_def split: prod.splits)

lemma framed_serve_api [framing]: "framed (as_shares st) (as_shares (fst (serve_api lib opts he r st)))"
proof -
  have al: "as_shares st1 = as_shares st" if "allow lib env r k st = (st1, b)" for env k st1 b and st :: "'a api_state"
    using allow_same_shares [of lib env r k st] that by simp
  have up: "framed (as_shares st) s1" if "upload_file opts he h r (as_shares st) = (s1, x)" for h s1 x and st :: "'a api_state"
    using framed_upload_file [of "as_shares st" opts he h r] that by simp
  have js: "framed (as_shares st) s1" if "createJSON opts he h r (as_shares st) = (s1, x)" for h s1 x and st :: "'a api_state"
    using framed_createJSON [of "as_shares st" opts he h r] that by simp
  have cf: "framed (as_shares st) (as_shares (fst (createFile opts he h r st)))" for h and st :: "'a api_state"
    by (auto simp: createFile_def framed_refl split: prod.splits bool.splits dest: up)
  have cr: "framed (as_shares st) (as_shares (fst (api_create lib opts he h r st)))" for h and st :: "'a api_state"
    by (auto simp: api_create_def Let_def framed_refl cf split: option.splits prod.splits list.splits dest: js)
  have co: "framed (as_shares st) (as_shares (fst (collection lib opts he h r st)))" for h
    using cr by (auto simp: collection_def framed_refl split: prod.splits bool.splits dest: al) (metis al)
  have it: "framed (as_shares st) (as_shares (fst (item lib opts he h r st)))" for h
    using framed_api_patch framed_api_delete
    by (auto simp: item_def on_shares_def Let_def framed_refl split: prod.splits bool.splits sum.splits dest: al)
       (metis al fst_conv)+
  have ra: "framed (as_shares st) (as_shares (fst (raw lib he h r st)))" for h
    by (auto simp: raw_def Let_def framed_refl split: prod.splits bool.splits sum.splits dest: al)
  show ?thesis
    by (auto simp: serve_api_def route_def co it ra framed_refl)
qed

end
