(* ===== verification/Integrity.thy ===== *)
theory Integrity
  imports ShareFrame HttpShares
begin

text \<open>
  The bytes behind a File Share: the object at its key has the size and the digest its row records,
  from the upload on and whatever else happens.
\<close>

section \<open>Intact objects\<close>

definition object_at :: "service \<Rightarrow> string \<Rightarrow> (bytes \<times> time) option" where
  "object_at s k = (case sv_store s of None \<Rightarrow> None | Some fs \<Rightarrow> store_object fs k)"

definition intact :: "(bytes \<Rightarrow> bytes) \<Rightarrow> service \<Rightarrow> bool" where
  "intact sha s \<longleftrightarrow>
     (\<forall>f\<in>set (files (sv_db s)). \<exists>b t. object_at s (f_key f) = Some (b, t) \<and> f_size f = int (length b) \<and> f_sha f = sha b)"

text \<open>The files that are left were there before, with the same objects.\<close>

definition kept :: "service \<Rightarrow> service \<Rightarrow> bool" where
  "kept s s' \<longleftrightarrow>
     (\<forall>f\<in>set (files (sv_db s')). f \<in> set (files (sv_db s)) \<and> object_at s' (f_key f) = object_at s (f_key f))"

lemma kept_refl [simp]: "kept s s"
  by (simp add: kept_def)

lemma kept_trans: "kept s s1 \<Longrightarrow> kept s1 s' \<Longrightarrow> kept s s'"
  by (auto simp: kept_def)

lemma intact_kept: "kept s s' \<Longrightarrow> intact sha s \<Longrightarrow> intact sha s'"
  by (simp add: kept_def intact_def)

lemma kept_objects: "sv_store s = Some fs \<Longrightarrow> kept s (s\<lparr>sv_db := d', sv_store := Some fs'\<rparr>) \<longleftrightarrow> objects_kept (sv_db s) fs d' fs'"
  by (simp add: kept_def objects_kept_def object_at_def)

lemma kept_files: "files (sv_db s') = files (sv_db s) \<Longrightarrow> sv_store s' = sv_store s \<Longrightarrow> kept s s'"
  by (simp add: kept_def object_at_def)

section \<open>The share service\<close>

text \<open>Calls about texts touch neither files nor objects.\<close>

lemma texts_only:
  "files (sv_db (fst (Create env s t ex))) = files (sv_db s) \<and> sv_store (fst (Create env s t ex)) = sv_store s"
  "files (sv_db (fst (CreateEncrypted env s e ex))) = files (sv_db s) \<and> sv_store (fst (CreateEncrypted env s e ex)) = sv_store s"
  "files (sv_db (fst (Update env s i c pt))) = files (sv_db s) \<and> sv_store (fst (Update env s i c pt)) = sv_store s"
proof -
  show "files (sv_db (fst (Create env s t ex))) = files (sv_db s) \<and> sv_store (fst (Create env s t ex)) = sv_store s"
    using create_files [of env s PrivacyStandard "Some t" None ex]
    by (cases "create env s PrivacyStandard (Some t) None ex") (auto simp: Create_def split: option.splits)
  show "files (sv_db (fst (CreateEncrypted env s e ex))) = files (sv_db s) \<and> sv_store (fst (CreateEncrypted env s e ex)) = sv_store s"
    using create_files [of env s PrivacyEncrypted None "Some e" ex]
    by (cases "create env s PrivacyEncrypted None (Some e) ex") (auto simp: CreateEncrypted_def split: option.splits)
  obtain s' r where u: "Update env s i c pt = (s', r)" by fastforce
  show "files (sv_db (fst (Update env s i c pt))) = files (sv_db s) \<and> sv_store (fst (Update env s i c pt)) = sv_store s"
  proof (cases r)
    case (Inl e)
    with u show ?thesis by (auto dest: Update_Inl)
  next
    case (Inr v)
    with u obtain a d1 x where "update_payload env (sv_db s) i a pt = Inr d1"
      "s' = s\<lparr>sv_db := fst (update_share_times (id_string i) (unix_milli (serverNow env)) x d1)\<rparr>"
      by (auto elim: Update_Inr)
    with u show ?thesis by (auto simp: update_share_times_def dest: update_payload_files)
  qed
qed

lemma kept_texts:
  "kept s (fst (Create env s t ex))" "kept s (fst (CreateEncrypted env s e ex))" "kept s (fst (Update env s i c pt))"
  by (rule kept_files; simp add: texts_only)+

lemmas kept_Create = kept_texts(1) and kept_CreateEncrypted = kept_texts(2) and kept_Update = kept_texts(3)

text \<open>Deleting a Share leaves the files of the others, at other keys.\<close>

lemma kept_delete:
  assumes sch: "schema_ok (sv_db s)" and r: "row_of r_id i (shares (sv_db s)) \<noteq> None"
    and d: "sv_db s' = fst (delete_share i (sv_db s))"
    and st: "sv_store s' = sv_store s \<or> (\<exists>fs g io. sv_store s = Some fs \<and> row_of f_share i (files (sv_db s)) = Some g
      \<and> sv_store s' = Some (fst (store_delete io fs (f_key g))))"
  shows "kept s s'"
proof -
  have "f \<in> set (files (sv_db s)) \<and> object_at s' (f_key f) = object_at s (f_key f)"
    if f: "f \<in> set (files (sv_db s'))" for f
  proof -
    have f0: "f \<in> set (files (fst (delete_share i (sv_db s))))" using f d by simp
    then have "f \<in> set (files (sv_db s))" using delete_share_frame by blast
    moreover have "object_at s' (f_key f) = object_at s (f_key f)"
      using st
    proof (elim disjE exE conjE)
      fix fs g io
      assume g: "sv_store s = Some fs" "row_of f_share i (files (sv_db s)) = Some g"
        "sv_store s' = Some (fst (store_delete io fs (f_key g)))"
      have "f_key f \<noteq> f_key g"
        using delete_share_present [OF sch r f0, of g] row_of_SomeD [OF g(2)] by simp
      with g show ?thesis by (simp add: object_at_def store_delete_content)
    qed (simp add: object_at_def)
    ultimately show ?thesis ..
  qed
  then show ?thesis by (simp add: kept_def)
qed

lemma kept_Delete:
  assumes "service_ok s"
  shows "kept s (fst (Delete env s i c))"
proof (cases "Delete env s i c")
  case (Pair s' r)
  then show ?thesis
  proof (cases rule: Delete_cases)
    case (deleted a fs' key)
    from deleted(1) obtain r0 where r0: "row_of r_id (id_string i) (shares (sv_db s)) = Some r0"
      by (rule loadAuthorization_Inr)
    have "kept s s'"
    proof (rule kept_delete [of s "id_string i"])
      show "sv_store s' = sv_store s \<or> (\<exists>fs g io. sv_store s = Some fs \<and> row_of f_share (id_string i) (files (sv_db s)) = Some g
          \<and> sv_store s' = Some (fst (store_delete io fs (f_key g))))"
        using deleted(3,5,6) by (cases "sv_store s") (auto split: if_splits)
    qed (use deleted(3) r0 service_okD(1) [OF assms] db_ok_schema in auto)
    with Pair show ?thesis by simp
  next
    case refused
    with Pair show ?thesis by simp
  qed
qed

lemma kept_AdminDelete:
  assumes "service_ok s"
  shows "kept s (fst (AdminDelete env s i))"
proof (cases "AdminDelete env s i")
  case (Pair s' r)
  then show ?thesis
  proof (cases rule: AdminDelete_cases)
    case (deleted r0)
    have "kept s s'"
      by (rule kept_delete [of s "id_string i"])
         (use deleted(1,2,5) service_okD(1) [OF assms] db_ok_schema in auto)
    with Pair show ?thesis by simp
  next
    case refused
    with Pair show ?thesis by simp
  qed
qed

lemma kept_StageFile: "kept s (fst (StageFile env k sufs source s))"
proof (cases "sv_store s")
  case (Some fs)
  have "store_object (fst (Stage (ev_io env 0) (ev_now env) (ev_sha env) k sufs source MaxFileBytes fs)) x
      = store_object fs x" for x by (rule Stage_content)
  with Some show ?thesis by (auto simp: StageFile_def kept_def object_at_def split: prod.splits)
qed (simp add: StageFile_def)

lemma kept_abort:
  assumes "\<forall>st. x = Some st \<longrightarrow> st_temp st = [] \<or> (\<exists>y. st_temp st = ''.stage-'' @ y)"
  shows "kept s (abort_staged he x s)"
proof (cases "\<exists>st fs. x = Some st \<and> sv_store s = Some fs")
  case True
  then obtain st fs where x: "x = Some st" "sv_store s = Some fs" by blast
  have "store_object (fst (snd (Abort (ev_io (he_env he 3) 0) st fs))) k = store_object fs k" for k
    using Abort_content [of st "ev_io (he_env he 3) 0" fs k] assms x by simp
  with x show ?thesis by (auto simp: abort_staged_def kept_def object_at_def split: prod.splits)
qed (auto simp: abort_staged_def split: option.splits)

text \<open>A failed \<open>CreateFile\<close> touches its own key only; a successful one moves the staged bytes there and
  records their size and digest.\<close>

definition file_added :: "env \<Rightarrow> string \<Rightarrow> staged \<Rightarrow> service \<Rightarrow> service \<Rightarrow> bool" where
  "file_added env filename st s s' \<longleftrightarrow>
     (\<exists>i fs body t. sv_store s = Some fs \<and> lstat fs (st_temp st) = Some (Regular body t)
        \<and> files (sv_db s') = files (sv_db s) @ [file_payload env i filename st]
        \<and> (\<forall>f\<in>set (files (sv_db s)). object_at s' (f_key f) = object_at s (f_key f))
        \<and> object_at s' (st_key st) = Some (body, t))"

lemma create_file_objects:
  assumes store: "sv_store s = Some fs" and st: "staged_ok sha limit st fs"
    and fresh: "st_key st \<notin> keys_of f_key (files (sv_db s))"
    and c: "create_file env s fs filename st ex = (s', st', r)"
  shows "kept s s' \<or> file_added env filename st s s'"
proof -
  note temp = staged_ok_temp [OF st]
  have own: "f_key f \<noteq> st_key st" if "f \<in> set (files (sv_db s))" for f
    using fresh that by (auto simp: in_keys_of)
  from c show ?thesis
  proof (cases rule: create_file_cases)
    case (early e)
    then have "kept s s'" using store Abort_content [OF temp] by (simp add: kept_def object_at_def)
    then show ?thesis ..
  next
    case (failed st1 fs1 e)
    have k1: "st_key st1 = st_key st" and t1: "st_temp st1 = [] \<or> (\<exists>x. st_temp st1 = ''.stage-'' @ x)"
      using failed(2) Commit_keeps [of "ev_io env 0" st fs] temp by auto
    have c1: "store_object fs1 k = store_object fs k" if "k \<noteq> st_key st" for k
      using failed(2) Commit_content [OF temp that, of "ev_io env 0" fs] by auto
    obtain fs2 x where d: "store_delete (ev_io env 1) fs1 (st_key st1) = (fs2, x)" by fastforce
    have "s' = s\<lparr>sv_store := Some (fst (snd (Abort (ev_io env 2) st1 fs2)))\<rparr>"
      using failed(1) d by (auto simp: uncommitted_def split: prod.splits)
    moreover have "store_object (fst (snd (Abort (ev_io env 2) st1 fs2))) k = store_object fs k" if "k \<noteq> st_key st" for k
      using Abort_content [OF t1] store_delete_content [of k "st_key st1" "ev_io env 1" fs1] d c1 [OF that] that k1 by simp
    ultimately have "kept s s'" using store own by (auto simp: kept_def object_at_def)
    then show ?thesis ..
  next
    case (made x i tok d1 d2 st1 fs1)
    have files: "files d2 = files (sv_db s) @ [file_payload env i filename st]"
      using made(4,6) by (auto simp: insert_share_def insert_file_def split: if_splits)
    note cs = Commit_success [OF made(5) st]
    have ab: "fst (snd (Abort (ev_io env 2) st1 fs1)) = fs1" using cs(2) by (simp add: Abort_fs)
    have old: "object_at s' k = object_at s k" if "k \<noteq> st_key st" for k
      using Commit_content [OF temp that, of "ev_io env 0" fs] made(5,8) store ab by (simp add: object_at_def)
    obtain body t where body: "lstat fs (st_temp st) = Some (Regular body t)" using st by (auto simp: staged_ok_def)
    have "validKey (st_key st)" using st by (simp add: staged_ok_def)
    then obtain rel where rel: "relative (st_key st) = Inr rel" by (auto simp: relative_def)
    have "object_at s' (st_key st) = Some (body, t)"
      using cs(6) [OF rel] rel body made(8) ab by (simp add: object_at_def store_object_def)
    with store body files old own made(8) have "file_added env filename st s s'" by (auto simp: file_added_def)
    then show ?thesis ..
  qed
qed

lemma intact_create_file:
  assumes ok: "intact (ev_sha env) s" and store: "sv_store s = Some fs"
    and st: "staged_ok (ev_sha env) MaxFileBytes st fs" and fresh: "st_key st \<notin> keys_of f_key (files (sv_db s))"
    and c: "create_file env s fs filename st ex = (s', st', r)"
  shows "intact (ev_sha env) s'"
  using create_file_objects [OF store st fresh c]
proof
  assume "file_added env filename st s s'"
  then obtain i body t where a: "lstat fs (st_temp st) = Some (Regular body t)"
    "files (sv_db s') = files (sv_db s) @ [file_payload env i filename st]"
    "\<And>f. f \<in> set (files (sv_db s)) \<Longrightarrow> object_at s' (f_key f) = object_at s (f_key f)"
    "object_at s' (st_key st) = Some (body, t)" by (auto simp: file_added_def store)
  have new: "st_size st = length body" "st_digest st = ev_sha env body" using st a(1) by (auto simp: staged_ok_def)
  show ?thesis
    unfolding intact_def
  proof
    fix f assume "f \<in> set (files (sv_db s'))"
    then have "f \<in> set (files (sv_db s)) \<or> f = file_payload env i filename st" using a(2) by auto
    then show "\<exists>b t. object_at s' (f_key f) = Some (b, t) \<and> f_size f = int (length b) \<and> f_sha f = ev_sha env b"
      using ok a(3,4) new by (auto simp: intact_def file_payload_def)
  qed
qed (rule intact_kept [OF _ ok])

section \<open>Requests\<close>

lemma kept_read_parts: "kept s (fst (read_parts he h es s u))"
proof (induction he h es s u rule: read_parts.induct)
  case (3 he h p ps s u)
  have "kept s (fst (read_part he h p s u))"
    using kept_StageFile [of s "he_env he 1" "he_key_rnd he" "he_sufs he" "pt_source p"]
    by (auto simp: read_part_def Let_def split: option.splits prod.splits sum.splits)
  with 3 show ?case by (auto split: prod.splits sum.splits intro: kept_trans)
qed simp_all

lemma intact_CreateFile:
  assumes "he_ok he" "staged_sound he s st" "service_ok s" "key_free he s" "intact (sha_of he) s"
    and c: "CreateFile (he_env he 2) s name (Some st) ex = (s', st2, x)"
  shows "intact (sha_of he) s'"
proof -
  obtain fs k where fs: "sv_store s = Some fs" "staged_ok (sha_of he) MaxFileBytes st fs"
    "he_key_rnd he = Some k" "st_key st = hex_encode k" using assms(2) by (auto simp: staged_sound_def)
  note sha = he_ok_env [OF assms(1), of 2]
  from c fs(1) obtain st3 where "create_file (he_env he 2) s fs name st ex = (s', st3, x)"
    by (auto simp: CreateFile_def split: prod.splits)
  from intact_create_file [OF _ fs(1) _ _ this] assms(4,5) fs(2-4) sha show ?thesis
    by (simp add: key_free_def)
qed

lemma intact_upload_file:
  assumes ok: "he_ok he" "service_ok s" "key_free he s" "intact (sha_of he) s"
  shows "intact (sha_of he) (fst (upload_file opts he h r s))"
proof -
  have parts: "intact (sha_of he) s1 \<and> upload_inv he s s1 u1"
    if "read_parts he h es s no_upload = (s1, u1, x)" for es s1 u1 x
    using read_parts_inv [OF ok(1) upload_inv_start [OF ok(2)] that] intact_kept [OF kept_read_parts ok(4), of he h es no_upload]
      that by simp
  have drop: "intact (sha_of he) (abort_staged he (up_staged u1) s1)"
    if "intact (sha_of he) s1 \<and> upload_inv he s s1 u1" for s1 u1
  proof -
    have "\<forall>st. up_staged u1 = Some st \<longrightarrow> st_temp st = [] \<or> (\<exists>y. st_temp st = ''.stage-'' @ y)"
      using that sound_temp unfolding upload_inv_def by blast
    from intact_kept [OF kept_abort [OF this]] that show ?thesis by blast
  qed
  have made: "intact (sha_of he) s2 \<and> (\<forall>e. z = Inl e \<longrightarrow> intact (sha_of he) (abort_staged he st2 s2))"
    if i: "intact (sha_of he) s1 \<and> upload_inv he s s1 u1" and st: "up_staged u1 = Some st"
      and c: "CreateFile (he_env he 2) s1 name (Some st) ex = (s2, st2, z)" for s1 u1 st name ex s2 st2 z
  proof -
    have s1: "tables_kept s s1" "service_ok s1" "staged_sound he s1 st" using i st by (auto simp: upload_inv_def)
    have s2: "intact (sha_of he) s2"
      by (rule intact_CreateFile [OF ok(1) s1(3,2) tables_kept_key_free [OF s1(1) ok(3)] _ c]) (use i in simp)
    moreover have "intact (sha_of he) (abort_staged he st2 s2)" if "z = Inl e" for e
      using CreateFile_error [OF s1(3) c [unfolded that]] by (intro intact_kept [OF kept_abort s2]) auto
    ultimately show ?thesis by blast
  qed
  show ?thesis
  proof (cases "fst (upload_file opts he h r s) = s")
    case False
    then obtain es s1 u1 x where p: "read_parts he h es s no_upload = (s1, u1, x)" "hr_parts r = Some es"
      "\<not> (he_read_deadline he \<or> he_write_deadline he)" "\<not> hr_length r > int maxFileWireBytes"
      by (auto simp: upload_file_def split: if_splits option.splits) (metis prod_cases3)
    note i = parts [OF p(1)]
    show ?thesis
    proof (cases "fst (upload_file opts he h r s) = abort_staged he (up_staged u1) s1")
      case True
      with drop [OF i] show ?thesis by simp
    next
      case False
      with p obtain m st ex where st: "x = None" "up_metadata u1 = Some m" "up_staged u1 = Some st" "file_checks h m = Inr ex"
        by (auto simp: upload_file_def split: if_splits option.splits sum.splits)
      obtain s2 st2 z where c: "CreateFile (he_env he 2) s1 (up_filename u1) (Some st) ex = (s2, st2, z)"
        by (metis prod_cases3)
      from made [OF i st(3) c] p st c show ?thesis
        by (cases z) (auto simp: upload_file_def split: prod.splits)
    qed
  qed (simp add: ok(4))
qed

lemma kept_createJSON: "kept s (fst (createJSON opts he h r s))"
proof -
  have c: "kept s s1" if "Create env s t ex = (s1, x)" for env t ex s1 x
    using kept_Create [of s env t ex] that by simp
  have e: "kept s s1" if "CreateEncrypted env s t ex = (s1, x)" for env t ex s1 x
    using kept_CreateEncrypted [of s env t ex] that by simp
  show ?thesis
    unfolding createJSON_def Let_def
    by (auto dest: c e split: sum.splits option.splits prod.splits payload_kind.splits privacy_mode.splits member.splits)
qed

lemma kept_api_patch: "kept s (fst (api_patch opts he h r i s))"
  using kept_Update
  by (fastforce simp: api_patch_def split: option.splits prod.splits sum.splits dest: arg_cong [where f = fst])

lemma kept_api_delete: "service_ok s \<Longrightarrow> kept s (fst (api_delete he h r i s))"
  using kept_Delete
  by (fastforce simp: api_delete_def split: option.splits prod.splits sum.splits dest: arg_cong [where f = fst])

lemma intact_serve_api:
  assumes ok: "he_ok he" "service_ok (as_shares st)" "key_free he (as_shares st)" "intact (sha_of he) (as_shares st)"
  shows "intact (sha_of he) (as_shares (fst (serve_api lib opts he r st)))"
proof -
  let ?ok = "\<lambda>st :: 'a api_state. service_ok (as_shares st) \<and> key_free he (as_shares st) \<and> intact (sha_of he) (as_shares st)"
  let ?good = "\<lambda>st. intact (sha_of he) (as_shares st)"
  have al: "as_shares st1 = as_shares st" if "allow lib env r k st = (st1, b)" for env k st1 b and st :: "'a api_state"
    using allow_same_shares [of lib env r k st] that by simp
  have cf: "?good (fst (createFile opts he h r st))" if "?ok st" for h and st :: "'a api_state"
  proof -
    obtain s1 x where "upload_file opts he h r (as_shares st) = (s1, x)" by fastforce
    then show ?thesis
      using intact_upload_file [OF ok(1), of "as_shares st" opts h r] that
      by (auto simp: createFile_def split: prod.splits bool.splits)
  qed
  have js: "intact (sha_of he) s1" if "?ok st" "createJSON opts he h r (as_shares st) = (s1, x)" for h s1 x and st :: "'a api_state"
    using intact_kept [OF kept_createJSON] that by (metis fst_conv)
  have cr: "?good (fst (api_create lib opts he h r st))" if "?ok st" for h and st :: "'a api_state"
    using that cf [OF that] by (auto simp: api_create_def Let_def split: option.splits prod.splits list.splits dest: js [OF that])
  have okal: "?ok st1" if "allow lib env r k st = (st1, b)" for env k st1 b
    using al [OF that] ok by simp
  have co: "?good (fst (collection lib opts he h r st))" for h
    using cr ok by (auto simp: collection_def split: prod.splits bool.splits dest: okal)
  have it: "?good (fst (item lib opts he h r st))" for h
  proof -
    obtain st1 b where a: "allow lib (he_env he 0) r (if hr_method r = ''GET'' then ReadKind else MutationKind) st = (st1, b)"
      by fastforce
    have "?good st1" using okal [OF a] by simp
    moreover have "intact (sha_of he) (fst (api_patch opts he h r i (as_shares st1)))"
      "intact (sha_of he) (fst (api_delete he h r i (as_shares st1)))" for i
      using okal [OF a] intact_kept [OF kept_api_patch] intact_kept [OF kept_api_delete] by blast+
    ultimately show ?thesis
      using a ok by (cases b) (auto simp: item_def on_shares_def Let_def case_prod_beta split: sum.splits)
  qed
  have ra: "?good (fst (raw lib he h r st))" for h
    using ok by (auto simp: raw_def Let_def split: prod.splits bool.splits sum.splits dest: al)
  show ?thesis
    using ok by (auto simp: serve_api_def route_def co it ra)
qed

end
