(* ===== verification/AdminApiLaws.thy ===== *)
theory AdminApiLaws
  imports AdminApi Integrity
begin

text \<open>
  What the handlers of \<open>internal/adminapi\<close> need before they do anything, and what they can do to the
  Shares: keep them or remove them.
\<close>

section \<open>Authentication\<close>

definition admitted :: "http_env \<Rightarrow> http_request \<Rightarrow> 'l manager \<Rightarrow> session \<Rightarrow> bool" where
  "admitted he r m s \<longleftrightarrow>
     (\<exists>cookie. request_cookie SessionCookieName r = Some cookie \<and> snd (Lookup (sha_of he) (ev_now (he_env he 0)) cookie m) = Some s)"

lemma Lookup_Some_row:
  assumes "Lookup sha now cookie m = (m1, Some s)"
  shows "m1 = sweepLocked now m \<and> (\<exists>x. row_of sr_key (sha cookie) (mg_sessions m1) = Some x \<and> CSRFToken s = sr_csrf x)"
  using assms by (auto simp: Lookup_def Let_def split: option.splits if_splits)

lemma authenticate_Inr:
  assumes a: "authenticate he h r csrf m = (m1, Inr (s, cookie))" and he: "he_ok he" and ok: "manager_ok m"
  shows "admitted he r m s \<and> (csrf \<longrightarrow> hdr_values CSRFHeaderName (hr_headers r) = [CSRFToken s])"
proof -
  have sha: "ev_sha (he_env he 0) = sha_of he" "ev_sha (he_env he 1) = sha_of he" using he_ok_env [OF he] by auto
  from a obtain m0 where c: "request_cookie SessionCookieName r = Some cookie"
    "Lookup (sha_of he) (ev_now (he_env he 0)) cookie m = (m0, Some s)"
    by (auto simp: authenticate_def sha Let_def split: option.splits if_splits prod.splits list.splits)
  have "hdr_values CSRFHeaderName (hr_headers r) = [CSRFToken s]" if csrf
  proof -
    from a c that obtain v where v: "hdr_values CSRFHeaderName (hr_headers r) = [v]"
      "snd (CSRFMatches (sha_of he) (ev_now (he_env he 1)) cookie v m0)"
      by (auto simp: authenticate_def sha [simplified] Let_def split: option.splits if_splits prod.splits list.splits)
    from Lookup_Some_row [OF c(2)] obtain x where x: "m0 = sweepLocked (ev_now (he_env he 0)) m"
      "row_of sr_key (sha_of he cookie) (mg_sessions m0) = Some x" "CSRFToken s = sr_csrf x" by blast
    have ok0: "manager_ok m0" unfolding x(1) by (rule sweepLocked_ok [OF ok])
    from v(2) x(2) have "v = sr_csrf x"
      by (auto simp: CSRFMatches_def Let_def sweepLocked_row [OF ok0] split: option.splits if_splits)
    with v(1) x(3) show ?thesis by simp
  qed
  with c show ?thesis by (auto simp: admitted_def)
qed

lemma authenticate_Inl:
  "authenticate he h r csrf m = (m1, Inl resp) \<Longrightarrow> rs_status resp \<in> {401, 403}"
  by (auto simp: authenticate_def admin_unauthorized_def Let_def
      split: option.splits if_splits prod.splits list.splits)

lemma authenticate_ok:
  assumes "manager_ok m"
  shows "manager_ok (fst (authenticate he h r csrf m))"
proof -
  have l: "manager_ok m1" if "Lookup sha now cookie m = (m1, x)" for sha now cookie m1 x
    using manager_ok_others(1) [OF assms, of sha now cookie] that by simp
  have c: "manager_ok m2" if "manager_ok m1" "CSRFMatches sha now cookie v m1 = (m2, b)" for sha now cookie v m1 m2 b
    using manager_ok_others(2) [OF that(1), of sha now cookie v] that(2) by simp
  show ?thesis
    by (auto simp: authenticate_def Let_def assms split: option.splits prod.splits list.splits dest: l c)
qed

lemma guarded_cases:
  assumes "guarded he h r csrf st body = (st', resp)"
  obtains (refused) m1 where "st' = st\<lparr>ad_manager := m1\<rparr>" "rs_status resp \<in> {401, 403}"
      "m1 = fst (authenticate he h r csrf (ad_manager st))"
  | (passed) m1 s cookie where "authenticate he h r csrf (ad_manager st) = (m1, Inr (s, cookie))"
      "body s cookie (st\<lparr>ad_manager := m1\<rparr>) = (st', resp)"
  using assms
  by (cases "authenticate he h r csrf (ad_manager st)"; cases "snd (authenticate he h r csrf (ad_manager st))")
     (auto simp: guarded_def dest: authenticate_Inl)

section \<open>What a handler may do\<close>

text \<open>Some Shares are gone, the others as they were.\<close>

definition removed :: "store_map \<Rightarrow> store_map \<Rightarrow> bool" where
  "removed m m' \<longleftrightarrow> (\<forall>i. m' i = m i \<or> m' i = None)"

lemma removed_refl [simp]: "removed m m"
  by (simp add: removed_def)

lemma removed_trans: "removed a b \<Longrightarrow> removed b c \<Longrightarrow> removed a c"
  unfolding removed_def by metis

definition service_shrinks :: "service \<Rightarrow> service \<Rightarrow> bool" where
  "service_shrinks s s' \<longleftrightarrow> framed s s' \<and>
     (service_ok s \<longrightarrow> service_ok s' \<and> removed (abs_db (sv_db s)) (abs_db (sv_db s')) \<and> (retention_ok s \<longrightarrow> retention_ok s')
       \<and> kept s s')"

lemma service_shrinks_refl [simp]: "service_shrinks s s"
  by (simp add: service_shrinks_def framed_refl)

lemma service_shrinks_trans: "service_shrinks a b \<Longrightarrow> service_shrinks b c \<Longrightarrow> service_shrinks a c"
  by (auto simp: service_shrinks_def intro: removed_trans framed_trans kept_trans)

lemma AdminDelete_shrinks: "AdminDelete env s i = (s', e) \<Longrightarrow> service_shrinks s s'"
proof -
  assume d: "AdminDelete env s i = (s', e)"
  have "removed (abs_db (sv_db s)) (abs_db (sv_db s'))" if "service_ok s"
    using d
  proof (cases rule: AdminDelete_cases)
    case (deleted row)
    then show ?thesis
      using abs_delete_share [OF db_ok_schema [OF service_okD(1) [OF that]]] by (auto simp: removed_def)
  qed simp
  then show ?thesis
    using d service_ok_AdminDelete [of s env i] retention_AdminDelete [of s env i] framed_AdminDelete [of s env i]
      kept_AdminDelete [of s env i]
    by (simp add: service_shrinks_def)
qed

lemma delete_ids_shrinks: "delete_ids envs is s = (s', n, failed) \<Longrightarrow> service_shrinks s s'"
proof (induction "is" arbitrary: envs s n failed)
  case (Cons i "is")
  obtain s1 x where d: "AdminDelete (envs 0) s i = (s1, x)" by fastforce
  obtain s2 k f where r: "delete_ids (\<lambda>n. envs (Suc n)) is s1 = (s2, k, f)" by (metis prod_cases3)
  have "s' = s2" using Cons.prems d r by (auto split: option.splits)
  with r have "delete_ids (\<lambda>n. envs (Suc n)) is s1 = (s', k, f)" by simp
  from service_shrinks_trans [OF AdminDelete_shrinks [OF d] Cons.IH [OF this]] show ?case .
qed simp

text \<open>Whether a row is within the retention limit can be read off the stored Share.\<close>

lemma bounded_row_abs:
  "bounded_row policy r \<longleftrightarrow> (\<exists>e. ExpiresAt (abs_share d r) = Some e \<and> e \<le> CreatedAt (abs_share d r) + MaxTTL policy)"
  by (auto simp: bounded_row_def abs_share_def expirationTime_def split: option.splits)

lemma removed_retention:
  assumes ok: "retention_ok s" and d: "schema_ok (sv_db s')" "removed (abs_db (sv_db s)) (abs_db (sv_db s'))"
    and p: "sv_retention s' = sv_retention s"
  shows "retention_ok s'"
proof (rule retention_keep [OF ok p])
  fix r assume r: "r \<in> set (shares (sv_db s'))" and pub: "Public (sv_retention s)" "policy_ok (sv_retention s)"
  have "distinct (map r_id (shares (sv_db s')))" using d(1) by (simp add: schema_ok_def)
  from row_of_distinct [OF this] r have "row_of r_id (r_id r) (shares (sv_db s')) = Some r" by simp
  then have "abs_db (sv_db s') (r_id r) = Some (abs_share (sv_db s') r, r_verifier r)" by (simp add: abs_db_def)
  with d(2) have "abs_db (sv_db s) (r_id r) = Some (abs_share (sv_db s') r, r_verifier r)"
    by (auto simp: removed_def) (metis option.distinct(1))
  then obtain r0 where r0: "row_of r_id (r_id r) (shares (sv_db s)) = Some r0" "abs_share (sv_db s) r0 = abs_share (sv_db s') r"
    by (auto simp: abs_db_def)
  have "bounded_row (sv_retention s) r0"
    using ok pub(1) row_of_SomeD [OF r0(1)] by (auto simp: retention_ok_def)
  then have "bounded_row (sv_retention s) r"
    using bounded_row_abs [of _ r0 "sv_db s"] bounded_row_abs [of _ r "sv_db s'"] r0(2) by simp
  then show "r \<in> set (shares (sv_db s)) \<or> bounded_row (sv_retention s) r" ..
qed

lemma RunOnce_shrinks:
  assumes run: "RunOnce envs now (sv_db s) fs = (d', fs', res, e)" and fs: "sv_store s = Some fs"
  shows "service_shrinks s (s\<lparr>sv_db := d', sv_store := Some fs'\<rparr>)"
proof -
  let ?s = "s\<lparr>sv_db := d', sv_store := Some fs'\<rparr>"
  have "service_ok ?s \<and> removed (abs_db (sv_db s)) (abs_db d') \<and> (retention_ok s \<longrightarrow> retention_ok ?s) \<and> kept s ?s"
    if ok: "service_ok s"
  proof -
    have o: "objects_ok (sv_db s) (Some fs)" using service_okD(2) [OF ok] fs by simp
    note safe = RunOnce_safe [OF run service_okD(1) [OF ok] o]
    then have "service_ok ?s" "removed (abs_db (sv_db s)) (abs_db d')"
      by (auto simp: service_ok_def removed_def purged_def)
    moreover have "kept s ?s" using RunOnce_kept [OF run service_okD(1) [OF ok]] kept_objects [OF fs] by simp
    ultimately show ?thesis using removed_retention [of s ?s] safe by (auto dest: db_ok_schema)
  qed
  then show ?thesis using fs by (simp add: service_shrinks_def framed_updates)
qed

lemma Cleanup_shrinks:
  assumes "CleanupExpired envs now (sv_db s) fs = (d', fs', x)" "sv_store s = Some fs"
  shows "service_shrinks s (s\<lparr>sv_db := d', sv_store := Some fs'\<rparr>)"
  using assms by (auto simp: CleanupExpired_def split: prod.splits option.splits intro: RunOnce_shrinks)

text \<open>What every handler keeps, and what it needs for a success and for a change.\<close>

definition admin_step :: "http_env \<Rightarrow> http_request \<Rightarrow> 'l admin_state \<Rightarrow> 'l admin_state \<Rightarrow> http_response \<Rightarrow> bool" where
  "admin_step he r st st' resp \<longleftrightarrow>
     service_shrinks (ad_shares st) (ad_shares st')
     \<and> (manager_ok (ad_manager st) \<longrightarrow> manager_ok (ad_manager st')
        \<and> (rs_status resp < 400 \<longrightarrow> (\<exists>s. admitted he r (ad_manager st) s))
        \<and> (ad_shares st' \<noteq> ad_shares st \<longrightarrow>
             (\<exists>s. admitted he r (ad_manager st) s \<and> hdr_values CSRFHeaderName (hr_headers r) = [CSRFToken s])))"

lemma refused_admin_step: "400 \<le> rs_status resp \<Longrightarrow> admin_step he r st st resp"
  by (simp add: admin_step_def)

lemma guarded_step:
  assumes g: "guarded he h r csrf st body = (st', resp)" and he: "he_ok he"
    and body: "\<And>s cookie st1. body s cookie st1 = (st', resp) \<Longrightarrow>
      service_shrinks (ad_shares st1) (ad_shares st') \<and> (manager_ok (ad_manager st1) \<longrightarrow> manager_ok (ad_manager st'))
      \<and> (ad_shares st' \<noteq> ad_shares st1 \<longrightarrow> csrf)"
  shows "admin_step he r st st' resp"
  using g
proof (cases rule: guarded_cases)
  case (refused m1)
  then show ?thesis using authenticate_ok [of "ad_manager st" he h r csrf] by (auto simp: admin_step_def)
next
  case (passed m1 s cookie)
  note b = body [OF passed(2)]
  have ok: "manager_ok m1" if "manager_ok (ad_manager st)"
    using authenticate_ok [OF that, of he h r csrf] passed(1) by simp
  show ?thesis using b ok authenticate_Inr [OF passed(1) he] by (auto simp: admin_step_def)
qed

section \<open>Each handler\<close>

lemma admin_error_status [simp]:
  "rs_status (admin_unauthorized h) = 401" "rs_status (methodNotAllowed h a) = 405" "rs_status (admin_bad h m) = 400"
  by (simp_all add: admin_unauthorized_def methodNotAllowed_def admin_bad_def)

lemma prod_eqI3: "x = (fst x, fst (snd x), snd (snd x))"
  by simp

lemma admin_login_step:
  assumes "admin_login lib api he h r st = (st', resp)"
  shows "ad_shares st' = ad_shares st \<and> (manager_ok (ad_manager st) \<longrightarrow> manager_ok (ad_manager st'))"
proof -
  have l: "manager_ok m1" if "manager_ok m" "Login lib sha now r1 r2 t k m = (m1, x)" for sha now r1 r2 t k m m1 x
    using manager_ok_Login [OF that(1), of lib sha now r1 r2 t k] that(2) by simp
  show ?thesis
    using assms by (auto simp: admin_login_def Let_def split: option.splits if_splits prod.splits sum.splits dest: l)
qed

lemma admin_session_step:
  assumes a: "admin_session lib api he h r st = (st', resp)" and he: "he_ok he"
  shows "hr_method r = ''POST'' \<and> admin_login lib api he h r st = (st', resp) \<or> admin_step he r st st' resp"
proof -
  consider "hr_method r = ''POST''" | "hr_method r = ''GET''" | "hr_method r = ''DELETE''"
    | "hr_method r \<notin> {''POST'', ''GET'', ''DELETE''}" by blast
  then show ?thesis
  proof cases
    case 1
    with a show ?thesis by (simp add: admin_session_def)
  next
    case 2
    then have "guarded he h r False st
        (\<lambda>session raw st1. (st1, writeJSON h 200 (session_json (CSRFToken session) (SessionExpiresAt session)))) = (st', resp)"
      using a by (simp add: admin_session_def)
    then have "admin_step he r st st' resp" by (rule guarded_step [OF _ he]) simp
    then show ?thesis ..
  next
    case 3
    then have "guarded he h r True st (\<lambda>session raw st1.
        (st1\<lparr>ad_manager := Logout (ev_sha (he_env he 2)) raw (ad_manager st1)\<rparr>,
         http_status (clearCookie (ad_manager st1) h) 204)) = (st', resp)"
      using a by (simp add: admin_session_def)
    then have "admin_step he r st st' resp"
      by (rule guarded_step [OF _ he]) (auto intro: manager_ok_others(3))
    then show ?thesis ..
  next
    case 4
    with a show ?thesis by (auto simp: admin_session_def intro!: refused_admin_step)
  qed
qed

lemma reading_step:
  assumes "guarded he h r False st (\<lambda>s raw st1. (st1, f s raw st1)) = (st', resp)" "he_ok he"
  shows "admin_step he r st st' resp"
  by (rule guarded_step [OF assms]) auto

lemma admin_summary_step: "admin_summary he h r st = (st', resp) \<Longrightarrow> he_ok he \<Longrightarrow> admin_step he r st st' resp"
  by (auto simp: admin_summary_def intro: reading_step refused_admin_step split: if_splits)

lemma listShares_step: "listShares he h r st = (st', resp) \<Longrightarrow> he_ok he \<Longrightarrow> admin_step he r st st' resp"
  by (auto simp: listShares_def intro: reading_step refused_admin_step split: if_splits)

lemma shareItem_step:
  assumes a: "shareItem api he h r v st = (st', resp)" and he: "he_ok he"
  shows "admin_step he r st st' resp"
proof (cases "ParseShareID v")
  case (Inr i)
  consider "hr_method r = ''GET''" | "hr_method r = ''DELETE''" | "hr_method r \<notin> {''GET'', ''DELETE''}" by blast
  then show ?thesis
  proof cases
    case 1
    with a Inr he show ?thesis by (auto simp: shareItem_def intro: reading_step)
  next
    case 2
    show ?thesis
      by (rule guarded_step [OF _ he, of h r True st])
         (use a Inr 2 in \<open>auto simp: shareItem_def case_prod_beta intro!: AdminDelete_shrinks prod.collapse [symmetric]\<close>)
  next
    case 3
    with a Inr show ?thesis by (auto simp: shareItem_def intro!: refused_admin_step)
  qed
qed (use a in \<open>auto simp: shareItem_def intro!: refused_admin_step\<close>)

lemma bulkDelete_step:
  assumes a: "bulkDelete he h r st = (st', resp)" and he: "he_ok he"
  shows "admin_step he r st st' resp"
proof (cases "hr_method r = ''POST''")
  case True
  show ?thesis
    by (rule guarded_step [OF _ he, of h r True st])
       (use a True in \<open>auto simp: bulkDelete_def case_prod_beta split: option.splits if_splits
           intro!: delete_ids_shrinks [OF prod_eqI3]\<close>)
qed (use a in \<open>auto simp: bulkDelete_def intro!: refused_admin_step\<close>)

lemma cleanupExpired_step:
  assumes a: "cleanupExpired api he h r st = (st', resp)" and he: "he_ok he"
  shows "admin_step he r st st' resp"
proof (cases "hr_method r = ''POST''")
  case True
  show ?thesis
    by (rule guarded_step [OF _ he, of h r True st])
       (use a True in \<open>auto simp: cleanupExpired_def case_prod_beta split: option.splits if_splits intro!: Cleanup_shrinks [OF prod_eqI3]\<close>)
qed (use a in \<open>auto simp: cleanupExpired_def intro!: refused_admin_step\<close>)

lemma serve_admin_step:
  assumes "serve_admin lib api he r st = (st', resp)" "he_ok he"
  shows "admin_step he r st st' resp
    \<or> (hr_method r = ''POST'' \<and> trim_suffix (hr_path r) ''/'' = ''/api/v1/admin/session''
        \<and> admin_login lib api he (admin_headers []) r st = (st', resp))"
proof (cases "trim_suffix (hr_path r) ''/'' = ''/api/v1/admin/session''")
  case True
  with assms(1) have "admin_session lib api he (admin_headers []) r st = (st', resp)"
    by (simp add: serve_admin_def admin_route_def basePath_def Let_def)
  from admin_session_step [OF this assms(2)] True show ?thesis by blast
next
  case False
  with assms show ?thesis
    by (auto simp: serve_admin_def admin_route_def basePath_def Let_def split: if_splits
        intro!: refused_admin_step intro: admin_summary_step listShares_step shareItem_step bulkDelete_step cleanupExpired_step)
qed

end
