(* ===== verification/AdminVeil.thy ===== *)
theory AdminVeil
  imports AdminApiLaws
begin

text \<open>
  What the Superadmin's reads cannot show: neither the ciphertext of an encrypted Share nor a
  verifier.  \<open>veil\<close> hides both in the tables, and every read answers the same on veiled tables.
\<close>

definition veil_row :: "share_row \<Rightarrow> share_row" where
  "veil_row r = r\<lparr>r_verifier := []\<rparr>"

definition veil_enc :: "enc_row \<Rightarrow> enc_row" where
  "veil_enc e = e\<lparr>e_ciphertext := replicate (length (e_ciphertext e)) (CHR ''x'')\<rparr>"

definition veil :: "db \<Rightarrow> db" where
  "veil d = d\<lparr>shares := map veil_row (shares d), encs := map veil_enc (encs d)\<rparr>"

definition veiled :: "service \<Rightarrow> service" where
  "veiled s = s\<lparr>sv_db := veil (sv_db s)\<rparr>"

lemma veil_fields [simp]:
  "texts (veil d) = texts d" "files (veil d) = files d" "shares (veil d) = map veil_row (shares d)"
  "encs (veil d) = map veil_enc (encs d)"
  by (simp_all add: veil_def)

lemma veil_row_fields [simp]:
  "r_id (veil_row r) = r_id r" "r_kind (veil_row r) = r_kind r" "r_privacy (veil_row r) = r_privacy r"
  "r_created (veil_row r) = r_created r" "r_updated (veil_row r) = r_updated r" "r_expires (veil_row r) = r_expires r"
  by (simp_all add: veil_row_def)

lemma veil_enc_fields [simp]:
  "e_share (veil_enc e) = e_share e" "e_protocol (veil_enc e) = e_protocol e" "e_nonce (veil_enc e) = e_nonce e"
  "length (e_ciphertext (veil_enc e)) = length (e_ciphertext e)"
  by (simp_all add: veil_enc_def)

lemma row_of_map: "(\<And>r. key (f r) = key r) \<Longrightarrow> row_of key k (map f rows) = map_option f (row_of key k rows)"
  by (induction rows) (simp_all add: row_of_Cons)

lemma veil_lookup [simp]:
  "row_of r_id i (map veil_row rows) = map_option veil_row (row_of r_id i rows)"
  "row_of e_share i (map veil_enc es) = map_option veil_enc (row_of e_share i es)"
  by (simp_all add: row_of_map)

section \<open>The summary and the listing\<close>

lemma count_where_map: "(\<And>r. P (f r) = P r) \<Longrightarrow> count_where P (map f rows) = count_where P rows"
  by (simp add: count_where_def filter_map comp_def)

lemma AdminSummary_veil: "AdminSummary env (veiled s) = AdminSummary env s"
  by (simp add: AdminSummary_def veiled_def Let_def count_where_map)

lemma payload_bytes_veil: "payload_bytes (veil d) (veil_row r) = payload_bytes d r"
  by (simp add: payload_bytes_def option.map_comp comp_def)

lemma scan_veil: "scanAdminListItem (veil d) (veil_row r) = scanAdminListItem d r"
  by (simp only: scanAdminListItem_def payload_bytes_veil veil_fields veil_row_fields)

lemma scan_page_veil: "scan_page (veil d) n (map veil_row rs) vals = scan_page d n rs vals"
  by (induction rs arbitrary: vals) (simp_all add: scan_veil split: sum.split)

lemma admin_order_veil: "admin_order asc (map veil_row rs) = map veil_row (admin_order asc rs)"
proof -
  have "insort_key row_key (veil_row r) (map veil_row xs) = map veil_row (insort_key row_key r xs)" for r xs
    by (induction xs) (simp_all add: row_key_def)
  then have "sort_key row_key (map veil_row rs) = map veil_row (sort_key row_key rs)"
    by (induction rs) simp_all
  then show ?thesis by (simp add: admin_order_def rev_map)
qed

lemma AdminList_veil: "AdminList env (veiled s) flt = AdminList env s flt"
proof -
  have f: "filter P (map veil_row rs) = map veil_row (filter P rs)" if "\<And>r. P (veil_row r) = P r" for P rs
    using that by (simp add: filter_map comp_def)
  have p: "admin_matches flt n (veil_row r) = admin_matches flt n r" "beyond a c i (veil_row r) = beyond a c i r" for n r a c i
    by (simp_all add: admin_matches_def beyond_def)
  show ?thesis
    by (simp add: AdminList_def veiled_def Let_def f p admin_order_veil take_map scan_page_veil
        split: sum.split)
qed

section \<open>Reading one Share\<close>

definition veil_share :: "share \<Rightarrow> share" where
  "veil_share v = v\<lparr>EncryptedText := map_option
     (\<lambda>c. c\<lparr>Ciphertext := replicate (length (Ciphertext c)) (CHR ''x'')\<rparr>) (EncryptedText v)\<rparr>"

lemma validate_veil:
  "validateEncryptedText \<lparr>Protocol = p, Nonce = n, Ciphertext = replicate (length c) x\<rparr>
     = validateEncryptedText \<lparr>Protocol = p, Nonce = n, Ciphertext = c\<rparr>"
  by (simp add: validateEncryptedText_def)

lemma loadActive_veil:
  "loadActive env (veil d) i now = map_sum id veil_share (loadActive env d i now)"
  by (cases "row_of r_id (id_string i) (shares d)")
     (auto simp: loadActive_def Let_def validate_veil veil_share_def veil_enc_def
       split: sum.splits option.splits payload_kind.splits privacy_mode.splits)

lemma response_veil: "admin_responseFromShare origin now (veil_share v) = admin_responseFromShare origin now v"
  by (simp add: admin_responseFromShare_def veil_share_def share_bytes_def optional_def admin_encrypted_json_def
      split: option.split)

section \<open>Every read\<close>

lemma guarded_read:
  "snd (guarded he h r csrf st (\<lambda>s c st1. (st1, f s (ad_shares st1)))) =
     (case authenticate he h r csrf (ad_manager st) of
        (m1, Inl resp) \<Rightarrow> resp | (m1, Inr (s, c)) \<Rightarrow> f s (ad_shares st))"
  by (simp add: guarded_def split: prod.split sum.split)

lemma serve_admin_veil:
  assumes "hr_method r = ''GET''"
  shows "snd (serve_admin lib api he r (st\<lparr>ad_shares := veiled (ad_shares st)\<rparr>)) = snd (serve_admin lib api he r st)"
proof -
  have item: "(case AdminGet env (veiled s) i of
        Inl e \<Rightarrow> if errors_is e ErrNotFound then a else b
      | Inr v \<Rightarrow> writeJSON h 200 (JObject [(''share'', admin_responseFromShare o1 t v)]))
    = (case AdminGet env s i of
        Inl e \<Rightarrow> if errors_is e ErrNotFound then a else b
      | Inr v \<Rightarrow> writeJSON h 200 (JObject [(''share'', admin_responseFromShare o1 t v)]))" for env s i a b h o1 t
    by (simp add: AdminGet_def veiled_def loadActive_veil response_veil split: sum.split)
  have "snd (listShares he h r (st\<lparr>ad_shares := veiled (ad_shares st)\<rparr>)) = snd (listShares he h r st)" for h
    by (cases "parseFilter r") (auto simp: listShares_def guarded_def AdminList_veil split: sum.split prod.split)
  moreover have "snd (admin_summary he h r (st\<lparr>ad_shares := veiled (ad_shares st)\<rparr>)) = snd (admin_summary he h r st)" for h
    by (auto simp: admin_summary_def guarded_def AdminSummary_veil split: sum.split prod.split)
  moreover have "snd (shareItem api he h r v (st\<lparr>ad_shares := veiled (ad_shares st)\<rparr>)) = snd (shareItem api he h r v st)" for h v
    using assms by (cases "ParseShareID v") (auto simp: shareItem_def guarded_def item split: sum.split prod.split)
  ultimately show ?thesis
    using assms
    by (simp add: serve_admin_def admin_route_def Let_def admin_session_def bulkDelete_def cleanupExpired_def guarded_def
        split: sum.split prod.split)
qed

end
