(* ===== verification/AdminApiProps.thy ===== *)
theory AdminApiProps
  imports AdminVeil HttpProps
begin

text \<open>
  The properties of \<open>internal/adminapi\<close>: who may use it, what it can change, what it can show.
\<close>

definition admin_api_sample :: admin_api where
  "admin_api_sample = \<lparr>aa_fileOrigin = ''https://f.example'', aa_trusted = [], aa_cleaner = True\<rparr>"

definition open_manager :: "bucket manager" where
  "open_manager = (NewManager (sample_sha ''token'') 0 True)\<lparr>mg_sessions :=
     [\<lparr>sr_key = sample_sha ''abc'', sr_csrf = ''xyz'', sr_expires = ev_now sample_env + hour\<rparr>]\<rparr>"

definition admin_request :: "string \<Rightarrow> string \<Rightarrow> http_request" where
  "admin_request m p = sample_request m p [(''Cookie'', ''upaste_admin_session=abc''), (''X-Upaste-Csrf'', ''xyz'')] []"

definition admin_sample :: "service \<Rightarrow> bucket admin_state" where
  "admin_sample s = \<lparr>ad_shares = s, ad_manager = open_manager\<rparr>"

definition admin_delete :: http_request where
  "admin_delete = admin_request ''DELETE'' ''/api/v1/admin/shares/YWFhYWFhYWFhYWFhYWFhYQ''"

lemma open_manager_ok: "manager_ok open_manager"
  unfolding manager_ok_def by code_simp

lemma sample_removes:
  "case serve_admin bucket_lib admin_api_sample sample_he admin_delete (admin_sample text_service) of
     (st, resp) \<Rightarrow> rs_status resp = 204 \<and> shares (sv_db (ad_shares st)) = []"
  by code_simp

text \<open>C6: Nothing but the login is open: a response that is no refusal was given to a request whose
  cookie opens a live session, or to a login; and when the Shares changed, the request also carried,
  in exactly one header, the CSRF token of that very session.\<close>

theorem admin_needs_session:
  assumes "he_ok he" "manager_ok (ad_manager st)" "serve_admin lib api he r st = (st', resp)"
  shows "(rs_status resp < 400 \<longrightarrow>
        hr_method r = ''POST'' \<and> trim_suffix (hr_path r) ''/'' = ''/api/v1/admin/session'' \<or> (\<exists>s. admitted he r (ad_manager st) s))
    \<and> (ad_shares st' \<noteq> ad_shares st \<longrightarrow>
        (\<exists>s. admitted he r (ad_manager st) s \<and> hdr_values CSRFHeaderName (hr_headers r) = [CSRFToken s]))"
  using serve_admin_step [OF assms(3,1)] admin_login_step [of lib api he "admin_headers []" r st st' resp] assms(2)
  by (auto simp: admin_step_def)

lemma admin_needs_session_witness:
  "\<exists>s. admitted sample_he admin_delete open_manager s \<and> CSRFToken s = ''xyz''"
proof -
  let ?x = "serve_admin bucket_lib admin_api_sample sample_he admin_delete (admin_sample text_service)"
  have "shares (sv_db (ad_shares (fst ?x))) = []" using sample_removes by (simp add: case_prod_beta)
  then have "ad_shares (fst ?x) \<noteq> ad_shares (admin_sample text_service)"
    by (auto simp: admin_sample_def text_service_def)
  moreover have "hdr_values CSRFHeaderName (hr_headers admin_delete) = [''xyz'']" by code_simp
  ultimately show ?thesis
    using admin_needs_session [OF sample_he_ok _ prod.collapse [symmetric], of "admin_sample text_service" bucket_lib
        admin_api_sample admin_delete] open_manager_ok
    by (auto simp: admin_sample_def)
qed

text \<open>C34: The Superadmin can only look and remove: after any request, whatever fails on the way, every
  Share is as it was or gone, and the invariants of the service, of its retention limit and of the
  sessions hold.\<close>

theorem admin_only_removes:
  assumes "he_ok he" "service_ok (ad_shares st)" "retention_ok (ad_shares st)" "manager_ok (ad_manager st)"
    and "serve_admin lib api he r st = (st', resp)"
  shows "(\<forall>i. abs_db (sv_db (ad_shares st')) i = abs_db (sv_db (ad_shares st)) i \<or> abs_db (sv_db (ad_shares st')) i = None)
    \<and> service_ok (ad_shares st') \<and> retention_ok (ad_shares st') \<and> manager_ok (ad_manager st')"
  using serve_admin_step [OF assms(5,1)] admin_login_step [of lib api he "admin_headers []" r st st' resp] assms(2-4)
  by (auto simp: admin_step_def service_shrinks_def removed_def)

lemma admin_only_removes_witness:
  "\<exists>st. serve_admin bucket_lib admin_api_sample sample_he admin_delete (admin_sample text_service)
      = (st, http_status (admin_headers []) 204) \<and> abs_db (sv_db (ad_shares st)) (id_string text_id) = None
    \<and> service_ok (ad_shares st)"
proof -
  let ?x = "serve_admin bucket_lib admin_api_sample sample_he admin_delete (admin_sample text_service)"
  have "snd ?x = http_status (admin_headers []) 204" by code_simp
  then have x: "?x = (fst ?x, http_status (admin_headers []) 204)" by (metis prod.collapse)
  have "shares (sv_db (ad_shares (fst ?x))) = []" using sample_removes by (simp add: case_prod_beta)
  then have none: "abs_db (sv_db (ad_shares (fst ?x))) (id_string text_id) = None" by (simp add: abs_db_def)
  have ok: "service_ok (ad_shares (admin_sample text_service))" "retention_ok (ad_shares (admin_sample text_service))"
    "manager_ok (ad_manager (admin_sample text_service))"
    using api_ok_samples(2) open_manager_ok by (simp_all add: admin_sample_def api_ok_def text_api_def)
  from admin_only_removes [OF sample_he_ok ok x] x none show ?thesis by blast
qed

text \<open>C35: No read of the Superadmin depends on what is secret: when two services differ only in the
  bytes of their ciphertexts, of the same lengths, and in the verifiers of the owner tokens, every
  \<open>GET\<close> is answered the same.\<close>

theorem admin_reads_no_secret:
  assumes "hr_method r = ''GET''" "ad_manager st = ad_manager st'" "veiled (ad_shares st) = veiled (ad_shares st')"
  shows "snd (serve_admin lib api he r st) = snd (serve_admin lib api he r st')"
proof -
  have "st\<lparr>ad_shares := veiled (ad_shares st)\<rparr> = st'\<lparr>ad_shares := veiled (ad_shares st')\<rparr>"
    using assms(2,3) by (simp add: admin_state.equality)
  then show ?thesis
    using serve_admin_veil [OF assms(1), of lib api he st] serve_admin_veil [OF assms(1), of lib api he st'] by simp
qed

definition enc_service :: "bytes \<Rightarrow> service" where
  "enc_service c = fst (CreateEncrypted sample_env empty_service (sample_encrypted\<lparr>Ciphertext := c\<rparr>) None)"

lemma admin_reads_no_secret_witness:
  "snd (serve_admin bucket_lib admin_api_sample sample_he (admin_request ''GET'' ''/api/v1/admin/shares/YWFhYWFhYWFhYWFhYWFhYQ'')
      (admin_sample (enc_service (replicate 20 (CHR ''c'')))))
    = snd (serve_admin bucket_lib admin_api_sample sample_he (admin_request ''GET'' ''/api/v1/admin/shares/YWFhYWFhYWFhYWFhYWFhYQ'')
      (admin_sample (enc_service (replicate 20 (CHR ''d'')))))"
proof -
  have "veiled (enc_service (replicate 20 (CHR ''c''))) = veiled (enc_service (replicate 20 (CHR ''d'')))" by code_simp
  then show ?thesis by (intro admin_reads_no_secret) (simp_all add: admin_sample_def admin_request_def sample_request_def)
qed

end
