(* ===== verification/WebApp.thy ===== *)
theory WebApp
  imports FileApi HttpHandlers
begin

text \<open>
  Package \<open>internal/webapp\<close>: the embedded frontend.  The bundle (\<open>fs.FS\<close>) maps the name of a regular
  file to its content, or to nothing when it cannot be read; other names have no entry.  What the
  system's tables add to the types of unknown extensions is the argument \<open>extension_type\<close>.
\<close>

section \<open>Library functions\<close>

text \<open>\<open>fs.ValidPath\<close>\<close>

definition ValidPath :: "string \<Rightarrow> bool" where
  "ValidPath name \<longleftrightarrow>
     valid_utf8 name \<and> (name = ''.'' \<or> list_all (\<lambda>e. e \<notin> {[], ''.'', ''..''}) (split_on (CHR ''/'') name))"

text \<open>\<open>path.Ext\<close>: from the last dot of the last element.\<close>

definition path_ext :: "string \<Rightarrow> string" where
  "path_ext p =
     (let element = rev (takeWhile (\<lambda>c. c \<noteq> CHR ''/'') (rev p))
      in case split_last (CHR ''.'') element of None \<Rightarrow> [] | Some (a, e) \<Rightarrow> CHR ''.'' # e)"

text \<open>\<open>bytes.Replace(s, old, new, 1)\<close> for a non-empty \<open>old\<close>.\<close>

fun replace_first :: "string \<Rightarrow> string \<Rightarrow> string \<Rightarrow> string" where
  "replace_first old new [] = []"
| "replace_first old new (c # s) =
     (if has_prefix (c # s) old then new @ drop (length old) (c # s) else c # replace_first old new s)"

section \<open>The handler\<close>

definition indexFile :: string where "indexFile = ''index.html''"
definition immutableCache :: string where "immutableCache = ''public, max-age=31536000, immutable''"
definition htmlCache :: string where "htmlCache = ''no-store''"
definition nonceMeta :: string where "nonceMeta = ''upaste-csp-nonce''"

type_synonym assets = "string \<Rightarrow> bytes option option"

record web_options =
  wo_AdminEnabled :: bool
  wo_ChallengeProvider :: string
  wo_CapEndpoint :: string

record web =
  wb_assets :: assets
  wb_index :: bytes
  wb_adminEnabled :: bool
  wb_provider :: string
  wb_capOrigin :: string

definition NewWithConfig :: "assets option \<Rightarrow> web_options \<Rightarrow> err + web" where
  "NewWithConfig bundle options =
     (case bundle of
        None \<Rightarrow> Inl (Message ''frontend assets are unavailable'')
      | Some assets \<Rightarrow>
          (case assets indexFile of
             Some (Some index) \<Rightarrow>
               if index = [] then Inl (Message ''frontend index is empty'')
               else Inr \<lparr>wb_assets = assets, wb_index = index, wb_adminEnabled = wo_AdminEnabled options,
                         wb_provider = wo_ChallengeProvider options,
                         wb_capOrigin = trim_suffix (wo_CapEndpoint options) ''/''\<rparr>
           | _ \<Rightarrow> Inl (Wrapped ''read frontend index'' ErrNotExist)))"

text \<open>The embedded bundle of a production build.  A development build has none, and \<open>NewEmbedded\<close> returns a
  nil pointer, \<open>None\<close>.\<close>

definition NewEmbedded :: "assets option \<Rightarrow> web_options \<Rightarrow> err + web option" where
  "NewEmbedded dist options =
     (case dist of None \<Rightarrow> Inr None | Some assets \<Rightarrow> map_sum id Some (NewWithConfig (Some assets) options))"

definition isAppRoute :: "web \<Rightarrow> string \<Rightarrow> bool" where
  "isAppRoute w path \<longleftrightarrow>
     (if path = ''/'' \<or> path = CHR ''/'' # indexFile then True
      else if path = ''/admin'' then wb_adminEnabled w
      else if has_prefix path ''/s/''
      then (let rest = trim_prefix path ''/s/'' in rest \<noteq> [] \<and> CHR ''/'' \<notin> set rest)
      else if has_prefix path ''/manage/''
      then (let rest = trim_prefix path ''/manage/'' in rest \<noteq> [] \<and> CHR ''/'' \<notin> set rest)
      else False)"

definition lookupAsset :: "web \<Rightarrow> string \<Rightarrow> string option" where
  "lookupAsset w path =
     (let name = trim_prefix path ''/''
      in if name = [] \<or> \<not> ValidPath name then None
         else case wb_assets w name of None \<Rightarrow> None | Some x \<Rightarrow> Some name)"

definition assetExists :: "web \<Rightarrow> string \<Rightarrow> bool" where
  "assetExists w path \<longleftrightarrow> lookupAsset w path \<noteq> None"

definition newNonce :: "bytes option \<Rightarrow> string" where
  "newNonce rnd = (case rnd of None \<Rightarrow> [] | Some value \<Rightarrow> b64_encode value)"

definition quoted :: "string \<Rightarrow> string" where
  "quoted s = CHR 0x27 # s @ [CHR 0x27]"

text \<open>The source list of each directive that depends on the provider.\<close>

definition csp_sources :: "web \<Rightarrow> string \<Rightarrow> string \<Rightarrow> string list" where
  "csp_sources w nonce directive =
     (let self = quoted ''self'';
          cloudflare = ''https://challenges.cloudflare.com'';
          nonced = (if nonce \<noteq> [] then [quoted (''nonce-'' @ nonce)] else [])
      in if wb_provider w = ''turnstile''
         then self # (if directive \<in> {''script'', ''frame'', ''connect''} then [cloudflare] else [])
         else if wb_provider w = ''cap''
         then self #
           (if directive = ''connect'' then (if wb_capOrigin w \<noteq> [] then [wb_capOrigin w] else [])
            else if directive = ''script'' then quoted ''wasm-unsafe-eval'' # nonced
            else if directive = ''style'' then nonced
            else if directive = ''worker'' then [''blob:''] else [])
         else [self])"

definition contentSecurityPolicy :: "web \<Rightarrow> string \<Rightarrow> string" where
  "contentSecurityPolicy w nonce =
     (let sources = (\<lambda>d. join_with '' '' (csp_sources w nonce d)); self = quoted ''self''; none = quoted ''none''
      in ''default-src '' @ self @ ''; base-uri '' @ none @ ''; object-src '' @ none @ ''; frame-ancestors '' @ none
         @ ''; form-action '' @ self @ ''; ''
         @ ''script-src '' @ sources ''script'' @ ''; ''
         @ ''style-src '' @ sources ''style'' @ ''; ''
         @ ''img-src '' @ self @ '' data:; ''
         @ ''font-src '' @ self @ ''; ''
         @ ''connect-src '' @ sources ''connect'' @ ''; ''
         @ ''frame-src '' @ sources ''frame'' @ ''; ''
         @ ''worker-src '' @ sources ''worker'')"

definition setSecurityHeaders :: "string \<Rightarrow> headers \<Rightarrow> headers" where
  "setSecurityHeaders csp h =
     hdr_set ''Content-Security-Policy'' csp
       (hdr_set ''X-Frame-Options'' ''DENY''
         (hdr_set ''Referrer-Policy'' ''no-referrer'' (hdr_set ''X-Content-Type-Options'' ''nosniff'' h)))"

definition contentTypeFor :: "(string \<Rightarrow> string) \<Rightarrow> string \<Rightarrow> string" where
  "contentTypeFor extension_type name =
     (let ext = path_ext name
      in if ext = ''.html'' then ''text/html; charset=utf-8''
         else if ext \<in> {''.js'', ''.mjs''} then ''text/javascript; charset=utf-8''
         else if ext = ''.css'' then ''text/css; charset=utf-8''
         else if ext \<in> {''.json'', ''.map''} then ''application/json; charset=utf-8''
         else if ext = ''.svg'' then ''image/svg+xml''
         else if ext = ''.png'' then ''image/png''
         else if ext \<in> {''.jpg'', ''.jpeg''} then ''image/jpeg''
         else if ext = ''.webp'' then ''image/webp''
         else if ext = ''.ico'' then ''image/x-icon''
         else if ext = ''.woff'' then ''font/woff''
         else if ext = ''.woff2'' then ''font/woff2''
         else if ext = ''.txt'' then ''text/plain; charset=utf-8''
         else if ext = ''.wasm'' then ''application/wasm''
         else if extension_type ext \<noteq> [] then extension_type ext
         else ''application/octet-stream'')"

definition nonce_tag :: "string \<Rightarrow> string" where
  "nonce_tag nonce =
     (let q = CHR 0x22 in ''<meta name='' @ q # nonceMeta @ q # '' content='' @ q # nonce @ q # ''>'')"

definition index_body :: "web \<Rightarrow> string \<Rightarrow> bytes" where
  "index_body w nonce =
     (if wb_provider w = ''cap'' \<and> nonce \<noteq> []
      then replace_first ''</head>'' (nonce_tag nonce @ ''</head>'') (wb_index w) else wb_index w)"

text \<open>Content without a modification time, \<open>time.Time{}\<close>.\<close>

definition serveIndex :: "content_server \<Rightarrow> web \<Rightarrow> headers \<Rightarrow> http_request \<Rightarrow> string \<Rightarrow> http_response" where
  "serveIndex serve w h r nonce =
     serve r indexFile zero_time (index_body w nonce)
       (hdr_set ''Cache-Control'' htmlCache (hdr_set ''Content-Type'' ''text/html; charset=utf-8'' h))"

definition serveAsset ::
  "content_server \<Rightarrow> (string \<Rightarrow> string) \<Rightarrow> web \<Rightarrow> headers \<Rightarrow> http_request \<Rightarrow> string \<Rightarrow> http_response" where
  "serveAsset serve extension_type w h r name =
     (case wb_assets w name of
        Some (Some data) \<Rightarrow>
          serve r (path_base name) zero_time data
            (hdr_set ''Content-Type'' (contentTypeFor extension_type name)
              (hdr_set ''Cache-Control'' (if has_prefix name ''assets/'' then immutableCache else htmlCache) h))
      | _ \<Rightarrow> http_NotFound h)"

text \<open>\<open>ServeHTTP\<close>; the bytes of the nonce are the random bytes of the request.\<close>

definition serve_web :: "content_server \<Rightarrow> (string \<Rightarrow> string) \<Rightarrow> web \<Rightarrow> http_env \<Rightarrow> http_request \<Rightarrow> http_response" where
  "serve_web serve extension_type w he r =
     (let nonce = newNonce (he_key_rnd he);
          h = setSecurityHeaders (contentSecurityPolicy w nonce) []
      in if hr_method r \<noteq> ''GET'' \<and> hr_method r \<noteq> ''HEAD''
         then (if isAppRoute w (hr_path r) \<or> assetExists w (hr_path r)
               then http_Error (hdr_set ''Allow'' ''GET, HEAD'' h) ''method not allowed'' 405
               else http_NotFound h)
         else if isAppRoute w (hr_path r) then serveIndex serve w h r nonce
         else case lookupAsset w (hr_path r) of
           Some name \<Rightarrow> serveAsset serve extension_type w h r name
         | None \<Rightarrow> http_NotFound h)"

end
