(* ===== verification/Duration.thy ===== *)
theory Duration
  imports Encoding
begin

text \<open>
  \<open>time.ParseDuration\<close>, with the \<open>uint64\<close> accumulator and the \<open>float64\<close> arithmetic of fractions.
  A positive \<open>float64\<close> is the quotient of two naturals, rounded to 53 significant binary digits
  after every operation; no operation here leaves the range of the exponents, except that a
  scale beyond it would be infinite, where the quotient by it is 0 after truncation as well.
\<close>

section \<open>Floating point\<close>

fun bit_count :: "nat \<Rightarrow> nat" where
  "bit_count n = (if n = 0 then 0 else Suc (bit_count (n div 2)))"

declare bit_count.simps [simp del]

text \<open>The quotient \<open>n / d\<close> rounded to nearest, ties to even.\<close>

definition round53 :: "nat \<Rightarrow> nat \<Rightarrow> nat \<times> nat" where
  "round53 n d =
     (if n = 0 then (0, 1)
      else
        (let s = 54 + bit_count d; q = n * 2 ^ s div d; r = n * 2 ^ s mod d; k = bit_count q - 53;
             h = q div 2 ^ k; low = q mod 2 ^ k; half = 2 ^ (k - 1);
             m = (if low > half \<or> (low = half \<and> (r > 0 \<or> odd h)) then h + 1 else h)
         in (m * 2 ^ k, 2 ^ s)))"

definition float_div :: "nat \<times> nat \<Rightarrow> nat \<times> nat \<Rightarrow> nat \<times> nat" where
  "float_div x y = round53 (fst x * snd y) (snd x * fst y)"

definition float_mul :: "nat \<times> nat \<Rightarrow> nat \<times> nat \<Rightarrow> nat \<times> nat" where
  "float_mul x y = round53 (fst x * fst y) (snd x * snd y)"

definition float_floor :: "nat \<times> nat \<Rightarrow> nat" where
  "float_floor x = fst x div snd x"

section \<open>Numbers\<close>

text \<open>\<open>leadingInt\<close>\<close>

fun leadingInt :: "nat \<Rightarrow> string \<Rightarrow> (nat \<times> string) option" where
  "leadingInt x [] = Some (x, [])"
| "leadingInt x (c # s) =
     (if \<not> (48 \<le> byte c \<and> byte c \<le> 57) then Some (x, c # s)
      else if x > 2 ^ 63 div 10 then None
      else if x * 10 + (byte c - 48) > 2 ^ 63 then None
      else leadingInt (x * 10 + (byte c - 48)) s)"

text \<open>\<open>leadingFraction\<close>: the digits as far as they fit, and the power of ten below them.\<close>

fun leadingFraction :: "nat \<Rightarrow> nat \<times> nat \<Rightarrow> bool \<Rightarrow> string \<Rightarrow> nat \<times> (nat \<times> nat) \<times> string" where
  "leadingFraction x scale overflow [] = (x, scale, [])"
| "leadingFraction x scale overflow (c # s) =
     (if \<not> (48 \<le> byte c \<and> byte c \<le> 57) then (x, scale, c # s)
      else if overflow \<or> x > (2 ^ 63 - 1) div 10 \<or> x * 10 + (byte c - 48) > 2 ^ 63
      then leadingFraction x scale True s
      else leadingFraction (x * 10 + (byte c - 48)) (float_mul scale (10, 1)) False s)"

definition unitMap :: "(string \<times> nat) list" where
  "unitMap =
     [(''ns'', 1), (''us'', 1000), ([CHR 0xC2, CHR 0xB5, CHR ''s''], 1000), ([CHR 0xCE, CHR 0xBC, CHR ''s''], 1000),
      (''ms'', 1000000), (''s'', 1000000000), (''m'', 60000000000), (''h'', 3600000000000)]"

section \<open>Durations\<close>

text \<open>One term \<open>[0-9]*(.[0-9]*)?unit\<close> in nanoseconds, and what follows it.\<close>

definition parse_term :: "string \<Rightarrow> (nat \<times> string) option" where
  "parse_term s =
     (if s = [] \<or> \<not> (hd s = CHR ''.'' \<or> (48 \<le> byte (hd s) \<and> byte (hd s) \<le> 57)) then None
      else case leadingInt 0 s of
        None \<Rightarrow> None
      | Some (v, s1) \<Rightarrow>
          (let pre = length s \<noteq> length s1;
               (f, scale, post, s2) =
                 (case s1 of
                    c # r \<Rightarrow>
                      if c = CHR ''.'' then (case leadingFraction 0 (1, 1) False r of (f, scale, r') \<Rightarrow> (f, scale, length r \<noteq> length r', r'))
                      else (0, (1, 1), False, s1)
                  | [] \<Rightarrow> (0, (1, 1), False, s1));
               u = takeWhile (\<lambda>c. \<not> (c = CHR ''.'' \<or> (48 \<le> byte c \<and> byte c \<le> 57))) s2
           in if \<not> pre \<and> \<not> post then None
              else if u = [] then None
              else case map_of unitMap u of
                None \<Rightarrow> None
              | Some unit \<Rightarrow>
                  if v > 2 ^ 63 div unit then None
                  else
                    (let w = v * unit + (if f > 0 then float_floor (float_mul (round53 f 1) (float_div (unit, 1) scale)) else 0)
                     in if f > 0 \<and> w > 2 ^ 63 then None else Some (w, drop (length u) s2))))"

lemma parse_term_shorter:
  assumes "parse_term s = Some (w, s')"
  shows "length s' < length s"
proof -
  have li: "length r \<le> length t" if "leadingInt x t = Some (v, r)" for x t v r
    using that by (induction x t rule: leadingInt.induct) (auto split: if_splits)
  have lf: "length r \<le> length t" if "leadingFraction x sc ov t = (f, sc', r)" for x sc ov t f sc' r
    using that by (induction x sc ov t rule: leadingFraction.induct) (auto split: if_splits)
  from assms show ?thesis
    by (auto simp: parse_term_def Let_def split: option.splits prod.splits if_splits list.splits dest!: li lf)
qed

text \<open>The sum of the terms; the accumulator wraps around at 64 bit_count.\<close>

function parse_terms :: "nat \<Rightarrow> string \<Rightarrow> nat option" where
  "parse_terms d s =
     (if s = [] then Some d
      else case parse_term s of
        None \<Rightarrow> None
      | Some (w, s') \<Rightarrow>
          (let d' = (d + w) mod 2 ^ 64 in if d' > 2 ^ 63 then None else parse_terms d' s'))"
  by pat_completeness auto
termination
  by (relation "measure (\<lambda>(d, s). length s)") (auto dest: parse_term_shorter)

declare parse_terms.simps [simp del]

definition ParseDuration :: "string \<Rightarrow> duration option" where
  "ParseDuration orig =
     (let neg = (orig \<noteq> [] \<and> hd orig = CHR ''-'');
          s = (if orig \<noteq> [] \<and> (hd orig = CHR ''-'' \<or> hd orig = CHR ''+'') then tl orig else orig)
      in if s = ''0'' then Some 0
         else if s = [] then None
         else case parse_terms 0 s of
           None \<Rightarrow> None
         | Some d \<Rightarrow>
             if neg then Some (- int d) else if d > 2 ^ 63 - 1 then None else Some (int d))"

section \<open>Range\<close>

lemma parse_terms_bound: "parse_terms d s = Some d' \<Longrightarrow> d \<le> 2 ^ 63 \<Longrightarrow> d' \<le> 2 ^ 63"
proof (induction d s arbitrary: d' rule: parse_terms.induct)
  case (1 d s)
  show ?case
  proof (cases "s = []")
    case False
    with 1(2) obtain w s' where t: "parse_term s = Some (w, s')"
      by (subst (asm) parse_terms.simps) (auto split: option.splits)
    with False 1(2) have "\<not> (d + w) mod 2 ^ 64 > 2 ^ 63" "parse_terms ((d + w) mod 2 ^ 64) s' = Some d'"
      by (simp_all add: parse_terms.simps [of d s] Let_def split: if_splits)
    then show ?thesis using 1(1) [OF False t refl refl, of d'] by (simp only: linorder_not_less simp_thms)
  qed (use 1(2,3) in \<open>simp add: parse_terms.simps [of d]\<close>)
qed

text \<open>A parsed duration is one of the 64-bit durations.\<close>

lemma ParseDuration_range: "ParseDuration s = Some d \<Longrightarrow> - (2 ^ 63) \<le> d \<and> d < 2 ^ 63"
  by (auto simp: ParseDuration_def Let_def split: if_splits option.splits dest: parse_terms_bound)

end
