(* ===== verification/Config.thy ===== *)
theory Config
  imports Duration Challenge Capability
begin

text \<open>
  Package \<open>internal/config\<close>: the configuration from the environment and the command line.  The
  environment is a partial map (or absent), the working directory, the decoding of a URL's host
  and SHA-256 are arguments.  Messages are kept without the values \<open>fmt.Errorf\<close> prints into them.
\<close>

section \<open>Library functions\<close>

text \<open>\<open>path/filepath\<close> on Unix: the elements of a path, \<open>Clean\<close>, and \<open>Abs\<close> from a working directory.\<close>

fun clean_elements :: "bool \<Rightarrow> string list \<Rightarrow> string list \<Rightarrow> string list" where
  "clean_elements rooted acc [] = rev acc"
| "clean_elements rooted acc (c # cs) =
     (if c = [] \<or> c = ''.'' then clean_elements rooted acc cs
      else if c = ''..''
      then (case acc of
              [] \<Rightarrow> clean_elements rooted (if rooted then [] else [c]) cs
            | a # as \<Rightarrow> clean_elements rooted (if a = ''..'' then c # acc else as) cs)
      else clean_elements rooted (c # acc) cs)"

definition Clean :: "string \<Rightarrow> string" where
  "Clean path =
     (let rooted = has_prefix path ''/'';
          out = (if rooted then ''/'' else []) @ join_with ''/'' (clean_elements rooted [] (split_on (CHR ''/'') path))
      in if out = [] then ''.'' else out)"

definition Abs :: "string option \<Rightarrow> string \<Rightarrow> string option" where
  "Abs cwd path =
     (if has_prefix path ''/'' then Some (Clean path)
      else map_option (\<lambda>wd. Clean ((if wd = [] then [] else wd @ ''/'') @ path)) cwd)"

text \<open>\<open>strconv.ParseBool\<close>\<close>

definition ParseBool :: "string \<Rightarrow> bool option" where
  "ParseBool s =
     (if s \<in> {''1'', ''t'', ''T'', ''TRUE'', ''true'', ''True''} then Some True
      else if s \<in> {''0'', ''f'', ''F'', ''FALSE'', ''false'', ''False''} then Some False else None)"

section \<open>Configuration\<close>

definition defaultAddr :: string where "defaultAddr = ''127.0.0.1:8080''"
definition defaultFileAddr :: string where "defaultFileAddr = ''127.0.0.1:8081''"
definition defaultFileOrigin :: string where "defaultFileOrigin = ''http://127.0.0.1:8081''"
definition defaultDataDir :: string where "defaultDataDir = ''./data''"
definition defaultPublicDefaultTTL :: duration where "defaultPublicDefaultTTL = 24 * hour"
definition defaultPublicMaxTTL :: duration where "defaultPublicMaxTTL = 168 * hour"
definition defaultChallengeTimeout :: duration where "defaultChallengeTimeout = 10 * second"

datatype mode = ModePrivate | ModePublic

fun mode_string :: "mode \<Rightarrow> string" where
  "mode_string ModePrivate = ''private''"
| "mode_string ModePublic = ''public''"

type_synonym lookup_env = "(string \<Rightarrow> string option) option"

record config =
  cf_Mode :: mode
  cf_Addr :: string
  cf_FileAddr :: string
  cf_FileOrigin :: string
  cf_TrustedProxies :: "prefix list"
  cf_DataDir :: string
  cf_PublicDefaultTTL :: duration
  cf_PublicMaxTTL :: duration
  cf_Challenge :: challenge_config
  cf_ChallengeTimeout :: duration
  cf_AdminEnabled :: bool
  cf_AdminVerifier :: bytes
  cf_AdminCookieSecure :: bool

definition ChallengeEnabled :: "config \<Rightarrow> bool" where
  "ChallengeEnabled c \<longleftrightarrow> cc_Provider (cf_Challenge c) \<noteq> []"

definition is_public :: "config \<Rightarrow> bool" where
  "is_public c \<longleftrightarrow> cf_Mode c = ModePublic"

section \<open>The environment\<close>

definition lookupEnv :: "lookup_env \<Rightarrow> string \<Rightarrow> string option" where
  "lookupEnv lookup name = (case lookup of None \<Rightarrow> None | Some f \<Rightarrow> f name)"

definition envOrDefault :: "lookup_env \<Rightarrow> string \<Rightarrow> string \<Rightarrow> string" where
  "envOrDefault lookup name fallback =
     (case lookup of
        None \<Rightarrow> fallback
      | Some f \<Rightarrow> (case f name of Some value \<Rightarrow> value | None \<Rightarrow> fallback))"

definition envDuration :: "lookup_env \<Rightarrow> string \<Rightarrow> duration \<Rightarrow> err + duration" where
  "envDuration lookup name fallback =
     (case lookup of
        None \<Rightarrow> Inr fallback
      | Some f \<Rightarrow>
          (case f name of
             None \<Rightarrow> Inr fallback
           | Some value \<Rightarrow>
               if trim_space value = [] then Inr fallback
               else (case ParseDuration (trim_space value) of
                       None \<Rightarrow> Inl (Wrapped (''invalid '' @ name) (Message ''time''))
                     | Some d \<Rightarrow> Inr d)))"

section \<open>The values\<close>

definition validateAddress :: "string \<Rightarrow> err option" where
  "validateAddress value =
     (case SplitHostPort value of
        None \<Rightarrow> Some (Message ''address requires host and port'')
      | Some (host, port) \<Rightarrow>
          if host = [] then Some (Message ''address requires host and port'')
          else (case parse_int64 port of
                  None \<Rightarrow> Some (Message ''invalid port'')
                | Some n \<Rightarrow> if n < 1 \<or> n > 65535 then Some (Message ''invalid port'') else None))"

definition normalizeOrigin :: "(string \<Rightarrow> string option) \<Rightarrow> string \<Rightarrow> err + string" where
  "normalizeOrigin parse_host value =
     (case parse_url parse_host (trim_space value) of
        None \<Rightarrow> Inl (Message ''origin must be an absolute HTTP(S) URL'')
      | Some u \<Rightarrow>
          if u_scheme u = [] \<or> (u_scheme u \<noteq> ''http'' \<and> u_scheme u \<noteq> ''https'') \<or> u_host u = []
          then Inl (Message ''origin must be an absolute HTTP(S) URL'')
          else if u_user u \<or> u_rawquery u \<noteq> [] \<or> u_fragment u \<noteq> [] \<or> (u_path u \<noteq> [] \<and> u_path u \<noteq> ''/'')
               \<or> u_rawpath u \<noteq> []
          then Inl (Message ''origin must not contain credentials, path, query, or fragment'')
          else Inr (u_scheme u @ ''://'' @ u_host u))"

fun parse_prefixes :: "string list \<Rightarrow> prefix list option" where
  "parse_prefixes [] = Some []"
| "parse_prefixes (part # parts) =
     (case ParsePrefix (trim_space part) of
        None \<Rightarrow> None
      | Some p \<Rightarrow> map_option (\<lambda>ps. Masked p # ps) (parse_prefixes parts))"

definition parseCIDRs :: "string \<Rightarrow> err + prefix list" where
  "parseCIDRs value =
     (if trim_space value = [] then Inr []
      else case parse_prefixes (split_on (CHR '','') value) of
             None \<Rightarrow> Inl (Message ''netip'')
           | Some ps \<Rightarrow> Inr ps)"

definition parseChallenge :: "lookup_env \<Rightarrow> err + challenge_config" where
  "parseChallenge lookup =
     (let providerValue = trim_space (envOrDefault lookup ''UPASTE_CHALLENGE_PROVIDER'' [])
      in if providerValue = [] then Inr no_challenge
         else case ParseProvider providerValue of
           Inl e \<Rightarrow> Inl e
         | Inr provider \<Rightarrow>
             Inr \<lparr>cc_Provider = provider,
                  cc_CapEndpoint = trim_space (envOrDefault lookup ''UPASTE_CAP_ENDPOINT'' []),
                  cc_CapSiteKey = trim_space (envOrDefault lookup ''UPASTE_CAP_SITE_KEY'' []),
                  cc_CapSecretKey = trim_space (envOrDefault lookup ''UPASTE_CAP_SECRET_KEY'' []),
                  cc_TurnstileSiteKey = trim_space (envOrDefault lookup ''UPASTE_TURNSTILE_SITE_KEY'' []),
                  cc_TurnstileSecretKey = trim_space (envOrDefault lookup ''UPASTE_TURNSTILE_SECRET_KEY'' []),
                  cc_TurnstileHostname = trim_space (envOrDefault lookup ''UPASTE_TURNSTILE_HOSTNAME'' [])\<rparr>)"

section \<open>The command line\<close>

record flag_values =
  fl_addr :: string
  fl_fileAddr :: string
  fl_fileOrigin :: string
  fl_trusted :: string
  fl_dataDir :: string

text \<open>Package \<open>flag\<close>: the five string flags, given as \<open>-name=value\<close> or \<open>-name value\<close>, up to the first
  argument that is not a flag.\<close>

definition set_flag :: "string \<Rightarrow> string \<Rightarrow> flag_values \<Rightarrow> flag_values option" where
  "set_flag name value v =
     (if name = ''addr'' then Some (v\<lparr>fl_addr := value\<rparr>)
      else if name = ''file-addr'' then Some (v\<lparr>fl_fileAddr := value\<rparr>)
      else if name = ''file-origin'' then Some (v\<lparr>fl_fileOrigin := value\<rparr>)
      else if name = ''trusted-proxy-cidrs'' then Some (v\<lparr>fl_trusted := value\<rparr>)
      else if name = ''data-dir'' then Some (v\<lparr>fl_dataDir := value\<rparr>)
      else None)"

fun parse_flags :: "flag_values \<Rightarrow> string list \<Rightarrow> err + flag_values \<times> string list" where
  "parse_flags v [] = Inr (v, [])"
| "parse_flags v (s # args) =
     (if length s < 2 \<or> hd s \<noteq> CHR ''-'' then Inr (v, s # args)
      else if s = ''--'' then Inr (v, args)
      else
        (let body = (if s ! 1 = CHR ''-'' then drop 2 s else drop 1 s)
         in if body = [] \<or> hd body = CHR ''-'' \<or> hd body = CHR ''='' then Inl (Message ''bad flag syntax'')
            else (case cut (CHR ''='') body of
                    Some (name, value) \<Rightarrow>
                      (case set_flag name value v of
                         None \<Rightarrow> Inl (Message ''flag provided but not defined'')
                       | Some v' \<Rightarrow> parse_flags v' args)
                  | None \<Rightarrow>
                      if set_flag body [] v = None then Inl (Message ''flag provided but not defined'')
                      else (case args of
                              [] \<Rightarrow> Inl (Message ''flag needs an argument'')
                            | value # rest \<Rightarrow>
                                (case set_flag body value v of
                                   None \<Rightarrow> Inl (Message ''flag provided but not defined'')
                                 | Some v' \<Rightarrow> parse_flags v' rest)))))"

definition env_flags :: "lookup_env \<Rightarrow> flag_values" where
  "env_flags lookup =
     \<lparr>fl_addr = envOrDefault lookup ''UPASTE_ADDR'' defaultAddr,
      fl_fileAddr = envOrDefault lookup ''UPASTE_FILE_ADDR'' defaultFileAddr,
      fl_fileOrigin = envOrDefault lookup ''UPASTE_FILE_ORIGIN'' defaultFileOrigin,
      fl_trusted = envOrDefault lookup ''UPASTE_TRUSTED_PROXY_CIDRS'' [],
      fl_dataDir = envOrDefault lookup ''UPASTE_DATA_DIR'' defaultDataDir\<rparr>"

section \<open>Parse\<close>

text \<open>Its parts in their order: the mode, the durations, the challenge, the administrator, the
  listeners and the data directory.\<close>

definition parse_mode :: "lookup_env \<Rightarrow> err + mode" where
  "parse_mode lookup =
     (let v = to_lower (trim_space (envOrDefault lookup ''UPASTE_DEPLOYMENT_MODE'' (mode_string ModePrivate)))
      in if v = mode_string ModePrivate then Inr ModePrivate
         else if v = mode_string ModePublic then Inr ModePublic
         else Inl (Message ''invalid UPASTE_DEPLOYMENT_MODE''))"

definition parse_ttls :: "lookup_env \<Rightarrow> err + duration \<times> duration \<times> duration" where
  "parse_ttls lookup =
     (case envDuration lookup ''UPASTE_PUBLIC_DEFAULT_TTL'' defaultPublicDefaultTTL of
        Inl e \<Rightarrow> Inl e
      | Inr publicDefaultTTL \<Rightarrow>
          (case envDuration lookup ''UPASTE_PUBLIC_MAX_TTL'' defaultPublicMaxTTL of
             Inl e \<Rightarrow> Inl e
           | Inr publicMaxTTL \<Rightarrow>
               if publicDefaultTTL \<le> 0 \<or> publicMaxTTL \<le> 0 \<or> publicDefaultTTL > publicMaxTTL
               then Inl (Message ''UPASTE_PUBLIC_DEFAULT_TTL must be > 0 and <= UPASTE_PUBLIC_MAX_TTL'')
               else (case envDuration lookup ''UPASTE_CHALLENGE_TIMEOUT'' defaultChallengeTimeout of
                 Inl e \<Rightarrow> Inl e
               | Inr challengeTimeout \<Rightarrow>
                   if challengeTimeout \<le> 0 then Inl (Message ''UPASTE_CHALLENGE_TIMEOUT must be positive'')
                   else Inr (publicDefaultTTL, publicMaxTTL, challengeTimeout))))"

definition parse_provider :: "(string \<Rightarrow> string option) \<Rightarrow> lookup_env \<Rightarrow> mode \<Rightarrow> err + challenge_config" where
  "parse_provider parse_host lookup m =
     (case parseChallenge lookup of
        Inl e \<Rightarrow> Inl e
      | Inr c \<Rightarrow>
          if m = ModePrivate \<and> cc_Provider c \<noteq> []
          then Inl (Message ''UPASTE_CHALLENGE_PROVIDER is only supported in public deployment mode'')
          else if m = ModePublic \<and> cc_Provider c = []
          then Inl (Message ''public deployment mode requires UPASTE_CHALLENGE_PROVIDER=cap or turnstile'')
          else if cc_Provider c \<noteq> []
          then (case validate_challenge parse_host c of
                  Some e \<Rightarrow> Inl (Wrapped ''invalid challenge configuration'' e)
                | None \<Rightarrow> Inr c)
          else Inr c)"

text \<open>Whether the administrator is enabled, the verifier of the token, and whether cookies are secure.\<close>

definition parse_admin :: "(bytes \<Rightarrow> bytes) \<Rightarrow> lookup_env \<Rightarrow> mode \<Rightarrow> err + bool \<times> bytes \<times> bool" where
  "parse_admin sha lookup m =
     (let adminToken = trim_space (envOrDefault lookup ''UPASTE_ADMIN_TOKEN'' [])
      in case (if adminToken = [] then Inr (False, replicate 32 (char_of (0 :: nat)))
               else (case ParseToken adminToken of
                       Inl e \<Rightarrow> Inl (Wrapped ''invalid UPASTE_ADMIN_TOKEN'' e)
                     | Inr token \<Rightarrow> Inr (True, admin_verifier sha token))) of
           Inl e \<Rightarrow> Inl e
         | Inr (adminEnabled, adminVerifier) \<Rightarrow>
             if m = ModePublic \<and> \<not> adminEnabled
             then Inl (Message ''public deployment mode requires UPASTE_ADMIN_TOKEN'')
             else
               (case lookupEnv lookup ''UPASTE_ADMIN_COOKIE_SECURE'' of
                  None \<Rightarrow> Inr (adminEnabled, adminVerifier, m = ModePublic)
                | Some raw \<Rightarrow>
                    if trim_space raw = [] then Inr (adminEnabled, adminVerifier, m = ModePublic)
                    else (case ParseBool (trim_space raw) of
                            None \<Rightarrow> Inl (Wrapped ''invalid UPASTE_ADMIN_COOKIE_SECURE'' (Message ''strconv''))
                          | Some parsed \<Rightarrow>
                              if m = ModePublic \<and> \<not> parsed
                              then Inl (Message ''public deployment mode requires UPASTE_ADMIN_COOKIE_SECURE=true'')
                              else Inr (adminEnabled, adminVerifier, parsed))))"

definition parse_listeners ::
  "(string \<Rightarrow> string option) \<Rightarrow> string option \<Rightarrow> flag_values \<Rightarrow> err + string \<times> string \<times> string \<times> prefix list \<times> string" where
  "parse_listeners parse_host cwd v =
     (let addr = trim_space (fl_addr v); fileAddr = trim_space (fl_fileAddr v)
      in if validateAddress addr \<noteq> None then Inl (Message ''invalid application listen address'')
         else if validateAddress fileAddr \<noteq> None then Inl (Message ''invalid file listen address'')
         else if addr = fileAddr then Inl (Message ''application and file listen addresses must differ'')
         else (case normalizeOrigin parse_host (fl_fileOrigin v) of
           Inl e \<Rightarrow> Inl (Wrapped ''invalid file origin'' e)
         | Inr fileOrigin \<Rightarrow>
             (case parseCIDRs (fl_trusted v) of
                Inl e \<Rightarrow> Inl (Wrapped ''invalid trusted proxy CIDRs'' e)
              | Inr trustedProxies \<Rightarrow>
                  (let dataDir = trim_space (fl_dataDir v)
                   in if dataDir = [] then Inl (Message ''data directory must not be empty'')
                      else (case Abs cwd (Clean dataDir) of
                              None \<Rightarrow> Inl (Wrapped ''resolve data directory'' (Message ''getwd''))
                            | Some path \<Rightarrow> Inr (addr, fileAddr, fileOrigin, trustedProxies, path))))))"

definition Parse ::
  "(bytes \<Rightarrow> bytes) \<Rightarrow> (string \<Rightarrow> string option) \<Rightarrow> string option \<Rightarrow> string list \<Rightarrow> lookup_env \<Rightarrow> err + config" where
  "Parse sha parse_host cwd args lookup =
     (case parse_flags (env_flags lookup) args of
        Inl e \<Rightarrow> Inl (Wrapped ''parse flags'' e)
      | Inr (v, rest) \<Rightarrow>
          if rest \<noteq> [] then Inl (Message ''unexpected arguments'')
          else (case parse_mode lookup of
            Inl e \<Rightarrow> Inl e
          | Inr m \<Rightarrow>
          (case parse_ttls lookup of
             Inl e \<Rightarrow> Inl e
           | Inr (publicDefaultTTL, publicMaxTTL, challengeTimeout) \<Rightarrow>
          (case parse_provider parse_host lookup m of
             Inl e \<Rightarrow> Inl e
           | Inr challenge \<Rightarrow>
          (case parse_admin sha lookup m of
             Inl e \<Rightarrow> Inl e
           | Inr (adminEnabled, adminVerifier, adminCookieSecure) \<Rightarrow>
          (case parse_listeners parse_host cwd v of
             Inl e \<Rightarrow> Inl e
           | Inr (addr, fileAddr, fileOrigin, trustedProxies, dataDir) \<Rightarrow>
               Inr \<lparr>cf_Mode = m, cf_Addr = addr, cf_FileAddr = fileAddr, cf_FileOrigin = fileOrigin,
                    cf_TrustedProxies = trustedProxies, cf_DataDir = dataDir,
                    cf_PublicDefaultTTL = publicDefaultTTL, cf_PublicMaxTTL = publicMaxTTL,
                    cf_Challenge = challenge, cf_ChallengeTimeout = challengeTimeout,
                    cf_AdminEnabled = adminEnabled, cf_AdminVerifier = adminVerifier,
                    cf_AdminCookieSecure = adminCookieSecure\<rparr>))))))"

end
