(* ===== verification/Startup.thy ===== *)
theory Startup
  imports Config
begin

text \<open>
  What the program opens before it serves.  Package \<open>internal/database\<close>: the file of the database, the
  data source name, and the migrations that bring the schema to the latest version, each in a
  transaction of its own; and \<open>OpenLocal\<close> of \<open>internal/objectstore\<close>.  The operating system and SQLite
  are oracles: an argument says which calls fail.
\<close>

section \<open>The database file\<close>

definition database_filename :: string where "database_filename = ''upaste.db''"
definition maxOpenConns :: nat where "maxOpenConns = 4"

datatype file_kind = NoFile | RegularFile | DirectoryFile | OtherFile

text \<open>What \<open>os.Stat\<close> of the data directory and \<open>os.Lstat\<close> of the file find, and which calls fail.\<close>

record os_env =
  os_mkdir :: bool
  os_stat :: "file_kind option"
  os_lstat :: "file_kind option"
  os_create :: bool
  os_close :: bool

text \<open>The path of the file, and whether it was made.\<close>

definition prepareDatabaseFile :: "os_env \<Rightarrow> string \<Rightarrow> err + string \<times> bool" where
  "prepareDatabaseFile env dataDir =
     (if os_mkdir env then Inl (Wrapped ''create data directory'' (Message ''mkdir''))
      else case os_stat env of
        None \<Rightarrow> Inl (Wrapped ''inspect data directory'' (Message ''stat''))
      | Some kind \<Rightarrow>
          if kind \<noteq> DirectoryFile then Inl (Message ''data path is not a directory'')
          else
            (let path = Clean (dataDir @ ''/'' @ database_filename)
             in case os_lstat env of
                  None \<Rightarrow> Inl (Wrapped ''inspect database file'' (Message ''lstat''))
                | Some NoFile \<Rightarrow>
                    if os_create env then Inl (Wrapped ''create database file'' (Message ''open''))
                    else if os_close env then Inl (Wrapped ''close new database file'' (Message ''close''))
                    else Inr (path, True)
                | Some RegularFile \<Rightarrow> Inr (path, False)
                | Some k \<Rightarrow> Inl (Message ''database path is not a regular file'')))"

text \<open>The pragmas every connection starts with: foreign keys are enforced, and a transaction takes the
  write lock when it begins.\<close>

definition dsn :: "string \<Rightarrow> string" where
  "dsn path =
     ''file://'' @ path_escape path @ ''?''
     @ encode_form [(''_busy_timeout'', ''5000''), (''_defensive'', ''1''), (''_dqs'', ''0''), (''_foreign_keys'', ''ON''),
                    (''_journal_mode'', ''WAL''), (''_synchronous'', ''NORMAL''), (''_txlock'', ''immediate'')]"

section \<open>The directory of the objects\<close>

text \<open>\<open>os.Lstat\<close> does not follow links, so a link in its place is refused; \<open>os.OpenRoot\<close> then confines
  every later access to it.\<close>

definition OpenLocal :: "os_env \<Rightarrow> bool \<Rightarrow> string \<Rightarrow> err + string" where
  "OpenLocal env open_root dataDir =
     (let root = Clean (dataDir @ ''/objects'')
      in case os_lstat env of
           None \<Rightarrow> Inl (Wrapped ''inspect object root'' (Message ''lstat''))
         | Some kind \<Rightarrow>
             if kind \<noteq> NoFile \<and> kind \<noteq> DirectoryFile then Inl (Message ''object root is not a directory'')
             else if os_mkdir env then Inl (Wrapped ''create object root'' (Message ''mkdir''))
             else if open_root then Inl (Wrapped ''open object root'' (Message ''openroot''))
             else Inr root)"

section \<open>Migrations\<close>

definition latestSchemaVersion :: int where "latestSchemaVersion = 5"

definition migrations :: "(int \<times> string) list" where
  "migrations =
     [(1, ''migrations/0001_shares.sql''), (2, ''migrations/0002_standard_text_payloads.sql''),
      (3, ''migrations/0003_encrypted_text_payloads.sql''), (4, ''migrations/0004_file_payloads.sql''),
      (5, ''migrations/0005_admin_listing_indexes.sql'')]"

text \<open>The schema of a database: its \<open>user_version\<close> and the scripts that have been executed, in order.\<close>

record schema =
  sc_version :: int
  sc_applied :: "string list"

text \<open>The calls on the database, those of a migration with its version.\<close>

datatype migration_call =
    ReadVersion | ReadScript int | BeginMigration int | ExecScript int | SetVersion int | CommitMigration int

fun apply_migrations ::
  "(migration_call \<Rightarrow> bool) \<Rightarrow> (int \<times> string) list \<Rightarrow> int \<Rightarrow> schema \<Rightarrow> schema \<times> (err + int)" where
  "apply_migrations fails [] current s = (s, Inr current)"
| "apply_migrations fails ((version, path) # ms) current s =
     (if version \<le> current then apply_migrations fails ms current s
      else if version \<noteq> current + 1 then (s, Inl (Message ''missing migration version''))
      else if fails (ReadScript version) then (s, Inl (Wrapped ''read migration'' (Message ''embed'')))
      else if fails (BeginMigration version) then (s, Inl (Wrapped ''begin migration'' (Message ''sql'')))
      else if fails (ExecScript version) \<or> fails (SetVersion version)
      then (s, Inl (Wrapped ''apply migration'' (Message ''sql'')))
      else if fails (CommitMigration version) then (s, Inl (Wrapped ''commit migration'' (Message ''sql'')))
      else apply_migrations fails ms version \<lparr>sc_version = version, sc_applied = sc_applied s @ [path]\<rparr>)"

definition migrate :: "(migration_call \<Rightarrow> bool) \<Rightarrow> schema \<Rightarrow> schema \<times> err option" where
  "migrate fails s =
     (if fails ReadVersion then (s, Some (Wrapped ''read schema version'' (Message ''sql'')))
      else if sc_version s > latestSchemaVersion then (s, Some (Message ''database schema version is newer than supported''))
      else case apply_migrations fails migrations (sc_version s) s of
        (s1, Inl e) \<Rightarrow> (s1, Some e)
      | (s1, Inr current) \<Rightarrow>
          if current \<noteq> latestSchemaVersion then (s1, Some (Message ''database schema version does not match''))
          else (s1, None))"

text \<open>\<open>Open\<close>; \<open>connect\<close> says whether the driver or the first connection fails.\<close>

definition Open ::
  "os_env \<Rightarrow> bool \<times> bool \<Rightarrow> (migration_call \<Rightarrow> bool) \<Rightarrow> string \<Rightarrow> schema \<Rightarrow> schema \<times> (err + string)" where
  "Open env connect fails dataDir s =
     (case prepareDatabaseFile env dataDir of
        Inl e \<Rightarrow> (s, Inl e)
      | Inr (path, new) \<Rightarrow>
          if fst connect then (s, Inl (Wrapped ''open database'' (Message ''sql'')))
          else if snd connect then (s, Inl (Wrapped ''connect to database'' (Message ''sql'')))
          else (case migrate fails (if new then \<lparr>sc_version = 0, sc_applied = []\<rparr> else s) of
                  (s1, Some e) \<Rightarrow> (s1, Inl (Wrapped ''migrate database'' e))
                | (s1, None) \<Rightarrow> (s1, Inr (dsn path))))"

section \<open>Every script runs once, in order\<close>

text \<open>A schema the migrations made: the first \<open>n\<close> of them, and nothing else.\<close>

definition migrated :: "nat \<Rightarrow> schema \<Rightarrow> bool" where
  "migrated n s \<longleftrightarrow> sc_version s = int n \<and> sc_applied s = map snd (take n migrations) \<and> n \<le> length migrations"

lemma migrations_numbered: "length migrations = 5" "n < 5 \<Longrightarrow> fst (migrations ! n) = int n + 1"
proof -
  have "list_all (\<lambda>n. fst (migrations ! n) = int n + 1) [0..<5]" by code_simp
  then show "n < 5 \<Longrightarrow> fst (migrations ! n) = int n + 1" by (simp add: list_all_iff)
qed (simp add: migrations_def)

lemma drop_migrations:
  assumes "k < 5"
  obtains path where "drop k migrations = (int k + 1, path) # drop (Suc k) migrations"
    "map snd (take (Suc k) migrations) = map snd (take k migrations) @ [path]"
proof
  have k: "k < length migrations" using assms migrations_numbered(1) by simp
  show "drop k migrations = (int k + 1, snd (migrations ! k)) # drop (Suc k) migrations"
    using Cons_nth_drop_Suc [OF k] migrations_numbered(2) [OF assms] by (metis prod.collapse)
  show "map snd (take (Suc k) migrations) = map snd (take k migrations) @ [snd (migrations ! k)]"
    using k by (simp add: take_Suc_conv_app_nth)
qed

definition migration_result :: "(migration_call \<Rightarrow> bool) \<Rightarrow> nat \<Rightarrow> schema \<times> (err + int) \<Rightarrow> bool" where
  "migration_result fails n r \<longleftrightarrow>
     (\<exists>m. migrated m (fst r) \<and> n \<le> m \<and> (\<forall>c. snd r = Inr c \<longrightarrow> m = 5 \<and> c = 5))
     \<and> ((\<forall>call. \<not> fails call) \<longrightarrow> snd r = Inr 5)"

lemma stopped_result: "migrated n s \<Longrightarrow> \<exists>call. fails call \<Longrightarrow> migration_result fails n (s, Inl e)"
  by (auto simp: migration_result_def)

lemma migration_result_mono: "migration_result fails (Suc n) r \<Longrightarrow> migration_result fails n r"
  by (auto simp: migration_result_def intro: Suc_leD)

lemma apply_from:
  assumes "migrated n s" "k \<le> 5" "k \<le> n"
  shows "migration_result fails n (apply_migrations fails (drop k migrations) (int n) s)"
  using assms
proof (induction "5 - k" arbitrary: k n s)
  case 0
  then have "n = 5" "drop k migrations = []" using migrations_numbered(1) by (auto simp: migrated_def)
  with 0 show ?case by (auto simp: migration_result_def intro!: exI [of _ 5])
next
  case (Suc j)
  then have k: "k < 5" "j = 5 - Suc k" by auto
  obtain path where d: "drop k migrations = (int k + 1, path) # drop (Suc k) migrations"
    "map snd (take (Suc k) migrations) = map snd (take k migrations) @ [path]" by (rule drop_migrations [OF k(1)])
  show ?case
  proof (cases "k < n")
    case True
    then have "int k + 1 \<le> int n" by simp
    with Suc.hyps(1) [OF k(2) Suc.prems(1)] k True show ?thesis by (simp add: d)
  next
    case False
    with Suc.prems have n: "n = k" by simp
    let ?s = "\<lparr>sc_version = int k + 1, sc_applied = sc_applied s @ [path]\<rparr>"
    have m: "migrated (Suc k) ?s" using Suc.prems(1) k d(2) migrations_numbered(1) by (simp add: migrated_def n)
    have IH: "migration_result fails k (apply_migrations fails (drop (Suc k) migrations) (int k + 1) ?s)"
      using migration_result_mono [OF Suc.hyps(1) [OF k(2) m]] k by (simp add: add.commute)
    show ?thesis
      using IH stopped_result [of k s fails] Suc.prems(1)
      by (simp add: d n) blast
  qed
qed

text \<open>Whatever fails, the scripts that have been executed are the first ones, each once and in their
  order, and the version is their number; a success has executed all five; and a run that does not fail
  succeeds from any earlier version.  A failed start can therefore be repeated.\<close>

lemma migrate_sound:
  assumes "migrated n s"
  shows "\<exists>m. migrated m (fst (migrate fails s)) \<and> n \<le> m \<and> (snd (migrate fails s) = None \<longrightarrow> m = 5)"
    and "(\<And>call. \<not> fails call) \<Longrightarrow> snd (migrate fails s) = None"
proof -
  have n: "\<not> latestSchemaVersion < int n" "sc_version s = int n"
    using assms migrations_numbered(1) by (auto simp: migrated_def latestSchemaVersion_def)
  obtain s1 x where a: "apply_migrations fails migrations (int n) s = (s1, x)" by fastforce
  have r: "migration_result fails n (s1, x)" using apply_from [OF assms, of 0 fails] a by simp
  then obtain m where m: "migrated m s1" "n \<le> m" "\<forall>c. x = Inr c \<longrightarrow> m = 5 \<and> c = 5"
    by (auto simp: migration_result_def)
  show "\<exists>m. migrated m (fst (migrate fails s)) \<and> n \<le> m \<and> (snd (migrate fails s) = None \<longrightarrow> m = 5)"
  proof (cases "fails ReadVersion")
    case True
    with assms show ?thesis by (auto simp: migrate_def)
  next
    case False
    with m a n show ?thesis by (cases x) (auto simp: migrate_def)
  qed
  show "snd (migrate fails s) = None" if "\<And>call. \<not> fails call"
    using r a n that by (simp add: migrate_def migration_result_def latestSchemaVersion_def)
qed

text \<open>A database of a newer program is refused and left as it is.\<close>

lemma migrate_newer: "5 < sc_version s \<Longrightarrow> fst (migrate fails s) = s \<and> snd (migrate fails s) \<noteq> None"
  by (simp add: migrate_def latestSchemaVersion_def)

lemma Open_Inr: "Open env connect fails dataDir s = (s1, Inr d)
    \<Longrightarrow> \<exists>s0 path. migrate fails s0 = (s1, None) \<and> (s0 = s \<or> s0 = \<lparr>sc_version = 0, sc_applied = []\<rparr>) \<and> d = dsn path"
  by (auto simp: Open_def split: sum.splits prod.splits option.splits if_splits)

lemma Open_migrated:
  assumes "migrated n s" "Open env connect fails dataDir s = (s1, Inr d)"
  shows "migrated 5 s1"
proof -
  have done5: "migrated 5 s1" if "migrated k s0" "migrate fails s0 = (s1, None)" for k s0
    using migrate_sound(1) [OF that(1), of fails] that(2) by auto
  have "migrated 0 \<lparr>sc_version = 0, sc_applied = []\<rparr>" by (simp add: migrated_def)
  with Open_Inr [OF assms(2)] assms(1) show ?thesis by (blast intro: done5)
qed

text \<open>C40: Starts are safe to repeat: from a database that the first migrations made, whatever calls
  fail, every script that took effect is the next one in order and ran once, none is undone, the version
  is their number, and another start that meets no failure completes the schema from there.  A database
  is only handed to the program with all five migrations in it, and one of a newer program is refused
  and left as it is.\<close>

theorem starts_migrate:
  assumes "migrated n s" "5 < sc_version newer"
  shows "(\<exists>m. n \<le> m \<and> migrated m (fst (migrate fails s)))
    \<and> migrate (\<lambda>call. False) (fst (migrate fails s)) = (\<lparr>sc_version = 5, sc_applied = map snd migrations\<rparr>, None)
    \<and> (Open env connect fails dataDir s = (s1, Inr d) \<longrightarrow> migrated 5 s1)
    \<and> (\<exists>e. migrate fails newer = (newer, Some e))"
proof (intro conjI impI)
  from migrate_sound(1) [OF assms(1), of fails] obtain m where m: "n \<le> m" "migrated m (fst (migrate fails s))" by blast
  then show "\<exists>m. n \<le> m \<and> migrated m (fst (migrate fails s))" by blast
  have full: "s2 = \<lparr>sc_version = 5, sc_applied = map snd migrations\<rparr>" if "migrated 5 s2" for s2 :: schema
    using that migrations_numbered(1) by (simp add: migrated_def)
  obtain s2 where s2: "migrate (\<lambda>call. False) (fst (migrate fails s)) = (s2, None)"
    using migrate_sound(2) [OF m(2), of "\<lambda>call. False"] by (metis prod.collapse)
  have "migrated 5 s2" using migrate_sound(1) [OF m(2), of "\<lambda>call. False"] s2 by auto
  from s2 full [OF this]
  show "migrate (\<lambda>call. False) (fst (migrate fails s)) = (\<lparr>sc_version = 5, sc_applied = map snd migrations\<rparr>, None)" by simp
  show "migrated 5 s1" if "Open env connect fails dataDir s = (s1, Inr d)"
    using Open_migrated [OF assms(1) that] .
  show "\<exists>e. migrate fails newer = (newer, Some e)"
    using migrate_newer [OF assms(2), of fails] by (metis option.exhaust prod.collapse)
qed

text \<open>A start that loses the commit of the fourth migration, and the next one.\<close>

lemma starts_migrate_witness:
  "let s = \<lparr>sc_version = 2, sc_applied = [''migrations/0001_shares.sql'', ''migrations/0002_standard_text_payloads.sql'']\<rparr>
   in sc_version (fst (migrate (\<lambda>call. call = CommitMigration 4) s)) = 3
      \<and> migrate (\<lambda>call. False) (fst (migrate (\<lambda>call. call = CommitMigration 4) s))
          = (\<lparr>sc_version = 5, sc_applied = map snd migrations\<rparr>, None)"
proof -
  let ?s = "\<lparr>sc_version = 2, sc_applied = [''migrations/0001_shares.sql'', ''migrations/0002_standard_text_payloads.sql'']\<rparr> :: schema"
  have "migrated 2 ?s" "5 < sc_version \<lparr>sc_version = 6, sc_applied = []\<rparr>" by code_simp+
  from starts_migrate [OF this, of "\<lambda>call. call = CommitMigration 4"]
  have "migrate (\<lambda>call. False) (fst (migrate (\<lambda>call. call = CommitMigration 4) ?s))
      = (\<lparr>sc_version = 5, sc_applied = map snd migrations\<rparr>, None)" by blast
  moreover have "sc_version (fst (migrate (\<lambda>call. call = CommitMigration 4) ?s)) = 3" by code_simp
  ultimately show ?thesis by simp
qed

end
