(* ===== verification/System.thy ===== *)
theory System
  imports WebApp AdminApi Maintenance Startup
begin

text \<open>
  Program \<open>cmd/upaste\<close>: the parts built from one configuration and the handlers of the two listeners
  over their shared state.  The state is what the handlers share: the Shares and the limiter of the
  public API and the file listener, and the sessions of the administrator, when there is one.
\<close>

section \<open>Version command\<close>

text \<open>Package \<open>internal/buildinfo\<close>; \<open>go\<close> is \<open>runtime.Version()\<close>.\<close>

record build_info =
  bi_Version :: string
  bi_Commit :: string
  bi_BuildDate :: string
  bi_GoVersion :: string

definition Current :: "string \<Rightarrow> build_info" where
  "Current go = \<lparr>bi_Version = ''devel'', bi_Commit = ''unknown'', bi_BuildDate = ''unknown'', bi_GoVersion = go\<rparr>"

definition build_string :: "build_info \<Rightarrow> string" where
  "build_string info =
     ''uPaste '' @ bi_Version info @ [newline] @ ''commit: '' @ bi_Commit info @ [newline]
     @ ''built: '' @ bi_BuildDate info @ [newline] @ ''go: '' @ bi_GoVersion info @ [newline]"

text \<open>What is printed instead of running the program, if anything.\<close>

definition maybePrintVersion :: "string \<Rightarrow> string list \<Rightarrow> string option" where
  "maybePrintVersion go args =
     (if args = [''--version''] \<or> args = [''-version''] then Some (build_string (Current go)) else None)"

section \<open>The application listener\<close>

type_synonym 's handler = "http_env \<Rightarrow> http_request \<Rightarrow> 's \<Rightarrow> 's \<times> http_response"

text \<open>The pattern \<open>GET /healthz\<close> of \<open>http.ServeMux\<close>, which matches \<open>HEAD\<close> as well.\<close>

definition healthz :: "http_request \<Rightarrow> http_response" where
  "healthz r =
     (if hr_method r = ''GET'' \<or> hr_method r = ''HEAD''
      then (let q = CHR 0x22 in
        \<lparr>rs_status = 200, rs_headers = [(''Content-Type'', ''application/json; charset=utf-8'')],
         rs_body = ''{'' @ q # ''status'' @ q # '':'' @ q # ''ok'' @ q # ''}'' @ [newline]\<rparr>)
      else http_Error [(''Allow'', ''GET, HEAD'')] ''Method Not Allowed'' 405)"

definition admin_path :: "string \<Rightarrow> bool" where
  "admin_path p \<longleftrightarrow> p = ''/api/v1/admin'' \<or> has_prefix p ''/api/v1/admin/''"

definition api_path :: "string \<Rightarrow> bool" where
  "api_path p \<longleftrightarrow> has_prefix p ''/api/'' \<or> p = ''/raw'' \<or> has_prefix p ''/raw/''"

text \<open>\<open>unregistered\<close> is the answer of \<open>http.ServeMux\<close> to a path it has no pattern for: 404, or a redirect
  to the cleaned path.\<close>

definition newHandler ::
  "'s handler option \<Rightarrow> 's handler option \<Rightarrow> 's handler option \<Rightarrow> (http_request \<Rightarrow> http_response) \<Rightarrow> 's handler" where
  "newHandler api adminHTTP frontend unregistered he r s =
     (if hr_path r = ''/healthz'' then (s, healthz r)
      else if adminHTTP \<noteq> None \<and> admin_path (hr_path r) then the adminHTTP he r s
      else if api_path (hr_path r)
      then (case api of None \<Rightarrow> (s, http_NotFound []) | Some handle \<Rightarrow> handle he r s)
      else (case frontend of Some handle \<Rightarrow> handle he r s | None \<Rightarrow> (s, unregistered r)))"

section \<open>Wiring\<close>

record 'l system =
  sy_api :: "'l api_state"
  sy_manager :: "'l manager option"

text \<open>\<open>wr_web\<close> is the pointer that \<open>NewEmbedded\<close> returns, \<open>None\<close> when it is nil.\<close>

record wiring =
  wr_options :: api_options
  wr_admin :: admin_api
  wr_web :: "web option"

text \<open>What the program uses from outside: the libraries of the API, \<open>http.ServeContent\<close>, the system's
  types of extensions, and the mux.\<close>

record 'l world =
  wd_lib :: "'l lib"
  wd_serve :: content_server
  wd_extension :: "string \<Rightarrow> string"
  wd_unregistered :: "http_request \<Rightarrow> http_response"

definition retention_of :: "config \<Rightarrow> retention_policy" where
  "retention_of c = \<lparr>Public = is_public c, DefaultTTL = cf_PublicDefaultTTL c, MaxTTL = cf_PublicMaxTTL c\<rparr>"

text \<open>The state in memory of a process that has just started, on given tables and objects.\<close>

definition fresh_system :: "'l lib \<Rightarrow> config \<Rightarrow> db \<Rightarrow> fs \<Rightarrow> 'l system" where
  "fresh_system lib c d objects =
     \<lparr>sy_api = \<lparr>as_shares = \<lparr>sv_db = d, sv_store = Some objects, sv_retention = retention_of c\<rparr>,
                as_abuse = NewControl (lb_limiter lib) (cf_TrustedProxies c) 0 False\<rparr>,
      sy_manager = (if cf_AdminEnabled c then Some (NewManager (cf_AdminVerifier c) 0 (cf_AdminCookieSecure c)) else None)\<rparr>"

definition wire :: "config \<Rightarrow> verifier option \<Rightarrow> web option \<Rightarrow> wiring" where
  "wire c v frontend =
     \<lparr>wr_options = \<lparr>ao_fileOrigin = cf_FileOrigin c, ao_Public = is_public c, ao_DefaultTTL = cf_PublicDefaultTTL c,
        ao_MaxTTL = cf_PublicMaxTTL c, ao_Challenge = v, ao_ChallengeConfig = challenge_public (cf_Challenge c),
        ao_AdminEnabled = cf_AdminEnabled c\<rparr>,
      wr_admin = \<lparr>aa_fileOrigin = cf_FileOrigin c, aa_trusted = cf_TrustedProxies c, aa_cleaner = True\<rparr>,
      wr_web = frontend\<rparr>"

text \<open>\<open>run\<close> from the opened database and objects up to the listeners.\<close>

definition boot ::
  "'l lib \<Rightarrow> (string \<Rightarrow> string option) \<Rightarrow> assets option \<Rightarrow> config \<Rightarrow> db \<Rightarrow> fs \<Rightarrow> err + wiring \<times> 'l system" where
  "boot lib parse_host dist c d objects =
     (case (if ChallengeEnabled c then map_sum id Some (NewVerifier parse_host (cf_Challenge c)) else Inr None) of
        Inl e \<Rightarrow> Inl (Wrapped ''initialize challenge verifier'' e)
      | Inr v \<Rightarrow>
     (case NewEmbedded dist \<lparr>wo_AdminEnabled = cf_AdminEnabled c, wo_ChallengeProvider = cc_Provider (cf_Challenge c),
               wo_CapEndpoint = cc_CapEndpoint (cf_Challenge c)\<rparr> of
        Inl e \<Rightarrow> Inl (Wrapped ''initialize embedded frontend'' e)
      | Inr frontend \<Rightarrow> Inr (wire c v frontend, fresh_system lib c d objects)))"

text \<open>The machine the program is started on: the Go runtime, the working directory, the environment, the
  parser of host names, the embedded bundle; what the data directory holds and which of the calls
  on it fail; and whether a listener fails to open.\<close>

record machine =
  mc_go :: string
  mc_wd :: "string option"
  mc_env :: lookup_env
  mc_parse_host :: "string \<Rightarrow> string option"
  mc_dist :: "assets option"
  mc_database :: os_env
  mc_connect :: "bool \<times> bool"
  mc_migrate :: "migration_call \<Rightarrow> bool"
  mc_schema :: schema
  mc_tables :: db
  mc_root :: os_env
  mc_open_root :: bool
  mc_objects :: fs
  mc_file_listener :: bool
  mc_app_listener :: bool

text \<open>A file or a directory that is made at the start is empty.\<close>

definition start_tables :: "machine \<Rightarrow> db" where
  "start_tables mc = (if os_lstat (mc_database mc) = Some NoFile then empty_db else mc_tables mc)"

definition start_objects :: "machine \<Rightarrow> fs" where
  "start_objects mc = (if os_lstat (mc_root mc) = Some NoFile then [] else mc_objects mc)"

datatype 'l outcome =
    Printed string
  | Failed err
  | Serving config wiring "'l system"

text \<open>\<open>run\<close> up to the two listeners being open; also the schema it leaves.\<close>

definition run_main :: "'l lib \<Rightarrow> (bytes \<Rightarrow> bytes) \<Rightarrow> machine \<Rightarrow> string list \<Rightarrow> schema \<times> 'l outcome" where
  "run_main lib sha mc args =
     (case maybePrintVersion (mc_go mc) args of
        Some out \<Rightarrow> (mc_schema mc, Printed out)
      | None \<Rightarrow>
     (case Parse sha (mc_parse_host mc) (mc_wd mc) args (mc_env mc) of
        Inl e \<Rightarrow> (mc_schema mc, Failed (Wrapped ''load configuration'' e))
      | Inr c \<Rightarrow>
     (case Open (mc_database mc) (mc_connect mc) (mc_migrate mc) (cf_DataDir c) (mc_schema mc) of
        (sc, Inl e) \<Rightarrow> (sc, Failed (Wrapped ''initialize database'' e))
      | (sc, Inr source_name) \<Rightarrow>
     (case OpenLocal (mc_root mc) (mc_open_root mc) (cf_DataDir c) of
        Inl e \<Rightarrow> (sc, Failed (Wrapped ''initialize object storage'' e))
      | Inr root \<Rightarrow>
     (case boot lib (mc_parse_host mc) (mc_dist mc) c (start_tables mc) (start_objects mc) of
        Inl e \<Rightarrow> (sc, Failed e)
      | Inr (wr, sy) \<Rightarrow>
          if mc_file_listener mc then (sc, Failed (Wrapped ''listen file HTTP'' (Message ''listen'')))
          else if mc_app_listener mc then (sc, Failed (Wrapped ''listen application HTTP'' (Message ''listen'')))
          else (sc, Serving c wr sy))))))"

section \<open>The handlers on the shared state\<close>

definition api_handler :: "'l world \<Rightarrow> wiring \<Rightarrow> 'l system handler" where
  "api_handler w wr he r sy =
     (case serve_api (wd_lib w) (wr_options wr) he r (sy_api sy) of (st, resp) \<Rightarrow> (sy\<lparr>sy_api := st\<rparr>, resp))"

definition admin_handler :: "'l world \<Rightarrow> wiring \<Rightarrow> 'l manager \<Rightarrow> 'l system handler" where
  "admin_handler w wr m he r sy =
     (case serve_admin (lb_limiter (wd_lib w)) (wr_admin wr) he r \<lparr>ad_shares = as_shares (sy_api sy), ad_manager = m\<rparr> of
        (st, resp) \<Rightarrow>
          (sy\<lparr>sy_api := (sy_api sy)\<lparr>as_shares := ad_shares st\<rparr>, sy_manager := Some (ad_manager st)\<rparr>, resp))"

text \<open>When a handler panics before it has written anything, \<open>net/http\<close> closes the connection without an
  answer: status 0 stands for that.\<close>

definition no_answer :: http_response where
  "no_answer = \<lparr>rs_status = 0, rs_headers = [], rs_body = []\<rparr>"

text \<open>\<open>ServeHTTP\<close> on the pointer.  A nil pointer is dereferenced by \<open>contentSecurityPolicy\<close>, the first call
  that reads the handler, before any header is set.\<close>

definition web_handler :: "'l world \<Rightarrow> web option \<Rightarrow> 'l system handler" where
  "web_handler w pointer he r sy =
     (sy, case pointer of None \<Rightarrow> no_answer | Some frontend \<Rightarrow> serve_web (wd_serve w) (wd_extension w) frontend he r)"

text \<open>The application listener and the file listener.  The frontend that \<open>newHandler\<close> gets is the pointer
  converted to \<open>http.Handler\<close>, which is not nil even when the pointer is.\<close>

definition serve_app :: "'l world \<Rightarrow> wiring \<Rightarrow> 'l system handler" where
  "serve_app w wr he r sy =
     newHandler (Some (api_handler w wr)) (map_option (admin_handler w wr) (sy_manager sy))
       (Some (web_handler w (wr_web wr))) (wd_unregistered w) he r sy"

definition serve_downloads :: "'l world \<Rightarrow> 'l system handler" where
  "serve_downloads w he r sy =
     (case serve_file (wd_lib w) (wd_serve w) he r (sy_api sy) of (st, resp) \<Rightarrow> (sy\<lparr>sy_api := st\<rparr>, resp))"

text \<open>The function \<open>run\<close> inside \<open>maintenance.Start\<close>, whose outcome is only logged: one run on the shared
  state.\<close>

definition maintain :: "(nat \<Rightarrow> env) \<Rightarrow> time \<Rightarrow> service \<Rightarrow> service" where
  "maintain envs now s =
     (case sv_store s of
        None \<Rightarrow> s
      | Some objects \<Rightarrow>
          (case RunOnce envs now (sv_db s) objects of (d, objects', res, e) \<Rightarrow> s\<lparr>sv_db := d, sv_store := Some objects'\<rparr>))"

definition run_maintenance :: "(nat \<Rightarrow> env) \<Rightarrow> time \<Rightarrow> 'l system \<Rightarrow> 'l system" where
  "run_maintenance envs now sy =
     sy\<lparr>sy_api := (sy_api sy)\<lparr>as_shares := maintain envs now (as_shares (sy_api sy))\<rparr>\<rparr>"

text \<open>\<open>maintenance.Start\<close> makes a run at once and one for every tick that arrives before the context ends;
  each brings its environments and its time.\<close>

definition Start :: "(nat \<Rightarrow> env) \<Rightarrow> time \<Rightarrow> ((nat \<Rightarrow> env) \<times> time) list \<Rightarrow> 'l system \<Rightarrow> 'l system" where
  "Start envs now ticks sy = fold (\<lambda>(es, t). run_maintenance es t) ticks (run_maintenance envs now sy)"

text \<open>The process ends, however it ends, and is started again with the same configuration.\<close>

definition restart :: "'l lib \<Rightarrow> config \<Rightarrow> 'l system \<Rightarrow> 'l system" where
  "restart lib c sy =
     (case sv_store (as_shares (sy_api sy)) of
        None \<Rightarrow> sy
      | Some objects \<Rightarrow> fresh_system lib c (sv_db (as_shares (sy_api sy))) objects)"

end
