(* ===== verification/ConfigProps.thy ===== *)
theory ConfigProps
  imports Config ShareRetention Samples
begin

text \<open>
  What a configuration that \<open>Parse\<close> returns is good for: the rest of the program relies on it
  without checking again.
\<close>

section \<open>Paths\<close>

text \<open>Elements of a cleaned absolute path.\<close>

definition plain_element :: "string \<Rightarrow> bool" where
  "plain_element c \<longleftrightarrow> c \<noteq> [] \<and> c \<noteq> ''.'' \<and> c \<noteq> ''..'' \<and> CHR ''/'' \<notin> set c"

lemma clean_elements_plain:
  "list_all plain_element acc \<Longrightarrow> \<forall>c\<in>set cs. CHR ''/'' \<notin> set c \<Longrightarrow> list_all plain_element (clean_elements True acc cs)"
proof (induction cs arbitrary: acc)
  case (Cons c cs)
  have tail: "list_all plain_element as" if "acc = a # as" for a as using Cons.prems(1) that by simp
  have "acc = a # as \<Longrightarrow> a \<noteq> ''..''" for a as using Cons.prems(1) by (simp add: plain_element_def)
  with Cons tail show ?case by (cases acc) (simp_all add: plain_element_def)
qed (simp add: list_all_iff)

lemma Clean_rooted:
  assumes "has_prefix p ''/''"
  obtains cs where "Clean p = CHR ''/'' # join_with ''/'' cs" "list_all plain_element cs"
proof
  show "list_all plain_element (clean_elements True [] (split_on (CHR ''/'') p))"
    by (rule clean_elements_plain) (use split_on_no_sep in auto)
  show "Clean p = CHR ''/'' # join_with ''/'' (clean_elements True [] (split_on (CHR ''/'') p))"
    using assms by (simp add: Clean_def)
qed

lemma Abs_rooted:
  assumes "Abs cwd p = Some q" "\<And>wd. cwd = Some wd \<Longrightarrow> has_prefix wd ''/''"
  obtains cs where "q = CHR ''/'' # join_with ''/'' cs" "list_all plain_element cs"
proof (cases "has_prefix p ''/''")
  case True
  then show ?thesis using that assms(1) Clean_rooted [OF True] by (auto simp: Abs_def)
next
  case False
  with assms obtain wd where wd: "cwd = Some wd" "has_prefix wd ''/''"
    "q = Clean ((if wd = [] then [] else wd @ ''/'') @ p)" by (auto simp: Abs_def)
  from wd(2) have "has_prefix ((if wd = [] then [] else wd @ ''/'') @ p) ''/''" by (auto simp: has_prefix_iff)
  with Clean_rooted [of "(if wd = [] then [] else wd @ ''/'') @ p"] wd(3) that show ?thesis by metis
qed

section \<open>The parts of a configuration\<close>

definition prefix_ok :: "prefix \<Rightarrow> bool" where
  "prefix_ok p \<longleftrightarrow> px_addr p \<noteq> NoAddr \<and> px_bits p \<le> (if is_v4 (px_addr p) then 32 else 128) \<and> Masked p = p"

lemma keep_bits_idem [simp]: "keep_bits n (keep_bits n w) = keep_bits n w"
  by (rule bit_word_eqI) (auto simp: keep_bits_def bit_push_bit_iff bit_drop_bit_eq)

lemma Masked_idem [simp]: "Masked (Masked p) = Masked p"
  by (cases "px_addr p") (simp_all add: Masked_def)

lemma ParseAddr_some: "ParseAddr s = Some a \<Longrightarrow> a \<noteq> NoAddr"
  by (auto simp: ParseAddr_def parse_v6_def Let_def split: option.splits if_splits list.splits)

lemma ParsePrefix_ok: "ParsePrefix s = Some p \<Longrightarrow> prefix_ok (Masked p)"
  by (cases "px_addr p")
     (auto simp: ParsePrefix_def prefix_ok_def Masked_def nat_le_iff dest: ParseAddr_some
       split: option.splits prod.splits if_splits addr.splits)

lemma parse_prefixes_ok: "parse_prefixes parts = Some ps \<Longrightarrow> list_all prefix_ok ps"
  by (induction parts arbitrary: ps) (auto dest: ParsePrefix_ok split: option.splits)

definition address_ok :: "string \<Rightarrow> bool" where
  "address_ok a \<longleftrightarrow> (\<exists>host port n. SplitHostPort a = Some (host, port) \<and> host \<noteq> [] \<and> parse_int64 port = Some n
     \<and> 1 \<le> n \<and> n \<le> 65535)"

lemma validateAddress_ok: "validateAddress a = None \<longleftrightarrow> address_ok a"
  by (auto simp: validateAddress_def address_ok_def split: option.splits if_splits)

text \<open>A bare origin: scheme and host, where the host is what the parser makes of an authority that has no
  credentials and holds nothing of a path, a query or a fragment.\<close>

definition origin_ok :: "(string \<Rightarrow> string option) \<Rightarrow> string \<Rightarrow> bool" where
  "origin_ok parse_host s \<longleftrightarrow>
     (\<exists>scheme\<in>{''http'', ''https''}. \<exists>authority host. parse_host authority = Some host \<and> host \<noteq> []
        \<and> (\<forall>c\<in>set authority. c \<notin> set ''/?#@'' \<and> 32 \<le> byte c \<and> byte c \<noteq> 127) \<and> s = scheme @ ''://'' @ host)"

lemma cut_set: "cut c s = Some (a, b) \<Longrightarrow> c \<notin> set a \<and> set a \<subseteq> set s" "cut c s = None \<Longrightarrow> c \<notin> set s"
  by (auto simp: cut_def split: if_splits dest: set_takeWhileD)

lemma get_scheme_set: "get_scheme s = Some (scheme, rest) \<Longrightarrow> set rest \<subseteq> set s"
proof -
  have "set (tl (drop n s)) \<subseteq> set s" for n
    using set_drop_subset [of "Suc n" s] by (simp add: drop_Suc tl_drop)
  then show "get_scheme s = Some (scheme, rest) \<Longrightarrow> set rest \<subseteq> set s"
    by (auto simp: get_scheme_def Let_def split: if_splits)
qed

lemma split_query_set: "split_query s = (rest, q) \<Longrightarrow> CHR ''?'' \<notin> set rest \<and> set rest \<subseteq> set s"
  using cut_set [of "CHR ''?''" s] by (auto simp: split_query_def split: option.splits)

lemma parse_url_host:
  assumes "parse_url parse_host raw = Some u" "\<not> u_user u" "u_host u \<noteq> []"
  shows "\<exists>authority. parse_host authority = Some (u_host u)
    \<and> (\<forall>c\<in>set authority. c \<notin> set ''/?#@'' \<and> 32 \<le> byte c \<and> byte c \<noteq> 127)"
proof -
  obtain t frag where t: "(case cut (CHR ''#'') raw of None \<Rightarrow> (raw, []) | Some af \<Rightarrow> af) = (t, frag)" by fastforce
  have t_ok: "CHR ''#'' \<notin> set t" using t cut_set [of "CHR ''#''" raw] by (auto split: option.splits)
  have printable: "\<not> (\<exists>c\<in>set t. byte c < 32 \<or> byte c = 127)"
  proof
    assume "\<exists>c\<in>set t. byte c < 32 \<or> byte c = 127"
    then have "parse_url parse_host raw = None" by (simp only: parse_url_def t Let_def prod.case if_True)
    with assms(1) show False by simp
  qed
  have "get_scheme t \<noteq> None"
  proof
    assume "get_scheme t = None"
    then have "parse_url parse_host raw = None" by (simp only: parse_url_def t Let_def prod.case option.case if_cancel)
    with assms(1) show False by simp
  qed
  then obtain scheme r0 where sch: "get_scheme t = Some (scheme, r0)" by auto
  obtain rest query where q: "split_query r0 = (rest, query)" by fastforce
  let ?a = "takeWhile (\<lambda>c. c \<noteq> CHR ''/'') (drop 2 rest)"
  have "has_prefix rest ''//''"
  proof (rule ccontr)
    assume "\<not> has_prefix rest ''//''"
    with assms(1) printable have "u_host u = []"
      by (simp only: parse_url_def t Let_def prod.case option.case sch q if_False if_True simp_thms) auto
    with assms(3) show False by simp
  qed
  with assms(1,2) printable have a: "CHR ''@'' \<notin> set ?a"
    "parse_host (case split_last (CHR ''@'') ?a of None \<Rightarrow> ?a | Some (i, h) \<Rightarrow> h) = Some (u_host u)"
    by (simp only: parse_url_def t Let_def prod.case option.case sch q if_False if_True simp_thms, auto split: option.splits)+
  from a(1) have "split_last (CHR ''@'') ?a = None" by (simp add: split_last_def)
  with a(2) have host: "parse_host ?a = Some (u_host u)" by simp
  have "set ?a \<subseteq> set rest" by (auto dest: set_takeWhileD in_set_dropD)
  moreover have "CHR ''/'' \<notin> set ?a" by (auto dest: set_takeWhileD)
  ultimately have "\<forall>c\<in>set ?a. c \<notin> set ''/?#@'' \<and> 32 \<le> byte c \<and> byte c \<noteq> 127"
    using a(1) t_ok printable get_scheme_set [OF sch] split_query_set [OF q] by (auto simp: not_less)
  with host show ?thesis by blast
qed

lemma normalizeOrigin_ok:
  assumes "normalizeOrigin parse_host v = Inr s"
  shows "origin_ok parse_host s"
proof -
  from assms obtain u where u: "parse_url parse_host (trim_space v) = Some u" "\<not> u_user u" "u_host u \<noteq> []"
    "u_scheme u \<in> {''http'', ''https''}" "s = u_scheme u @ ''://'' @ u_host u"
    by (auto simp: normalizeOrigin_def split: option.splits if_splits)
  with parse_url_host [OF u(1-3)] show ?thesis unfolding origin_ok_def by blast
qed

definition config_ok :: "(bytes \<Rightarrow> bytes) \<Rightarrow> (string \<Rightarrow> string option) \<Rightarrow> config \<Rightarrow> bool" where
  "config_ok sha parse_host c \<longleftrightarrow>
     (0 < cf_PublicDefaultTTL c \<and> cf_PublicDefaultTTL c \<le> cf_PublicMaxTTL c \<and> cf_PublicMaxTTL c < 2 ^ 63)
     \<and> 0 < cf_ChallengeTimeout c
     \<and> (is_public c \<longleftrightarrow> ChallengeEnabled c)
     \<and> (is_public c \<longrightarrow> (\<exists>v. NewVerifier parse_host (cf_Challenge c) = Inr v) \<and> cf_AdminEnabled c \<and> cf_AdminCookieSecure c)
     \<and> (cf_AdminEnabled c \<longrightarrow> (\<exists>t. admin_accepts t \<and> cf_AdminVerifier c = sha t))
     \<and> address_ok (cf_Addr c) \<and> address_ok (cf_FileAddr c) \<and> cf_Addr c \<noteq> cf_FileAddr c
     \<and> origin_ok parse_host (cf_FileOrigin c) \<and> list_all prefix_ok (cf_TrustedProxies c)
     \<and> (\<exists>cs. cf_DataDir c = CHR ''/'' # join_with ''/'' cs \<and> list_all plain_element cs)"

lemma parse_ttls_ok:
  assumes "parse_ttls lookup = Inr (d, m, t)"
  shows "0 < d \<and> d \<le> m \<and> m < 2 ^ 63 \<and> 0 < t"
proof -
  have range: "x < 2 ^ 63" if "envDuration lookup name fb = Inr x" "fb < 2 ^ 63" for name fb x
    using that ParseDuration_range by (auto simp: envDuration_def split: option.splits if_splits)
  have "defaultPublicMaxTTL < 2 ^ 63" by (simp add: defaultPublicMaxTTL_def hour_def minute_def second_def)
  with assms show ?thesis
    by (auto simp: parse_ttls_def split: sum.splits if_splits dest: range)
qed

lemma NewVerifier_complete:
  assumes "validate_challenge parse_host c = None"
  shows "\<exists>v. NewVerifier parse_host c = Inr v"
  using assms by (auto simp: NewVerifier_def validate_challenge_def split: sum.splits if_splits)

lemma parse_provider_ok:
  assumes "parse_provider parse_host lookup m = Inr c"
  shows "(m = ModePublic \<longleftrightarrow> cc_Provider c \<noteq> []) \<and> (m = ModePublic \<longrightarrow> (\<exists>v. NewVerifier parse_host c = Inr v))"
  using assms by (cases m) (auto simp: parse_provider_def intro: NewVerifier_complete split: sum.splits if_splits option.splits)

lemma parse_admin_ok:
  assumes "parse_admin sha lookup m = Inr (enabled, v, secure)"
  shows "(m = ModePublic \<longrightarrow> enabled \<and> secure) \<and> (enabled \<longrightarrow> (\<exists>t. admin_accepts t \<and> v = sha t))"
proof -
  have "\<exists>t. admin_accepts t \<and> admin_verifier sha a = sha t" if "ParseToken s = Inr a" for s a
  proof -
    from that have "a = AdminToken s" by (simp add: ParseToken_Inr_iff)
    with that have "admin_accepts s" "admin_verifier sha a = sha s" by (simp_all add: admin_accepts_iff admin_verifier_def)
    then show ?thesis by blast
  qed
  with assms show ?thesis
    by (auto simp: parse_admin_def Let_def split: sum.splits if_splits option.splits)
qed

lemma parse_listeners_ok:
  assumes "parse_listeners parse_host cwd v = Inr (addr, fileAddr, origin, ps, dir)"
    and "\<And>wd. cwd = Some wd \<Longrightarrow> has_prefix wd ''/''"
  shows "address_ok addr \<and> address_ok fileAddr \<and> addr \<noteq> fileAddr \<and> origin_ok parse_host origin \<and> list_all prefix_ok ps
    \<and> (\<exists>cs. dir = CHR ''/'' # join_with ''/'' cs \<and> list_all plain_element cs)"
proof -
  from assms(1) have "Abs cwd (Clean (trim_space (fl_dataDir v))) = Some dir"
    by (auto simp: parse_listeners_def Let_def split: sum.splits if_splits option.splits)
  from Abs_rooted [OF this assms(2)] obtain cs where
    "dir = CHR ''/'' # join_with ''/'' cs" "list_all plain_element cs" by metis
  moreover from assms(1) have "list_all prefix_ok ps"
    by (auto simp: parse_listeners_def parseCIDRs_def Let_def split: sum.splits if_splits option.splits
        dest: parse_prefixes_ok)
  ultimately show ?thesis
    using assms(1)
    by (auto simp: parse_listeners_def Let_def validateAddress_ok dest: normalizeOrigin_ok
        split: sum.splits if_splits option.splits)
qed

lemma Parse_parts:
  assumes "Parse sha parse_host cwd args lookup = Inr c"
  obtains v where "parse_flags (env_flags lookup) args = Inr (v, [])"
    and "parse_mode lookup = Inr (cf_Mode c)"
    and "parse_ttls lookup = Inr (cf_PublicDefaultTTL c, cf_PublicMaxTTL c, cf_ChallengeTimeout c)"
    and "parse_provider parse_host lookup (cf_Mode c) = Inr (cf_Challenge c)"
    and "parse_admin sha lookup (cf_Mode c) = Inr (cf_AdminEnabled c, cf_AdminVerifier c, cf_AdminCookieSecure c)"
    and "parse_listeners parse_host cwd v = Inr (cf_Addr c, cf_FileAddr c, cf_FileOrigin c, cf_TrustedProxies c, cf_DataDir c)"
  using assms by (auto simp: Parse_def split: sum.splits if_splits prod.splits)

text \<open>C36: Whatever the environment and the command line hold, a configuration that \<open>Parse\<close> returns is
  usable as it is: the lifetimes of a public deployment are positive, ordered and within 64 bits;
  a deployment is public exactly when it has a challenge provider, whose verifier can then be built,
  and a public one has an administrator (with the digest of a well formed token) and secure cookies;
  the two listen addresses are valid and differ, the file origin is a bare origin
  (http or https and a host, without credentials, path, query or fragment), the trusted
  prefixes are masked, and the data directory is absolute without dot elements.\<close>

theorem parsed_config_ok:
  assumes "Parse sha parse_host cwd args lookup = Inr c" "\<And>wd. cwd = Some wd \<Longrightarrow> has_prefix wd ''/''"
  shows "config_ok sha parse_host c"
  using assms(1)
proof (rule Parse_parts)
  fix v
  assume p: "parse_ttls lookup = Inr (cf_PublicDefaultTTL c, cf_PublicMaxTTL c, cf_ChallengeTimeout c)"
    "parse_provider parse_host lookup (cf_Mode c) = Inr (cf_Challenge c)"
    "parse_admin sha lookup (cf_Mode c) = Inr (cf_AdminEnabled c, cf_AdminVerifier c, cf_AdminCookieSecure c)"
    "parse_listeners parse_host cwd v = Inr (cf_Addr c, cf_FileAddr c, cf_FileOrigin c, cf_TrustedProxies c, cf_DataDir c)"
  show ?thesis
    unfolding config_ok_def is_public_def ChallengeEnabled_def
    using parse_ttls_ok [OF p(1)] parse_provider_ok [OF p(2)] parse_admin_ok [OF p(3)]
      parse_listeners_ok [OF p(4) assms(2)] by blast
qed

definition public_env :: lookup_env where
  "public_env = Some (map_of
     [(''UPASTE_DEPLOYMENT_MODE'', '' Public''), (''UPASTE_PUBLIC_DEFAULT_TTL'', ''60m''), (''UPASTE_PUBLIC_MAX_TTL'', ''24h''),
      (''UPASTE_CHALLENGE_PROVIDER'', ''turnstile''), (''UPASTE_TURNSTILE_SITE_KEY'', ''site''),
      (''UPASTE_TURNSTILE_SECRET_KEY'', ''secret''), (''UPASTE_TURNSTILE_HOSTNAME'', ''paste.example''),
      (''UPASTE_ADMIN_TOKEN'', TokenPrefix @ b64_encode (replicate 32 (CHR ''a''))),
      (''UPASTE_TRUSTED_PROXY_CIDRS'', ''10.1.2.3/8'')])"

definition public_args :: "string list" where
  "public_args = [''-addr'', ''0.0.0.0:80'', ''--data-dir=/srv/../data'']"

definition public_config :: config where
  "public_config = (case Parse sample_sha Some None public_args public_env of Inr c \<Rightarrow> c)"

lemma public_parsed:
  "case Parse sample_sha Some None public_args public_env of Inl e \<Rightarrow> False
   | Inr c \<Rightarrow> is_public c \<and> cf_PublicDefaultTTL c = hour \<and> cf_PublicMaxTTL c = 24 * hour \<and> cf_AdminEnabled c
       \<and> cf_DataDir c = ''/data'' \<and> cf_TrustedProxies c = [\<lparr>px_addr = V4 0x0A000000, px_bits = 8\<rparr>]"
  by code_simp

lemma public_config:
  "Parse sample_sha Some None public_args public_env = Inr public_config"
  "is_public public_config" "cf_PublicDefaultTTL public_config = hour" "cf_PublicMaxTTL public_config = 24 * hour"
  "cf_TrustedProxies public_config = [\<lparr>px_addr = V4 0x0A000000, px_bits = 8\<rparr>]" "cf_AdminEnabled public_config"
  using public_parsed by (simp_all add: public_config_def split: sum.splits)

lemma parsed_config_ok_witness:
  "Parse sample_sha Some None public_args public_env = Inr public_config \<and> config_ok sample_sha Some public_config"
  using public_config(1) parsed_config_ok [OF public_config(1)] by simp

end
