(* ===== verification/SystemLaws.thy ===== *)
theory SystemLaws
  imports System HttpProps AdminApiLaws ConfigProps
begin

text \<open>
  The whole program as a state machine: one step is a request on a listener, a maintenance run, or a
  restart.  Every step keeps the invariants of the shared state, and one that changes a Share has
  an authority for it.
\<close>

section \<open>Events and steps\<close>

datatype event =
    AppRequest http_env http_request
  | FileRequest http_env http_request
  | MaintenanceRun "nat \<Rightarrow> env" time
  | Restart

abbreviation shares_of :: "'l system \<Rightarrow> service" where
  "shares_of sy \<equiv> as_shares (sy_api sy)"

abbreviation stored_at :: "'l system \<Rightarrow> string \<Rightarrow> (share \<times> bytes) option" where
  "stored_at sy \<equiv> abs_db (sv_db (shares_of sy))"

text \<open>A request to the application draws sound randomness, under the one digest, and no upload draws
  the key of a stored object.\<close>

inductive system_step ::
  "'l world \<Rightarrow> wiring \<Rightarrow> config \<Rightarrow> (bytes \<Rightarrow> bytes) \<Rightarrow> event \<Rightarrow> 'l system \<Rightarrow> 'l system \<Rightarrow> bool"
  for w wr c sha where
  app: "he_ok he \<Longrightarrow> sha_of he = sha \<Longrightarrow> key_free he (shares_of sy) \<Longrightarrow> serve_app w wr he r sy = (sy', resp)
    \<Longrightarrow> system_step w wr c sha (AppRequest he r) sy sy'"
| download: "serve_downloads w he r sy = (sy', resp) \<Longrightarrow> system_step w wr c sha (FileRequest he r) sy sy'"
| maintenance: "sy' = run_maintenance envs now sy \<Longrightarrow> system_step w wr c sha (MaintenanceRun envs now) sy sy'"
| restarted: "sy' = restart (wd_lib w) c sy \<Longrightarrow> system_step w wr c sha Restart sy sy'"

inductive_cases system_stepE: "system_step w wr c sha e sy sy'"

inductive runs ::
  "'l world \<Rightarrow> wiring \<Rightarrow> config \<Rightarrow> (bytes \<Rightarrow> bytes) \<Rightarrow> event list \<Rightarrow> 'l system \<Rightarrow> 'l system \<Rightarrow> bool"
  for w wr c sha where
  runs_nil: "runs w wr c sha [] sy sy"
| runs_cons: "system_step w wr c sha e sy sy1 \<Longrightarrow> runs w wr c sha es sy1 sy' \<Longrightarrow> runs w wr c sha (e # es) sy sy'"

inductive_simps runs_nil_iff [simp]: "runs w wr c sha [] sy sy'"
inductive_simps runs_cons_iff: "runs w wr c sha (e # es) sy sy'"

lemma Start_runs:
  "runs w wr c sha (MaintenanceRun envs now # map (\<lambda>(es, t). MaintenanceRun es t) ticks) sy (Start envs now ticks sy)"
proof -
  have "runs w wr c sha (map (\<lambda>(es, t). MaintenanceRun es t) ticks) sy1
      (fold (\<lambda>(es, t). run_maintenance es t) ticks sy1)" for sy1
    by (induction ticks arbitrary: sy1) (auto simp: runs_cons_iff intro: system_step.maintenance)
  then show ?thesis by (auto simp: Start_def intro: runs.runs_cons system_step.maintenance)
qed

section \<open>The invariant\<close>

definition system_ok :: "config \<Rightarrow> 'l system \<Rightarrow> bool" where
  "system_ok c sy \<longleftrightarrow>
     api_ok (sy_api sy) \<and> (\<forall>m. sy_manager sy = Some m \<longrightarrow> manager_ok m)
     \<and> sv_retention (shares_of sy) = retention_of c \<and> sv_store (shares_of sy) \<noteq> None"

text \<open>What entitles an event to change the Share at \<open>i\<close>.\<close>

definition owner_event :: "(bytes \<Rightarrow> bytes) \<Rightarrow> string \<Rightarrow> bytes \<Rightarrow> event \<Rightarrow> bool" where
  "owner_event sha i v e \<longleftrightarrow>
     (\<exists>he r cand. e = AppRequest he r \<and> hr_method r \<in> {''PATCH'', ''DELETE''} \<and> hr_path r = ''/api/v1/shares/'' @ i
        \<and> bearer r = Some cand \<and> owner_accepts cand \<and> sha cand = v)"

definition admin_event :: "'l system \<Rightarrow> event \<Rightarrow> bool" where
  "admin_event sy e \<longleftrightarrow>
     (\<exists>he r m s. e = AppRequest he r \<and> admin_path (hr_path r) \<and> sy_manager sy = Some m \<and> admitted he r m s
        \<and> hdr_values CSRFHeaderName (hr_headers r) = [CSRFToken s])"

definition expiry_event :: "share \<Rightarrow> event \<Rightarrow> bool" where
  "expiry_event x e \<longleftrightarrow> (\<exists>envs now. e = MaintenanceRun envs now \<and> IsExpired (ExpiresAt x) now)"

section \<open>What a step does\<close>

text \<open>A step that leaves the Shares as they are.\<close>

lemma file_route_state:
  "as_shares (fst (file_route lib serve he h r st)) = as_shares st
    \<and> (control_ok (as_abuse st) \<longrightarrow> control_ok (as_abuse (fst (file_route lib serve he h r st))))"
proof -
  let ?c = "as_abuse st"
  obtain c b where a: "Allow (lb_limiter lib) (ev_now (he_env he 0)) (hr_remote r) (hdr_get ''X-Forwarded-For'' (hr_headers r))
      ReadKind ?c = (c, b)" by fastforce
  obtain c1 b1 where d: "TryDownload c = (c1, b1)" by fastforce
  have c: "control_ok c" if "control_ok ?c" using control_ok_Allow [OF that] a by (metis fst_conv)
  have c1: "control_ok c1" if "control_ok ?c" using control_ok_slots(2) [OF c [OF that]] d by simp
  have "control_ok (release_download c1)" if "control_ok ?c"
    using control_ok_slots(4) [OF c1 [OF that]] c1 [OF that] by (simp add: release_download_def split: option.split)
  with a d c c1 show ?thesis by (cases b; cases b1) (simp_all add: file_route_def)
qed

lemma serve_downloads_shares:
  assumes "serve_downloads w he r sy = (sy', resp)"
  shows "shares_of sy' = shares_of sy" "sy_manager sy' = sy_manager sy"
    "control_ok (as_abuse (sy_api sy)) \<Longrightarrow> control_ok (as_abuse (sy_api sy'))"
proof -
  let ?route = "\<lambda>h. fst (file_route (wd_lib w) (wd_serve w) he h r (sy_api sy))"
  have "sy' = sy\<lparr>sy_api := fst (serve_file (wd_lib w) (wd_serve w) he r (sy_api sy))\<rparr>"
    using assms by (simp add: serve_downloads_def case_prod_beta)
  moreover have "\<exists>h. fst (serve_file (wd_lib w) (wd_serve w) he r (sy_api sy)) = ?route h"
    by (auto simp: serve_file_def case_prod_beta)
  ultimately obtain h where "sy' = sy\<lparr>sy_api := ?route h\<rparr>" by auto
  with file_route_state [of "wd_lib w" "wd_serve w" he h r "sy_api sy"]
  show "shares_of sy' = shares_of sy" "sy_manager sy' = sy_manager sy"
    "control_ok (as_abuse (sy_api sy)) \<Longrightarrow> control_ok (as_abuse (sy_api sy'))" by simp_all
qed

lemma serve_app_cases:
  assumes s: "serve_app w wr he r sy = (sy', resp)"
  obtains (other) "sy' = sy"
  | (api) st where "serve_api (wd_lib w) (wr_options wr) he r (sy_api sy) = (st, resp)" "sy' = sy\<lparr>sy_api := st\<rparr>"
  | (admin) m st where "sy_manager sy = Some m" "admin_path (hr_path r)"
      "serve_admin (lb_limiter (wd_lib w)) (wr_admin wr) he r \<lparr>ad_shares = shares_of sy, ad_manager = m\<rparr> = (st, resp)"
      "sy' = sy\<lparr>sy_api := (sy_api sy)\<lparr>as_shares := ad_shares st\<rparr>, sy_manager := Some (ad_manager st)\<rparr>"
proof -
  obtain st resp1 where a: "serve_api (wd_lib w) (wr_options wr) he r (sy_api sy) = (st, resp1)" by fastforce
  consider (1) "hr_path r = ''/healthz''"
    | (2) m where "hr_path r \<noteq> ''/healthz''" "sy_manager sy = Some m" "admin_path (hr_path r)"
    | (3) "hr_path r \<noteq> ''/healthz''" "\<not> (sy_manager sy \<noteq> None \<and> admin_path (hr_path r))" "api_path (hr_path r)"
    | (4) "hr_path r \<noteq> ''/healthz''" "\<not> (sy_manager sy \<noteq> None \<and> admin_path (hr_path r))" "\<not> api_path (hr_path r)" by blast
  then show ?thesis
  proof cases
    case 1
    with s other show ?thesis by (simp add: serve_app_def newHandler_def)
  next
    case 2
    obtain st2 resp2 where d: "serve_admin (lb_limiter (wd_lib w)) (wr_admin wr) he r
        \<lparr>ad_shares = shares_of sy, ad_manager = m\<rparr> = (st2, resp2)" by fastforce
    with 2 s have "resp2 = resp"
      "sy' = sy\<lparr>sy_api := (sy_api sy)\<lparr>as_shares := ad_shares st2\<rparr>, sy_manager := Some (ad_manager st2)\<rparr>"
      by (simp_all add: serve_app_def newHandler_def admin_handler_def)
    with 2 d admin show ?thesis by metis
  next
    case 3
    with s a have "resp1 = resp" "sy' = sy\<lparr>sy_api := st\<rparr>"
      by (cases "sy_manager sy", simp_all add: serve_app_def newHandler_def api_handler_def)+
    with a api show ?thesis by metis
  next
    case 4
    with s other show ?thesis
      by (cases "wr_web wr"; cases "sy_manager sy") (simp_all add: serve_app_def newHandler_def web_handler_def)
  qed
qed

lemma maintain_shrinks: "service_shrinks s (maintain envs now s)"
  by (auto simp: maintain_def split: option.splits prod.splits intro: RunOnce_shrinks)

lemma maintain_purges:
  assumes "service_ok s"
  shows "purged now (abs_db (sv_db s)) (abs_db (sv_db (maintain envs now s)))"
  using RunOnce_safe [of envs now "sv_db s" _ _ _ _ _] service_okD [OF assms]
  by (auto simp: maintain_def split: option.splits prod.splits)

lemma restart_shares:
  assumes "system_ok c sy"
  shows "sv_db (shares_of (restart lib c sy)) = sv_db (shares_of sy)" "system_ok c (restart lib c sy)"
proof -
  from assms obtain fs where fs: "sv_store (shares_of sy) = Some fs" by (auto simp: system_ok_def)
  from assms have "retention_ok (shares_of sy)" "sv_retention (shares_of sy) = retention_of c"
    by (simp_all add: system_ok_def api_ok_def)
  with assms have "api_ok (sy_api (restart lib c sy))"
    by (simp add: restart_def fs fresh_system_def system_ok_def api_ok_def service_ok_def retention_ok_def control_ok_New)
  then show "sv_db (shares_of (restart lib c sy)) = sv_db (shares_of sy)" "system_ok c (restart lib c sy)"
    by (simp_all add: restart_def fs fresh_system_def system_ok_def manager_ok_New)
qed

lemma framed_ok:
  assumes "system_ok c sy" "framed (shares_of sy) (shares_of sy')"
  shows "sv_retention (shares_of sy') = retention_of c \<and> sv_store (shares_of sy') \<noteq> None"
  using assms by (simp add: system_ok_def framed_def)

text \<open>One step keeps the invariant, and one that changes a Share has an authority.\<close>

lemma app_step:
  assumes ok: "system_ok c sy" and he: "he_ok he" "key_free he (shares_of sy)"
    and s: "serve_app w wr he r sy = (sy', resp)"
  shows "system_ok c sy'
    \<and> (stored_at sy i = Some (x, v) \<and> stored_at sy' i \<noteq> stored_at sy i
        \<longrightarrow> owner_event (sha_of he) i v (AppRequest he r) \<or> admin_event sy (AppRequest he r))"
  using s
proof (cases rule: serve_app_cases)
  case other
  with ok show ?thesis by simp
next
  case (api st)
  have h: "handled he r (shares_of sy) (as_shares st) resp' \<and> control_ok (as_abuse st)" 
    if "serve_api (wd_lib w) (wr_options wr) he r (sy_api sy) = (st, resp')" for resp'
    using serve_api_handled [OF he(1) _ he(2) that] ok by (simp add: system_ok_def api_ok_def)
  note hd = h [OF api(1)]
  have "framed (shares_of sy) (as_shares st)"
    using framed_serve_api [of "sy_api sy" "wd_lib w" "wr_options wr" he r] api(1) by simp
  with hd ok api(2) framed_ok [OF ok, of sy'] have "system_ok c sy'"
    by (simp add: system_ok_def api_ok_def handled_def)
  moreover have "owner_event (sha_of he) i v (AppRequest he r)"
    if "stored_at sy i = Some (x, v)" "stored_at sy' i \<noteq> stored_at sy i"
  proof -
    from hd have "share_step he r (abs_db (sv_db (shares_of sy))) (rs_status resp) (abs_db (sv_db (as_shares st)))"
      by (simp add: handled_def)
    then show ?thesis
      by (cases rule: share_step.cases) (use that api(2) in \<open>auto simp: owner_event_def split: if_splits\<close>)
  qed
  ultimately show ?thesis by blast
next
  case (admin m st)
  note st = serve_admin_step [OF admin(3) he(1)] admin_login_step [of _ _ _ _ _ _ st]
  have m: "manager_ok m" using ok admin(1) by (simp add: system_ok_def)
  have sh: "service_shrinks (shares_of sy) (ad_shares st) \<and> manager_ok (ad_manager st)
      \<and> (ad_shares st \<noteq> shares_of sy \<longrightarrow> admin_event sy (AppRequest he r))"
    using st m admin(1,2) by (auto simp: admin_step_def admin_event_def)
  with ok admin(4) framed_ok [OF ok, of sy'] have "system_ok c sy'"
    by (auto simp: system_ok_def api_ok_def service_shrinks_def)
  with sh admin(4) show ?thesis by auto
qed

lemma system_step_ok:
  assumes "system_ok c sy" "system_step w wr c sha e sy sy'"
  shows "system_ok c sy'"
  using assms(2)
proof (cases rule: system_step.cases)
  case (app he r resp)
  then show ?thesis using app_step [OF assms(1), of he w wr r sy' resp] by blast
next
  case (download he r resp)
  from serve_downloads_shares [OF this(2)] assms(1) show ?thesis by (simp add: system_ok_def api_ok_def)
next
  case (maintenance envs now)
  with assms(1) maintain_shrinks [of "shares_of sy" envs now] show ?thesis
    by (auto simp: run_maintenance_def system_ok_def api_ok_def service_shrinks_def framed_def)
next
  case restarted
  with restart_shares(2) [OF assms(1)] show ?thesis by simp
qed

lemma system_step_change:
  assumes ok: "system_ok c sy" and s: "system_step w wr c sha e sy sy'"
    and x: "stored_at sy i = Some (x, v)" "stored_at sy' i \<noteq> stored_at sy i"
  shows "owner_event sha i v e \<or> admin_event sy e \<or> expiry_event x e"
  using s
proof (cases rule: system_step.cases)
  case (app he r resp)
  then show ?thesis using app_step [OF ok, of he w wr r sy' resp i x v] x by blast
next
  case (download he r resp)
  from serve_downloads_shares(1) [OF this(2)] x show ?thesis by simp
next
  case (maintenance envs now)
  with maintain_purges [of "shares_of sy" now envs] ok x show ?thesis
    by (auto simp: run_maintenance_def system_ok_def api_ok_def purged_def expiry_event_def)
       (metis old.prod.inject option.inject)
next
  case restarted
  with restart_shares(1) [OF ok] x show ?thesis by simp
qed

lemma runs_ok: "runs w wr c sha es sy sy' \<Longrightarrow> system_ok c sy \<Longrightarrow> system_ok c sy'"
  by (induction rule: runs.induct) (blast intro: system_step_ok)+

section \<open>The bytes of the files\<close>

lemma kept_maintain: "service_ok s \<Longrightarrow> kept s (maintain envs now s)"
  using maintain_shrinks [of s envs now] by (simp add: service_shrinks_def)

lemma kept_restart: "kept (shares_of sy) (shares_of (restart lib c sy))"
  by (simp add: restart_def fresh_system_def kept_def object_at_def split: option.split)

lemma app_step_intact:
  assumes ok: "system_ok c sy" "intact (sha_of he) (shares_of sy)" and he: "he_ok he" "key_free he (shares_of sy)"
    and s: "serve_app w wr he r sy = (sy', resp)"
  shows "intact (sha_of he) (shares_of sy')"
  using s
proof (cases rule: serve_app_cases)
  case other
  with ok show ?thesis by simp
next
  case (api st)
  from ok(1) have "service_ok (shares_of sy)" by (simp add: system_ok_def api_ok_def)
  from intact_serve_api [OF he(1) this he(2) ok(2), of "wd_lib w" "wr_options wr" r] api show ?thesis by simp
next
  case (admin m st)
  note st = serve_admin_step [OF admin(3) he(1)] admin_login_step [of _ _ _ _ _ _ st]
  have "manager_ok m" "service_ok (shares_of sy)" using ok(1) admin(1) by (simp_all add: system_ok_def api_ok_def)
  with st admin(1,2) have "kept (shares_of sy) (ad_shares st)"
    by (auto simp: admin_step_def service_shrinks_def)
  from intact_kept [OF this ok(2)] admin(4) show ?thesis by simp
qed

lemma system_step_intact:
  assumes ok: "system_ok c sy" "intact sha (shares_of sy)" and s: "system_step w wr c sha e sy sy'"
  shows "intact sha (shares_of sy')"
  using s
proof (cases rule: system_step.cases)
  case (app he r resp)
  with app_step_intact [OF ok(1), of he w wr r sy' resp] ok(2) show ?thesis by simp
next
  case (download he r resp)
  from serve_downloads_shares(1) [OF this(2)] ok(2) show ?thesis by simp
next
  case (maintenance envs now)
  with intact_kept [OF kept_maintain ok(2)] ok(1) show ?thesis
    by (simp add: run_maintenance_def system_ok_def api_ok_def)
next
  case restarted
  with intact_kept [OF kept_restart ok(2)] show ?thesis by simp
qed

lemma runs_intact:
  "runs w wr c sha es sy sy' \<Longrightarrow> system_ok c sy \<Longrightarrow> intact sha (shares_of sy) \<Longrightarrow> intact sha (shares_of sy')"
  by (induction rule: runs.induct) (blast intro: system_step_ok system_step_intact)+

end
