(* ===== verification/SystemProps.thy ===== *)
theory SystemProps
  imports SystemLaws HttpSamples
begin

text \<open>
  The properties of the whole program: what holds of its shared state whatever happens, and what
  it takes to change a Share.
\<close>

section \<open>Start\<close>

lemma boot_system: "boot lib parse_host dist c d objects = Inr (wr, sy) \<Longrightarrow> sy = fresh_system lib c d objects"
  by (auto simp: boot_def split: sum.splits)

text \<open>With a configuration that \<open>Parse\<close> returned, only the bundle can fail.\<close>

lemma boot_complete:
  assumes "config_ok sha parse_host c"
  shows "\<exists>wr. boot lib parse_host None c d objects = Inr (wr, fresh_system lib c d objects)"
  using assms by (auto simp: boot_def config_ok_def NewEmbedded_def split: sum.splits)

text \<open>In a development build the nil pointer of the frontend is called: a path that is neither the liveness
  path nor one of the API or of the administrator gets no answer.\<close>

lemma development_build_panics:
  assumes "boot lib parse_host None c d objects = Inr (wr, sy)"
    and "hr_path r \<noteq> ''/healthz''" "\<not> admin_path (hr_path r)" "\<not> api_path (hr_path r)"
  shows "serve_app w wr he r sy' = (sy', no_answer)"
proof -
  have "wr_web wr = None" using assms(1) by (auto simp: boot_def NewEmbedded_def wire_def split: sum.splits)
  with assms(2-4) show ?thesis by (simp add: serve_app_def newHandler_def web_handler_def)
qed

text \<open>A program that serves has an accepted configuration, the complete schema, and the state of a new
  process on the tables and objects it found.\<close>

lemma run_main_Serving:
  assumes "run_main lib sha mc args = (sc, Serving c wr sy)"
  obtains name where "Parse sha (mc_parse_host mc) (mc_wd mc) args (mc_env mc) = Inr c"
    "Open (mc_database mc) (mc_connect mc) (mc_migrate mc) (cf_DataDir c) (mc_schema mc) = (sc, Inr name)"
    "sy = fresh_system lib c (start_tables mc) (start_objects mc)"
  using assms
  by (auto simp: run_main_def boot_system split: option.splits sum.splits prod.splits if_splits)

lemma fresh_system_ok:
  assumes "config_ok sha parse_host c" "db_ok d" "objects_ok d (Some objects)"
    and "\<And>r. is_public c \<Longrightarrow> r \<in> set (shares d) \<Longrightarrow> bounded_row (retention_of c) r"
  shows "system_ok c (fresh_system lib c d objects)"
  using assms
  by (auto simp: system_ok_def fresh_system_def api_ok_def service_ok_def retention_ok_def control_ok_New manager_ok_New
      retention_of_def policy_ok_def config_ok_def)

definition sample_world :: "bucket world" where
  "sample_world = \<lparr>wd_lib = sample_lib,
     wd_serve = (\<lambda>r name t body h. \<lparr>rs_status = 200, rs_headers = h, rs_body = body\<rparr>),
     wd_extension = (\<lambda>e. []), wd_unregistered = (\<lambda>r. http_NotFound [])\<rparr>"

text \<open>The machine holds a data directory with one text, of a complete schema.\<close>

definition sample_files :: "file_kind \<Rightarrow> os_env" where
  "sample_files k = \<lparr>os_mkdir = False, os_stat = Some DirectoryFile, os_lstat = Some k, os_create = False, os_close = False\<rparr>"

definition sample_machine :: machine where
  "sample_machine = \<lparr>mc_go = ''go1.26'', mc_wd = None, mc_env = public_env, mc_parse_host = Some, mc_dist = None,
     mc_database = sample_files RegularFile, mc_connect = (False, False), mc_migrate = (\<lambda>call. False),
     mc_schema = \<lparr>sc_version = 5, sc_applied = map snd migrations\<rparr>, mc_tables = sv_db text_service,
     mc_root = sample_files DirectoryFile, mc_open_root = False, mc_objects = [], mc_file_listener = False,
     mc_app_listener = False\<rparr>"

definition sample_wiring :: wiring where
  "sample_wiring = (case boot sample_lib Some None public_config (sv_db text_service) [] of Inr (wr, sy) \<Rightarrow> wr)"

definition sample_system :: "bucket system" where
  "sample_system = fresh_system sample_lib public_config (sv_db text_service) []"

lemma sample_boot:
  "boot sample_lib Some None public_config (sv_db text_service) [] = Inr (sample_wiring, sample_system)"
  using boot_complete [OF parsed_config_ok [OF public_config(1)], of sample_lib "sv_db text_service" "[]"]
  by (auto simp: sample_wiring_def sample_system_def)

lemma sample_started:
  "run_main sample_lib sample_sha sample_machine public_args
     = (\<lparr>sc_version = 5, sc_applied = map snd migrations\<rparr>, Serving public_config sample_wiring sample_system)"
proof -
  have "maybePrintVersion go public_args = None" for go by (simp add: maybePrintVersion_def public_args_def)
  moreover have "\<exists>name. Open (sample_files RegularFile) (False, False) (\<lambda>call. False) dir
      \<lparr>sc_version = 5, sc_applied = map snd migrations\<rparr> = (\<lparr>sc_version = 5, sc_applied = map snd migrations\<rparr>, Inr name)" for dir
    by (simp add: Open_def prepareDatabaseFile_def sample_files_def migrate_def migrations_def latestSchemaVersion_def)
  then obtain name where "Open (sample_files RegularFile) (False, False) (\<lambda>call. False) dir
      \<lparr>sc_version = 5, sc_applied = map snd migrations\<rparr> = (\<lparr>sc_version = 5, sc_applied = map snd migrations\<rparr>, Inr (name dir))"
      for dir by metis
  moreover have "\<exists>root. OpenLocal (sample_files DirectoryFile) False dir = Inr root" for dir
    by (simp add: OpenLocal_def sample_files_def)
  then obtain root where "OpenLocal (sample_files DirectoryFile) False dir = Inr (root dir)" for dir by metis
  ultimately show ?thesis
    using public_config(1) sample_boot
    by (simp add: run_main_def sample_machine_def start_tables_def start_objects_def) (simp add: sample_files_def)
qed

lemma sample_shares: "shares_of sample_system = text_service"
proof -
  have "sv_store text_service = Some [] \<and> sv_retention text_service = sample_policy" by code_simp
  then show ?thesis
    by (simp add: sample_system_def fresh_system_def retention_of_def public_config sample_policy_def)
qed

lemma sample_run:
  "runs sample_world sample_wiring public_config sample_sha [AppRequest sample_he sample_delete] sample_system
     (fst (serve_app sample_world sample_wiring sample_he sample_delete sample_system))"
proof -
  have "sha_of sample_he = sample_sha" by (simp add: sha_of_def sample_he_def sample_env_def)
  then show ?thesis
    by (intro runs.runs_cons [OF system_step.app [OF _ _ _ prod.collapse [symmetric]] runs.runs_nil])
       (simp_all add: sample_he_ok sample_shares sample_key_free)
qed

lemma sample_tables:
  "db_ok (sv_db text_service)" "objects_ok (sv_db text_service) (Some [])"
  "r \<in> set (shares (sv_db text_service)) \<Longrightarrow> bounded_row (retention_of public_config) r"
proof -
  have "sv_store text_service = Some []" by code_simp
  then show "db_ok (sv_db text_service)" "objects_ok (sv_db text_service) (Some [])"
    using service_ok_text_service by (simp_all add: service_ok_def)
  have "list_all (bounded_row sample_policy) (shares (sv_db text_service))" by code_simp
  moreover have "retention_of public_config = sample_policy"
    by (simp add: retention_of_def public_config sample_policy_def)
  ultimately show "r \<in> set (shares (sv_db text_service)) \<Longrightarrow> bounded_row (retention_of public_config) r"
    by (simp add: list_all_iff)
qed

lemma sample_system_ok: "system_ok public_config sample_system"
  unfolding sample_system_def
  by (rule fresh_system_ok [OF parsed_config_ok [OF public_config(1)]]) (simp_all add: sample_tables)

text \<open>C37: However the program is started, on tables and objects that are consistent and whatever fails
  on the way: when it serves, it serves with the complete schema, and no sequence of requests on
  either listener, of maintenance runs and of restarts, whatever fails in between, leads to a state
  that violates an invariant: the tables' constraints, an object for every File Share with the size
  and the digest the Share records, expirations within the public limit, the bounds of the limiter
  and of the sessions.\<close>

theorem program_invariant:
  assumes "run_main (wd_lib w) sha mc args = (sc, Serving c wr sy)" "\<And>wd. mc_wd mc = Some wd \<Longrightarrow> has_prefix wd ''/''"
    and "migrated n (mc_schema mc)" "db_ok (start_tables mc)" "objects_ok (start_tables mc) (Some (start_objects mc))"
    and "intact sha (shares_of sy)"
    and "\<And>r. is_public c \<Longrightarrow> r \<in> set (shares (start_tables mc)) \<Longrightarrow> bounded_row (retention_of c) r"
    and "runs w wr c sha es sy sy'"
  shows "migrated 5 sc \<and> system_ok c sy' \<and> intact sha (shares_of sy')"
  using assms(1)
proof (rule run_main_Serving)
  fix name
  assume p: "Parse sha (mc_parse_host mc) (mc_wd mc) args (mc_env mc) = Inr c"
    and o: "Open (mc_database mc) (mc_connect mc) (mc_migrate mc) (cf_DataDir c) (mc_schema mc) = (sc, Inr name)"
    and sy: "sy = fresh_system (wd_lib w) c (start_tables mc) (start_objects mc)"
  have "system_ok c sy"
    unfolding sy by (rule fresh_system_ok [OF parsed_config_ok [OF p assms(2)] assms(4,5,7)])
  with Open_migrated [OF assms(3) o] runs_ok [OF assms(8)] runs_intact [OF assms(8)] assms(6) show ?thesis by blast
qed

lemma program_invariant_witness:
  "system_ok public_config (fst (serve_app sample_world sample_wiring sample_he sample_delete sample_system))"
proof (rule program_invariant [OF _ _ _ _ _ _ _ sample_run, of sample_machine public_args, THEN conjunct2, THEN conjunct1])
  show "run_main (wd_lib sample_world) sample_sha sample_machine public_args
      = (\<lparr>sc_version = 5, sc_applied = map snd migrations\<rparr>, Serving public_config sample_wiring sample_system)"
    by (simp add: sample_world_def sample_started)
  have "files (sv_db text_service) = []" by code_simp
  then show "intact sample_sha (shares_of sample_system)" by (simp add: sample_shares intact_def)
  show "migrated 5 (mc_schema sample_machine)"
    by (simp add: sample_machine_def migrated_def migrations_numbered)
qed (simp_all add: sample_tables sample_machine_def start_tables_def start_objects_def sample_files_def)

text \<open>C38: A Share is safe with its owner: when after any sequence of events a Share is no longer what it
  was, one of the events had an authority at the moment it happened, while the Share was still
  intact: a \<open>PATCH\<close> or \<open>DELETE\<close> of that Share with a token whose digest is its verifier, a request
  of the Superadmin with a live session and its CSRF token, or a maintenance run after the Share's
  expiration.\<close>

theorem changes_need_authority:
  assumes "system_ok c sy" "runs w wr c sha es sy sy'"
    and "stored_at sy i = Some (x, v)" "stored_at sy' i \<noteq> Some (x, v)"
  shows "\<exists>pre e post sy1. es = pre @ e # post \<and> runs w wr c sha pre sy sy1 \<and> stored_at sy1 i = Some (x, v)
    \<and> (owner_event sha i v e \<or> admin_event sy1 e \<or> expiry_event x e)"
  using assms(2,1,3,4)
proof (induction rule: runs.induct)
  case (runs_cons e sy sy1 es sy')
  show ?case
  proof (cases "stored_at sy1 i = Some (x, v)")
    case True
    from runs_cons.IH [OF system_step_ok [OF runs_cons.prems(1) runs_cons.hyps(1)] True runs_cons.prems(3)]
    obtain pre e' post sy2 where "es = pre @ e' # post" "runs w wr c sha pre sy1 sy2" "stored_at sy2 i = Some (x, v)"
      "owner_event sha i v e' \<or> admin_event sy2 e' \<or> expiry_event x e'" by blast
    with runs_cons.hyps(1) show ?thesis by (metis append_Cons runs.runs_cons)
  next
    case False
    with system_step_change [OF runs_cons.prems(1) runs_cons.hyps(1) runs_cons.prems(2)] runs_cons.prems(2)
    show ?thesis by (metis append_Nil runs.runs_nil)
  qed
qed simp

lemma deleted_from_text:
  "abs_db (sv_db (as_shares (fst (serve_api sample_lib opts sample_he sample_delete
     \<lparr>as_shares = text_service, as_abuse = NewControl bucket_lib [\<lparr>px_addr = V4 0x0A000000, px_bits = 8\<rparr>] 0 False\<rparr>))))
     (id_string text_id) = None"
  by code_simp

lemma changes_need_authority_witness:
  "owner_event sample_sha (id_string text_id) (sample_sha (reveal text_token)) (AppRequest sample_he sample_delete)"
proof -
  let ?sy = "fst (serve_app sample_world sample_wiring sample_he sample_delete sample_system)"
  have "map_option snd (abs_db (sv_db text_service) (id_string text_id)) = Some (sample_sha (reveal text_token))" by code_simp
  then obtain x where x: "stored_at sample_system (id_string text_id) = Some (x, sample_sha (reveal text_token))"
    by (auto simp: sample_shares)
  have path: "hr_path sample_delete = ''/api/v1/shares/YWFhYWFhYWFhYWFhYWFhYQ''"
    by (simp add: sample_delete_def sample_request_def)
  have "serve_app sample_world sample_wiring sample_he sample_delete sample_system
      = api_handler sample_world sample_wiring sample_he sample_delete sample_system"
    by (simp add: serve_app_def newHandler_def path admin_path_def api_path_def has_prefix_def)
  moreover have "sy_api sample_system = \<lparr>as_shares = text_service,
      as_abuse = NewControl bucket_lib [\<lparr>px_addr = V4 0x0A000000, px_bits = 8\<rparr>] 0 False\<rparr>"
    using sample_shares by (simp add: sample_system_def fresh_system_def public_config(5) sample_lib_def)
  ultimately have "stored_at ?sy (id_string text_id) = None"
    by (simp add: api_handler_def case_prod_beta sample_world_def deleted_from_text)
  with changes_need_authority [OF sample_system_ok sample_run x]
  obtain pre e post and sy1 :: "bucket system" where "[AppRequest sample_he sample_delete] = pre @ e # post"
    "owner_event sample_sha (id_string text_id) (sample_sha (reveal text_token)) e \<or> admin_event sy1 e \<or> expiry_event x e"
    by auto
  then show ?thesis
    by (auto simp: expiry_event_def admin_event_def path admin_path_def has_prefix_def Cons_eq_append_conv)
qed

end
