(* ===== verification/FileProps.thy ===== *)
theory FileProps
  imports SystemProps HttpReads
begin

text \<open>
  What the listener for files answers: the bytes that were uploaded, under the name they were given.
\<close>

section \<open>Opening a file\<close>

lemma store_open_content:
  "io = (\<lambda>op. False) \<Longrightarrow> store_object fs k = Some (b, t) \<Longrightarrow> store_open io k fs = Inr b"
  by (auto simp: store_open_def store_object_def split: sum.splits option.splits node.splits)

lemma stored_file_intact:
  assumes "intact sha s" "abs_db (sv_db s) i = Some (v, w)" "File v = Some f"
  obtains b t where "object_at s (StorageKey f) = Some (b, t)" "Size f = int (length b)" "SHA256 f = sha b"
proof -
  from assms(2) obtain r where "v = abs_share (sv_db s) r" by (auto simp: abs_db_def)
  with assms(3) obtain g where g: "row_of f_share (r_id r) (files (sv_db s)) = Some g"
    "f = \<lparr>StorageKey = f_key g, Filename = f_filename g, Size = f_size g, MediaType = f_media g, SHA256 = f_sha g\<rparr>"
    by (auto simp: abs_share_def simp del: file_meta.ext_inject)
  from row_of_SomeD [OF g(1)] assms(1) g(2) that show ?thesis unfolding intact_def by fastforce
qed

lemma OpenFile_exact:
  fixes j :: share_id
  assumes ok: "service_ok s" "intact sha s" and fine: "\<not> ev_db env AtSelectShare" "ev_io env 0 = (\<lambda>op. False)"
  defines "x \<equiv> spec_get (abs_db (sv_db s)) (id_string j) (serverNow env)"
  shows "(\<exists>e. x = Inl e \<and> OpenFile env s j = Inl e \<and> (e = ErrNotFound \<or> e = ErrExpired))
    \<or> (\<exists>v. x = Inr v \<and> File v = None \<and> OpenFile env s j = Inl ErrNotFound)
    \<or> (\<exists>v f b. x = Inr v \<and> File v = Some f \<and> OpenFile env s j = Inr (v, b) \<and> Size f = int (length b) \<and> SHA256 f = sha b)"
proof -
  have get: "Get env s j = x" using loadActive_refines [OF service_okD(1) [OF ok(1)] fine(1)] by (simp add: Get_def x_def)
  show ?thesis
  proof (cases x)
    case (Inl e)
    with get spec_get_errors [of _ "id_string j" "serverNow env" e] show ?thesis by (auto simp: OpenFile_def x_def)
  next
    case (Inr v)
    then obtain w where v: "abs_db (sv_db s) (id_string j) = Some (v, w)"
      by (auto simp: x_def spec_get_def split: option.splits if_splits)
    show ?thesis
    proof (cases "File v")
      case None
      with get Inr show ?thesis by (simp add: OpenFile_def)
    next
      case (Some f)
      from stored_file_intact [OF ok(2) v Some] obtain b t where
        b: "object_at s (StorageKey f) = Some (b, t)" "Size f = int (length b)" "SHA256 f = sha b" .
      from b(1) obtain fs where "sv_store s = Some fs" "store_object fs (StorageKey f) = Some (b, t)"
        by (auto simp: object_at_def split: option.splits)
      with get Inr Some b store_open_content [OF fine(2), of fs "StorageKey f" b t] show ?thesis by (simp add: OpenFile_def)
    qed
  qed
qed

lemma release_TryDownload: "TryDownload a = (a1, True) \<Longrightarrow> release_download a1 = a"
  by (auto simp: TryDownload_def release_download_def ReleaseDownload_def split: if_splits)

section \<open>Downloads\<close>

text \<open>What a client gets for a File Share with these bytes.\<close>

definition served_file :: "content_server \<Rightarrow> http_request \<Rightarrow> share \<Rightarrow> file_meta \<Rightarrow> bytes \<Rightarrow> http_response" where
  "served_file serve r v f b =
     (let resp = serve r (Filename f) (CreatedAt v) b (download_headers (file_headers []) f)
      in without_body r (resp\<lparr>rs_headers := file_headers (rs_headers resp)\<rparr>))"

lemma download_name:
  "\<exists>ps. ParseMediaType (hdr_get ''Content-Disposition'' (download_headers h f)) = Some (''attachment'', ps)
     \<and> media_param ps ''filename'' = Some (Filename f)"
proof -
  have "hdr_get ''Content-Disposition'' (download_headers h f) = FormatMediaType ''attachment'' [(''filename'', Filename f)]"
    by (simp add: download_headers_def)
  then show ?thesis using disposition_round_trip [of "Filename f"] by metis
qed

lemma download_exact:
  assumes ok: "service_ok s" "intact sha s"
    and fine: "\<not> ev_db (he_env he 1) AtSelectShare" "ev_io (he_env he 1) 0 = (\<lambda>op. False)" "\<not> he_write_deadline he"
    and p: "hr_path r = ''/f/'' @ i"
  defines "x \<equiv> spec_get (abs_db (sv_db s)) i (serverNow (he_env he 1))"
  shows "(\<exists>e. x = Inl e \<and> rs_status (download serve he h r s) = (if e = ErrExpired then 410 else 404))
    \<or> (\<exists>v. x = Inr v \<and> File v = None \<and> rs_status (download serve he h r s) = 404)
    \<or> (\<exists>v f b. x = Inr v \<and> File v = Some f \<and> Size f = int (length b) \<and> SHA256 f = sha b
        \<and> download serve he h r s = serve r (Filename f) (CreatedAt v) b (download_headers h f))"
proof -
  have t: "trim_prefix (hr_path r) ''/f/'' = i" unfolding p by (rule trim_prefix_append)
  show ?thesis
  proof (cases "ParseShareID i")
    case (Inl e)
    with t have "rs_status (download serve he h r s) = 404" by (simp add: download_def http_Error_def)
    moreover have "x = Inl ErrNotFound"
      by (simp add: x_def spec_get_def unparsable_absent [OF service_okD(1) [OF ok(1)] Inl])
    ultimately show ?thesis by simp
  next
    case (Inr j)
    then have j: "id_string j = i" "\<not> (i = [] \<or> CHR ''/'' \<in> set i)" using ParseShareID_string bad_id by fastforce+
    have d: "download serve he h r s = (case OpenFile (he_env he 1) s j of
        Inl e \<Rightarrow> file_error h e
      | Inr (v, object) \<Rightarrow> (case File v of
            None \<Rightarrow> http_Error h ''internal error'' 500
          | Some f \<Rightarrow> serve r (Filename f) (CreatedAt v) object (download_headers h f)))"
      using t Inr j(2) fine(3) by (simp add: download_def split: sum.split prod.split)
    from OpenFile_exact [OF ok fine(1,2), of j] j(1) show ?thesis
      by (elim disjE exE conjE) (auto simp: d x_def file_error_def http_Error_def)
  qed
qed

text \<open>C39: A download is exact: for any text in the place of the id, a \<open>GET\<close> or \<open>HEAD\<close> that is admitted
  answers 404 when no File is stored under it, 410 when it has expired, and otherwise hands
  \<open>http.ServeContent\<close> exactly the bytes that were uploaded, of the size and the digest the Share
  records, with a \<open>Content-Disposition\<close> that parses back to the name of the file, and keeps the
  hardening headers whatever comes back.  It changes no Share and gives its download slot back.\<close>

theorem downloads_are_exact:
  assumes "system_ok c sy" "intact sha (shares_of sy)"
    and "hr_method r \<in> {''GET'', ''HEAD''}" "hr_path r = ''/f/'' @ i"
    and "Allow (lb_limiter (wd_lib w)) (ev_now (he_env he 0)) (hr_remote r) (hdr_get ''X-Forwarded-For'' (hr_headers r))
      ReadKind (as_abuse (sy_api sy)) = (a, True)" "snd (TryDownload a)"
    and "\<not> ev_db (he_env he 1) AtSelectShare" "ev_io (he_env he 1) 0 = (\<lambda>op. False)" "\<not> he_write_deadline he"
    and "serve_downloads w he r sy = (sy', resp)"
  shows "sy' = sy\<lparr>sy_api := (sy_api sy)\<lparr>as_abuse := a\<rparr>\<rparr>
    \<and> (case spec_get (stored_at sy) i (serverNow (he_env he 1)) of
         Inl e \<Rightarrow> rs_status resp = (if e = ErrExpired then 410 else 404)
       | Inr v \<Rightarrow>
           (case File v of
              None \<Rightarrow> rs_status resp = 404
            | Some f \<Rightarrow> \<exists>b ps. resp = served_file (wd_serve w) r v f b \<and> Size f = int (length b) \<and> SHA256 f = sha b
                \<and> ParseMediaType (hdr_get ''Content-Disposition'' (download_headers (file_headers []) f)) = Some (''attachment'', ps)
                \<and> media_param ps ''filename'' = Some (Filename f)))"
proof -
  have s: "service_ok (shares_of sy)" using assms(1) by (simp add: system_ok_def api_ok_def)
  obtain a1 where a1: "TryDownload a = (a1, True)" using assms(6) by (metis (full_types) prod.collapse)
  let ?d = "download (wd_serve w) he (file_headers []) r (shares_of sy)"
  have path: "file_path (hr_path r)" by (simp add: file_path_def assms(4) has_prefix_def)
  have route: "file_route (wd_lib w) (wd_serve w) he (file_headers []) r (sy_api sy)
      = ((sy_api sy)\<lparr>as_abuse := a\<rparr>, ?d)"
    using path assms(3,5) release_TryDownload [OF a1] by (auto simp: file_route_def a1)
  with assms(10) path have sy': "sy' = sy\<lparr>sy_api := (sy_api sy)\<lparr>as_abuse := a\<rparr>\<rparr>"
    and resp: "resp = without_body r (?d\<lparr>rs_headers := file_headers (rs_headers ?d)\<rparr>)"
    by (auto simp: serve_downloads_def serve_file_def)
  from download_exact [OF s assms(2,7,8,9,4), of "wd_serve w" "file_headers []"] sy' resp download_name [of "file_headers []"]
  show ?thesis by (auto simp: without_body_def served_file_def Let_def split: if_splits)
qed

section \<open>A download\<close>

definition file_system :: "bucket system" where
  "file_system = sample_system\<lparr>sy_api := (sy_api sample_system)\<lparr>as_shares := file_service\<rparr>\<rparr>"

definition sample_download :: http_request where
  "sample_download = sample_request ''GET'' ''/f/YWFhYWFhYWFhYWFhYWFhYQ'' [] []"

lemma file_system_ok: "system_ok public_config file_system" "intact sample_sha (shares_of file_system)"
proof -
  have p: "retention_of public_config = sample_policy"
    by (simp add: retention_of_def public_config sample_policy_def)
  have "list_all (bounded_row sample_policy) (shares (sv_db file_service))" "sv_store file_service \<noteq> None"
    "sv_retention file_service = sample_policy" "policy_ok sample_policy" by code_simp+
  moreover from this have "retention_ok file_service"
    using sample_system_ok sample_shares by (auto simp: system_ok_def api_ok_def retention_ok_def list_all_iff)
  ultimately show "system_ok public_config file_system"
    using sample_system_ok service_ok_file_service p by (auto simp: system_ok_def api_ok_def file_system_def)
  have "list_all (\<lambda>f. map_option fst (object_at file_service (f_key f)) = Some ''data'' \<and> f_size f = 4 \<and> f_sha f = sample_sha ''data'')
      (files (sv_db file_service))" by code_simp
  then show "intact sample_sha (shares_of file_system)"
    by (fastforce simp: file_system_def intact_def list_all_iff)
qed

lemma downloads_are_exact_witness:
  "rs_body (snd (serve_downloads sample_world sample_he sample_download file_system)) = ''data''"
proof -
  let ?env = "he_env sample_he 1"
  define c where "c = NewControl bucket_lib [\<lparr>px_addr = V4 0x0A000000, px_bits = 8\<rparr>] 0 False"
  have ab: "as_abuse (sy_api file_system) = c"
    by (simp add: file_system_def sample_system_def fresh_system_def public_config(5) sample_lib_def c_def)
  have "snd (Allow bucket_lib (ev_now ?env) (hr_remote sample_download) [] ReadKind c)
      \<and> snd (TryDownload (fst (Allow bucket_lib (ev_now ?env) (hr_remote sample_download) [] ReadKind c)))"
    unfolding c_def by code_simp
  then obtain a where a: "Allow bucket_lib (ev_now ?env) (hr_remote sample_download) [] ReadKind c = (a, True)" "snd (TryDownload a)"
    by (metis (full_types) fst_conv prod.collapse)
  have fine: "sample_env = he_env sample_he n" "\<not> he_write_deadline sample_he" "hdr_get k (hr_headers sample_download) = []" for n k
    by (simp_all add: sample_he_def sample_download_def sample_request_def hdr_get_def hdr_values_def)
  have r: "hr_method sample_download \<in> {''GET'', ''HEAD''}" "hr_path sample_download = ''/f/'' @ id_string text_id"
    by (simp_all add: sample_download_def sample_request_def text_id_def)
  have v: "case spec_get (abs_db (sv_db file_service)) (id_string text_id) (serverNow sample_env) of
      Inr v \<Rightarrow> (case File v of Some f \<Rightarrow> Size f = 4 \<and> SHA256 f = sample_sha ''data'' | None \<Rightarrow> False) | Inl e \<Rightarrow> False"
    by code_simp
  then obtain v f where v: "spec_get (stored_at file_system) (id_string text_id) (serverNow sample_env) = Inr v"
    "File v = Some f" "Size f = 4" "SHA256 f = sample_sha ''data''"
    by (auto simp: file_system_def split: sum.splits option.splits)
  obtain sy' resp where d: "serve_downloads sample_world sample_he sample_download file_system = (sy', resp)" by fastforce
  have "Allow (lb_limiter (wd_lib sample_world)) (ev_now (he_env sample_he 0)) (hr_remote sample_download)
      (hdr_get ''X-Forwarded-For'' (hr_headers sample_download)) ReadKind (as_abuse (sy_api file_system)) = (a, True)"
    using a(1) ab fine by (simp add: sample_world_def sample_lib_def fine(1) [symmetric])
  from downloads_are_exact [OF file_system_ok r this a(2) _ _ fine(2) d] v fine(1) [of 1, symmetric]
  obtain b where b: "resp = served_file (wd_serve sample_world) sample_download v f b" "length b = 4" "sample_sha ''data'' = sample_sha b"
    by auto
  have "take 4 (sample_sha b) = b" using b(2) by (simp add: sample_sha_def)
  moreover have "take 4 (sample_sha ''data'') = ''data''" by code_simp
  ultimately have "b = ''data''" using b(3) by simp
  moreover have "rs_body resp = b"
    by (simp add: b(1) served_file_def Let_def without_body_def sample_world_def sample_download_def sample_request_def)
  ultimately show ?thesis by (simp add: d)
qed

end
