(* ===== verification/Formats.thy ===== *)
theory Formats
  imports HttpApi
begin

text \<open>
  The texts that name or carry bytes: Share IDs, the two kinds of tokens, and the nonce and ciphertext
  of an encrypted text.  Their readers check a shape, decode, and check the bytes; together they accept
  the canonical encodings and nothing else, so that every value has one spelling.
\<close>

lemma encoded_len_mono: "m \<le> n \<Longrightarrow> encoded_len m \<le> encoded_len n"
proof (induction rule: dec_induct)
  case (step k)
  have "encoded_len k \<le> encoded_len (Suc k)"
    unfolding encoded_len_def by (cases "k mod 3 = 2") (auto simp: div_Suc mod_Suc)
  with step show ?case by simp
qed simp

lemma decodeBase64URL_iff:
  "decodeBase64URL v lo hi = Inr d \<longleftrightarrow> v = b64_encode d \<and> lo \<le> length d \<and> length d \<le> hi"
proof
  show "v = b64_encode d \<and> lo \<le> length d \<and> length d \<le> hi" if "decodeBase64URL v lo hi = Inr d"
    using that by (auto simp: decodeBase64URL_def split: if_splits option.splits)
  show "decodeBase64URL v lo hi = Inr d" if "v = b64_encode d \<and> lo \<le> length d \<and> length d \<le> hi"
    using that encoded_len_mono [of "length d" hi]
    by (auto simp: decodeBase64URL_def b64_encode_alphabet b64.decode_encode length_b64_encode)
qed

text \<open>C11: One spelling for every value: the readers of Share IDs, owner tokens, Superadmin tokens and
  of the nonces and ciphertexts of a request accept exactly what the encoder writes for bytes of the
  right length, behind the right prefix; neither another alphabet, padding, a line break nor spare
  bits in the last character pass.\<close>

theorem formats_are_canonical:
  "(ParseShareID v = Inr i) = (i = ShareID v \<and> (\<exists>d. length d = 16 \<and> v = b64_encode d))
    \<and> (ParseOwnerToken v = Inr t) = (t = OwnerToken v \<and> (\<exists>d. length d = 32 \<and> v = ''up_o1_'' @ b64_encode d))
    \<and> (ParseToken v = Inr a) = (a = AdminToken v \<and> (\<exists>d. length d = 32 \<and> v = ''up_a1_'' @ b64_encode d))
    \<and> (decodeBase64URL v lo hi = Inr b) = (v = b64_encode b \<and> lo \<le> length b \<and> length b \<le> hi)"
proof (intro conjI)
  show "(ParseOwnerToken v = Inr t) = (t = OwnerToken v \<and> (\<exists>d. length d = 32 \<and> v = ''up_o1_'' @ b64_encode d))"
    by (simp add: ParseOwnerToken_Inr_iff ownerTokenPrefix_def)
  show "(ParseToken v = Inr a) = (a = AdminToken v \<and> (\<exists>d. length d = 32 \<and> v = ''up_a1_'' @ b64_encode d))"
    by (simp add: ParseToken_Inr_iff TokenPrefix_def)
qed (rule ParseShareID_Inr_iff decodeBase64URL_iff)+

end
