(* ===== verification/Interleave.thy ===== *)
theory Interleave
  imports Integrity
begin

text \<open>
  What happens at the same time.  An upload is staged while its request is read and only later becomes a
  Share; a sweep reads the references first and removes files later, in any number of portions.  In
  between, other requests and other maintenance runs go on.  A configuration holds the service together
  with the uploads and the sweeps in flight, and a move is one step of any of them.
\<close>

section \<open>Configurations and moves\<close>

text \<open>The deadline of the transfer of a file, which bounds the age of a pending upload.\<close>

definition FileTransferDeadline :: duration where "FileTransferDeadline = 10 * minute"

record concurrent =
  cn_service :: service
  cn_uploads :: "(staged \<times> time) list"
  cn_sweeps :: "(string list \<times> time) list"
  cn_clock :: time

datatype service_call =
    CallCreate env text_body "time option"
  | CallCreateEncrypted env encrypted_text "time option"
  | CallUpdate env share_id string patch
  | CallDelete env share_id string
  | CallAdminDelete env share_id

fun call_env :: "service_call \<Rightarrow> env" where
  "call_env (CallCreate env t ex) = env"
| "call_env (CallCreateEncrypted env e ex) = env"
| "call_env (CallUpdate env i c pt) = env"
| "call_env (CallDelete env i c) = env"
| "call_env (CallAdminDelete env i) = env"

fun run_service_call :: "service_call \<Rightarrow> service \<Rightarrow> service" where
  "run_service_call (CallCreate env t ex) s = fst (Create env s t ex)"
| "run_service_call (CallCreateEncrypted env e ex) s = fst (CreateEncrypted env s e ex)"
| "run_service_call (CallUpdate env i c pt) s = fst (Update env s i c pt)"
| "run_service_call (CallDelete env i c) s = fst (Delete env s i c)"
| "run_service_call (CallAdminDelete env i) s = fst (AdminDelete env s i)"

text \<open>A batch of the purge and the removal of its objects.\<close>

definition purge_step :: "env \<Rightarrow> time \<Rightarrow> service \<Rightarrow> service" where
  "purge_step env now s =
     (case (sv_store s, purgeBatch env (sv_db s) now) of
        (Some fs, Inr (d, keys, n)) \<Rightarrow>
          s\<lparr>sv_db := d, sv_store := Some (fst (delete_loop (store_delete (ev_io env 0)) keys fs))\<rparr>
      | _ \<Rightarrow> s)"

text \<open>A portion of a sweep: \<open>Reconcile\<close> until it is done or an access fails.\<close>

definition sweep_step :: "io \<Rightarrow> string list \<Rightarrow> time \<Rightarrow> service \<Rightarrow> service" where
  "sweep_step io refs stale s = s\<lparr>sv_store := map_option (\<lambda>fs. fst (Reconcile io refs stale fs)) (sv_store s)\<rparr>"

definition drop_nth :: "nat \<Rightarrow> 'a list \<Rightarrow> 'a list" where
  "drop_nth n xs = take n xs @ drop (Suc n) xs"

datatype move =
    Called service_call
  | PurgedBatch env time
  | StagedUpload env "bytes option" "bytes option list" source
  | CreatedFile env nat string "time option"
  | AbortedUpload io nat
  | AbortedLeftover io staged
  | ReadReferences time
  | SweptPortion io nat
  | EndedSweep nat

text \<open>Time does not run backwards; random bytes are sound, and the key of an upload is drawn by no other;
  an upload that is pending when the references are read was staged within the deadline.  The deferred
  abort of an upload whose creation failed is a leftover: it comes whenever it comes.\<close>

inductive interleaved :: "(bytes \<Rightarrow> bytes) \<Rightarrow> move \<Rightarrow> concurrent \<Rightarrow> concurrent \<Rightarrow> bool" for sha where
  called: "rand_ok (call_env q) \<Longrightarrow> cn_clock c \<le> ev_now (call_env q)
    \<Longrightarrow> interleaved sha (Called q) c (c\<lparr>cn_service := run_service_call q (cn_service c), cn_clock := ev_now (call_env q)\<rparr>)"
| purged: "cn_clock c \<le> now
    \<Longrightarrow> interleaved sha (PurgedBatch env now) c (c\<lparr>cn_service := purge_step env now (cn_service c), cn_clock := now\<rparr>)"
| staged: "ev_sha env = sha \<Longrightarrow> cn_clock c \<le> ev_now env \<Longrightarrow> length k = 16
    \<Longrightarrow> hex_encode k \<notin> keys_of f_key (files (sv_db (cn_service c)))
    \<Longrightarrow> hex_encode k \<notin> set (map (st_key \<circ> fst) (cn_uploads c))
    \<Longrightarrow> StageFile env (Some k) sufs source (cn_service c) = (s', Inr st)
    \<Longrightarrow> interleaved sha (StagedUpload env (Some k) sufs source) c
      (c\<lparr>cn_service := s', cn_uploads := cn_uploads c @ [(st, ev_now env)], cn_clock := ev_now env\<rparr>)"
| refused: "cn_clock c \<le> ev_now env \<Longrightarrow> StageFile env k sufs source (cn_service c) = (s', Inl e)
    \<Longrightarrow> interleaved sha (StagedUpload env k sufs source) c (c\<lparr>cn_service := s', cn_clock := ev_now env\<rparr>)"
| created: "rand_ok env \<Longrightarrow> ev_sha env = sha \<Longrightarrow> cn_clock c \<le> ev_now env
    \<Longrightarrow> n < length (cn_uploads c) \<Longrightarrow> cn_uploads c ! n = (st, u)
    \<Longrightarrow> CreateFile env (cn_service c) filename (Some st) ex = (s', st', r)
    \<Longrightarrow> interleaved sha (CreatedFile env n filename ex) c
      (c\<lparr>cn_uploads := drop_nth n (cn_uploads c), cn_service := s', cn_clock := ev_now env\<rparr>)"
| aborted: "n < length (cn_uploads c) \<Longrightarrow> cn_uploads c ! n = (st, u) \<Longrightarrow> sv_store (cn_service c) = Some fs
    \<Longrightarrow> interleaved sha (AbortedUpload io n) c
      (c\<lparr>cn_uploads := drop_nth n (cn_uploads c), cn_service := (cn_service c)\<lparr>sv_store := Some (fst (snd (Abort io st fs)))\<rparr>\<rparr>)"
| leftover: "st_temp st = [] \<or> (\<exists>x. st_temp st = ''.stage-'' @ x) \<Longrightarrow> st_temp st \<notin> set (map (st_temp \<circ> fst) (cn_uploads c))
    \<Longrightarrow> sv_store (cn_service c) = Some fs
    \<Longrightarrow> interleaved sha (AbortedLeftover io st) c
      (c\<lparr>cn_service := (cn_service c)\<lparr>sv_store := Some (fst (snd (Abort io st fs)))\<rparr>\<rparr>)"
| references: "cn_clock c \<le> now \<Longrightarrow> list_all (\<lambda>(st, u). now - u \<le> FileTransferDeadline) (cn_uploads c)
    \<Longrightarrow> interleaved sha (ReadReferences now) c
      (c\<lparr>cn_sweeps := cn_sweeps c @ [(map f_key (files (sv_db (cn_service c))), now - Grace)], cn_clock := now\<rparr>)"
| swept: "m < length (cn_sweeps c) \<Longrightarrow> cn_sweeps c ! m = (refs, stale)
    \<Longrightarrow> interleaved sha (SweptPortion io m) c (c\<lparr>cn_service := sweep_step io refs stale (cn_service c)\<rparr>)"
| ended: "interleaved sha (EndedSweep m) c (c\<lparr>cn_sweeps := drop_nth m (cn_sweeps c)\<rparr>)"

inductive interleavings :: "(bytes \<Rightarrow> bytes) \<Rightarrow> move list \<Rightarrow> concurrent \<Rightarrow> concurrent \<Rightarrow> bool" for sha where
  no_moves: "interleavings sha [] c c"
| more_moves: "interleaved sha m c c1 \<Longrightarrow> interleavings sha ms c1 c' \<Longrightarrow> interleavings sha (m # ms) c c'"

section \<open>The invariant\<close>

text \<open>The staging file of a pending upload is there, complete, since the time of the upload.\<close>

definition pending_ok :: "(bytes \<Rightarrow> bytes) \<Rightarrow> service \<Rightarrow> staged \<times> time \<Rightarrow> bool" where
  "pending_ok sha s p \<longleftrightarrow>
     (\<exists>fs b. sv_store s = Some fs \<and> staged_ok sha MaxFileBytes (fst p) fs
        \<and> lstat fs (st_temp (fst p)) = Some (Regular b (snd p))) \<and> st_key (fst p) \<notin> keys_of f_key (files (sv_db s))"

text \<open>What a sweep relies on: the files it does not know, and those still to come, are too young for it.\<close>

definition known_or_young :: "service \<Rightarrow> (staged \<times> time) list \<Rightarrow> string list \<times> time \<Rightarrow> bool" where
  "known_or_young s ups w \<longleftrightarrow>
     (\<forall>f\<in>set (files (sv_db s)). f_key f \<in> set (fst w)
        \<or> (\<exists>b t. object_at s (f_key f) = Some (b, t) \<and> snd w < t))
     \<and> (\<forall>p\<in>set ups. snd w < snd p)"

definition concurrent_ok :: "(bytes \<Rightarrow> bytes) \<Rightarrow> concurrent \<Rightarrow> bool" where
  "concurrent_ok sha c \<longleftrightarrow>
     service_ok (cn_service c) \<and> intact sha (cn_service c) \<and> sv_store (cn_service c) \<noteq> None
     \<and> distinct (map (st_key \<circ> fst) (cn_uploads c)) \<and> distinct (map (st_temp \<circ> fst) (cn_uploads c))
     \<and> (\<forall>p\<in>set (cn_uploads c). pending_ok sha (cn_service c) p)
     \<and> (\<forall>w\<in>set (cn_sweeps c). snd w + Grace \<le> cn_clock c \<and> known_or_young (cn_service c) (cn_uploads c) w)"

lemma concurrent_okI:
  assumes "service_ok (cn_service c)" "intact sha (cn_service c)" "sv_store (cn_service c) \<noteq> None"
    and "distinct (map (st_key \<circ> fst) (cn_uploads c))" "distinct (map (st_temp \<circ> fst) (cn_uploads c))"
    and "\<And>p. p \<in> set (cn_uploads c) \<Longrightarrow> pending_ok sha (cn_service c) p"
    and "\<And>w. w \<in> set (cn_sweeps c) \<Longrightarrow> snd w + Grace \<le> cn_clock c"
    and "\<And>w. w \<in> set (cn_sweeps c) \<Longrightarrow> known_or_young (cn_service c) (cn_uploads c) w"
  shows "concurrent_ok sha c"
  unfolding concurrent_ok_def using assms by blast

lemma concurrent_okD:
  assumes "concurrent_ok sha c"
  shows "service_ok (cn_service c)" "intact sha (cn_service c)" "sv_store (cn_service c) \<noteq> None"
    "distinct (map (st_key \<circ> fst) (cn_uploads c))" "distinct (map (st_temp \<circ> fst) (cn_uploads c))"
    "p \<in> set (cn_uploads c) \<Longrightarrow> pending_ok sha (cn_service c) p"
    "w \<in> set (cn_sweeps c) \<Longrightarrow> snd w + Grace \<le> cn_clock c"
    "w \<in> set (cn_sweeps c) \<Longrightarrow> known_or_young (cn_service c) (cn_uploads c) w"
  using assms unfolding concurrent_ok_def by blast+

section \<open>What a step leaves to the others\<close>

text \<open>The staging file at \<open>p\<close> is as it was.\<close>

definition spares :: "string \<Rightarrow> service \<Rightarrow> service \<Rightarrow> bool" where
  "spares p s s' \<longleftrightarrow>
     (\<forall>fs n. sv_store s = Some fs \<and> lstat fs p = Some n \<longrightarrow> (\<exists>fs'. sv_store s' = Some fs' \<and> lstat fs' p = Some n))"

lemma spares_same: "sv_store s' = sv_store s \<Longrightarrow> spares p s s'"
  by (simp add: spares_def)

lemma spares_store:
  "sv_store s = Some fs \<Longrightarrow> sv_store s' = Some fs' \<Longrightarrow> (lstat fs p \<noteq> None \<Longrightarrow> lstat fs' p = lstat fs p) \<Longrightarrow> spares p s s'"
  by (auto simp: spares_def)

lemma pending_spared:
  assumes "pending_ok sha s p" "spares (st_temp (fst p)) s s'"
    and "st_key (fst p) \<notin> keys_of f_key (files (sv_db s'))"
  shows "pending_ok sha s' p"
proof -
  from assms(1) obtain fs b where fs: "sv_store s = Some fs" "staged_ok sha MaxFileBytes (fst p) fs"
    "lstat fs (st_temp (fst p)) = Some (Regular b (snd p))" "st_key (fst p) \<notin> keys_of f_key (files (sv_db s))"
    by (auto simp: pending_ok_def)
  with assms(2) obtain fs' where "sv_store s' = Some fs'" "lstat fs' (st_temp (fst p)) = Some (Regular b (snd p))"
    by (auto simp: spares_def)
  with fs assms(3) show ?thesis by (auto simp: pending_ok_def staged_ok_def)
qed

lemma pending_temp: "pending_ok sha s p \<Longrightarrow> \<exists>x. st_temp (fst p) = ''.stage-'' @ x"
  by (auto simp: pending_ok_def staged_ok_def)

lemma kept_keys: "kept s s' \<Longrightarrow> keys_of f_key (files (sv_db s')) \<subseteq> keys_of f_key (files (sv_db s))"
  by (auto simp: kept_def keys_of_def)

lemma known_or_young_kept: "kept s s' \<Longrightarrow> known_or_young s ups w \<Longrightarrow> known_or_young s' ups w"
  by (auto simp: kept_def known_or_young_def)

lemma delete_loop_stage:
  "lstat (fst (delete_loop (store_delete io) ks fs)) (''.stage-'' @ x) = lstat fs (''.stage-'' @ x)"
proof (induction ks arbitrary: fs)
  case (Cons k ks)
  obtain fs1 e where d: "store_delete io fs k = (fs1, e)" by fastforce
  have "lstat fs1 (''.stage-'' @ x) = lstat fs (''.stage-'' @ x)" using store_delete_stage [of io fs k x] d by simp
  with Cons.IH [of fs1] show ?case by (simp add: delete_loop_fst d)
qed simp

lemma spares_Delete:
  assumes "p = ''.stage-'' @ x"
  shows "spares p s (fst (Delete env s i c))"
proof (cases "Delete env s i c")
  case (Pair s' r)
  then show ?thesis
  proof (cases rule: Delete_cases)
    case refused
    with Pair show ?thesis by (simp add: spares_def)
  next
    case (deleted a fs' key)
    have "spares p s s'"
      unfolding spares_def
      using deleted(3,6) store_delete_stage [of "ev_io env 0" _ key x] assms by auto
    with Pair show ?thesis by simp
  qed
qed

lemma spares_AdminDelete:
  assumes "p = ''.stage-'' @ x"
  shows "spares p s (fst (AdminDelete env s i))"
proof (cases "AdminDelete env s i")
  case (Pair s' r)
  then show ?thesis
  proof (cases rule: AdminDelete_cases)
    case refused
    with Pair show ?thesis by (simp add: spares_def)
  next
    case (deleted r0)
    have "spares p s s'"
      unfolding spares_def
      using deleted(5) store_delete_stage [of "ev_io env 0" _ _ x] assms by auto
    with Pair show ?thesis by simp
  qed
qed

lemma create_file_spares:
  assumes store: "sv_store s = Some fs" and st: "staged_ok sha limit st fs"
    and p: "p = ''.stage-'' @ x" "p \<noteq> st_temp st"
    and c: "create_file env s fs filename st ex = (s', st', r)"
  shows "spares p s s'"
proof -
  have fs: "lstat fs1 p = lstat fs p \<and> p \<noteq> st_temp st1"
    if "st1 = st \<and> fs1 = fs \<or> (\<exists>ce. Commit (ev_io env 0) st fs = (st1, fs1, ce))" for st1 fs1
    using that Commit_stage [OF p, of "ev_io env 0" fs] Commit_keeps [of "ev_io env 0" st fs] p by auto
  from c show ?thesis
  proof (cases rule: create_file_cases)
    case (early e)
    then show ?thesis
      using Abort_stage [OF p(2)] by (intro spares_store [OF store, of _ "fst (snd (Abort (ev_io env 2) st fs))"]) simp_all
  next
    case (failed st1 fs1 e)
    note f = fs [OF failed(2)]
    obtain fs2 y where d: "store_delete (ev_io env 1) fs1 (st_key st1) = (fs2, y)" by fastforce
    have "sv_store s' = Some (fst (snd (Abort (ev_io env 2) st1 fs2)))"
      using failed(1) d by (auto simp: uncommitted_def split: prod.splits)
    moreover have "lstat fs2 p = lstat fs1 p" using store_delete_stage [of "ev_io env 1" fs1 "st_key st1" x] d p(1) by simp
    ultimately show ?thesis
      using f Abort_stage [of p st1 "ev_io env 2" fs2]
      by (intro spares_store [OF store, of _ "fst (snd (Abort (ev_io env 2) st1 fs2))"]) simp_all
  next
    case (made y i tok d1 d2 st1 fs1)
    then have "lstat fs1 p = lstat fs p \<and> p \<noteq> st_temp st1" by (intro fs) blast
    with made(8) Abort_stage [of p st1 "ev_io env 2" fs1] show ?thesis
      by (intro spares_store [OF store, of _ "fst (snd (Abort (ev_io env 2) st1 fs1))"]) simp_all
  qed
qed

lemma sweep_swept: "swept refs stale fs (fst (Reconcile io refs stale fs))"
  by (rule swept_Reconcile)

lemma kept_service_ok:
  assumes "service_ok s" "kept s s'" "sv_db s' = sv_db s" "sv_store s' \<noteq> None"
  shows "service_ok s'"
proof -
  from assms(4) obtain fs' where fs': "sv_store s' = Some fs'" by blast
  have "store_present fs' (f_key f)" if f: "f \<in> set (files (sv_db s'))" for f
  proof -
    have same: "object_at s' (f_key f) = object_at s (f_key f)" using assms(2) f by (simp add: kept_def)
    from assms(1,3) f obtain fs where "sv_store s = Some fs" "store_present fs (f_key f)"
      by (auto simp: service_ok_def objects_ok_def split: option.splits)
    with same fs' show ?thesis by (simp add: object_at_def store_present_iff)
  qed
  with assms(1,3) fs' show ?thesis by (simp add: service_ok_def objects_ok_def)
qed

lemma sweep_spares:
  assumes "swept refs stale fs fs'" "lstat fs p = Some (Regular b u)" "stale < u"
  shows "lstat fs' p = lstat fs p"
  using assms by (auto simp: swept_def removable_def dest: spec [of _ p])

lemma sweep_step_kept:
  assumes w: "known_or_young s ups (refs, stale)"
  shows "kept s (sweep_step io refs stale s)"
proof (cases "sv_store s")
  case None
  then show ?thesis by (intro kept_files) (simp_all add: sweep_step_def)
next
  case (Some fs)
  let ?fs' = "fst (Reconcile io refs stale fs)"
  have "store_object ?fs' (f_key f) = store_object fs (f_key f)" if f: "f \<in> set (files (sv_db s))" for f
  proof (cases "f_key f \<in> set refs")
    case True
    then show ?thesis by (rule swept_content [OF sweep_swept])
  next
    case False
    with w f Some obtain b t where o: "store_object fs (f_key f) = Some (b, t)" "stale < t"
      by (auto simp: known_or_young_def object_at_def)
    then obtain rel where r: "relative (f_key f) = Inr rel" "lstat fs rel = Some (Regular b t)"
      by (auto simp: store_object_def split: sum.splits option.splits node.splits)
    with sweep_spares [OF sweep_swept r(2) o(2)] show ?thesis by (simp add: store_object_def)
  qed
  with Some show ?thesis by (simp add: kept_def sweep_step_def object_at_def)
qed

section \<open>Every move keeps the invariant\<close>

lemma drop_nth_set: "set (drop_nth n xs) \<subseteq> set xs"
  unfolding drop_nth_def by (auto dest: in_set_takeD in_set_dropD)

lemma map_drop_nth: "map f (drop_nth n xs) = drop_nth n (map f xs)"
  by (simp add: drop_nth_def take_map drop_map)

lemma drop_nth_distinct: "distinct xs \<Longrightarrow> distinct (drop_nth n xs)"
  using set_take_disj_set_drop_if_distinct [of xs n "Suc n"] by (simp add: drop_nth_def)

lemma drop_nth_other:
  assumes "distinct (map f xs)" "n < length xs" "y \<in> set (drop_nth n xs)"
  shows "f y \<noteq> f (xs ! n)"
proof -
  have "map f xs = map f (take n xs) @ f (xs ! n) # map f (drop (Suc n) xs)"
    using id_take_nth_drop [OF assms(2)] by (metis list.simps(9) map_append)
  with assms(1) have "f (xs ! n) \<notin> f ` set (take n xs) \<union> f ` set (drop (Suc n) xs)" by auto
  moreover have "f y \<in> f ` set (take n xs) \<union> f ` set (drop (Suc n) xs)"
    using assms(3) by (auto simp: drop_nth_def)
  ultimately show ?thesis by metis
qed

lemma known_or_young_subset: "known_or_young s ups w \<Longrightarrow> set ups' \<subseteq> set ups \<Longrightarrow> known_or_young s ups' w"
  by (auto simp: known_or_young_def)

lemma dropped_ok:
  assumes ok: "concurrent_ok sha c"
  shows "concurrent_ok sha (c\<lparr>cn_uploads := drop_nth n (cn_uploads c)\<rparr>)"
proof (rule concurrent_okI, simp_all add: concurrent_okD [OF ok] map_drop_nth drop_nth_distinct)
  show "pending_ok sha (cn_service c) p" if "p \<in> set (drop_nth n (cn_uploads c))" for p
    using concurrent_okD(6) [OF ok subsetD [OF drop_nth_set that]] .
  show "known_or_young (cn_service c) (drop_nth n (cn_uploads c)) w" if "w \<in> set (cn_sweeps c)" for w
    using concurrent_okD(8) [OF ok that] drop_nth_set by (rule known_or_young_subset)
qed

lemma quiet_ok:
  assumes ok: "concurrent_ok sha c" and k: "kept (cn_service c) s'" "service_ok s'" "sv_store s' \<noteq> None"
    and sp: "\<And>p. p \<in> set (cn_uploads c) \<Longrightarrow> spares (st_temp (fst p)) (cn_service c) s'" and t: "cn_clock c \<le> now"
  shows "concurrent_ok sha (c\<lparr>cn_service := s', cn_clock := now\<rparr>)"
proof -
  have "pending_ok sha s' p" if "p \<in> set (cn_uploads c)" for p
  proof (rule pending_spared [OF _ sp [OF that]])
    show "pending_ok sha (cn_service c) p" using ok that by (simp add: concurrent_ok_def)
    then show "st_key (fst p) \<notin> keys_of f_key (files (sv_db s'))"
      using kept_keys [OF k(1)] by (auto simp: pending_ok_def)
  qed
  then show ?thesis
    using ok k t intact_kept [OF k(1)] known_or_young_kept [OF k(1)] by (fastforce simp: concurrent_ok_def)
qed

lemma spares_call:
  assumes "p = ''.stage-'' @ x"
  shows "spares p s (run_service_call q s)"
proof (cases q)
  case (CallDelete env i cand)
  with spares_Delete [OF assms] show ?thesis by simp
next
  case (CallAdminDelete env i)
  with spares_AdminDelete [OF assms] show ?thesis by simp
qed (simp_all add: spares_same texts_only)

lemma pending_stage:
  assumes "concurrent_ok sha c" "p \<in> set (cn_uploads c)"
  shows "\<exists>x. st_temp (fst p) = ''.stage-'' @ x"
  by (rule pending_temp [of sha "cn_service c"]) (use assms in \<open>simp add: concurrent_ok_def\<close>)

lemma called_ok:
  assumes ok: "concurrent_ok sha c" and q: "rand_ok (call_env q)" "cn_clock c \<le> ev_now (call_env q)"
  shows "concurrent_ok sha (c\<lparr>cn_service := run_service_call q (cn_service c), cn_clock := ev_now (call_env q)\<rparr>)"
proof (rule quiet_ok [OF ok _ _ _ _ q(2)])
  let ?s = "cn_service c"
  have s: "service_ok ?s" "sv_store ?s \<noteq> None" using ok by (simp_all add: concurrent_ok_def)
  show "kept ?s (run_service_call q ?s)"
    by (cases q) (simp_all add: kept_texts kept_Delete kept_AdminDelete s)
  show "service_ok (run_service_call q ?s)"
    using q(1) s(1) by (cases q) (simp_all add: service_ok_Create service_ok_CreateEncrypted service_ok_Update
      service_ok_Delete service_ok_AdminDelete)
  have "framed ?s (run_service_call q ?s)" by (cases q) (simp_all add: framing)
  with s(2) show "sv_store (run_service_call q ?s) \<noteq> None" by (simp add: framed_def)
  show "spares (st_temp (fst p)) ?s (run_service_call q ?s)" if "p \<in> set (cn_uploads c)" for p
    using spares_call pending_stage [OF ok that] by metis
qed

lemma purge_step_cases:
  assumes "sv_store s = Some fs"
  obtains "purge_step env now s = s"
  | d keys n where "purgeBatch env (sv_db s) now = Inr (d, keys, n)"
      "purge_step env now s = s\<lparr>sv_db := d, sv_store := Some (fst (delete_loop (store_delete (ev_io env 0)) keys fs))\<rparr>"
proof (cases "purgeBatch env (sv_db s) now")
  case (Inl e)
  with assms that(1) show ?thesis by (simp add: purge_step_def)
next
  case (Inr b)
  with assms that(2) [of "fst b" "fst (snd b)" "snd (snd b)"] show ?thesis by (simp add: purge_step_def case_prod_beta)
qed

lemma purged_ok:
  assumes ok: "concurrent_ok sha c" and t: "cn_clock c \<le> now"
  shows "concurrent_ok sha (c\<lparr>cn_service := purge_step env now (cn_service c), cn_clock := now\<rparr>)"
proof -
  let ?s = "cn_service c"
  from ok obtain fs where fs: "sv_store ?s = Some fs" and s: "service_ok ?s" by (auto simp: concurrent_ok_def)
  from fs show ?thesis
  proof (cases rule: purge_step_cases [of _ _ env now])
    case 1
    have "concurrent_ok sha (c\<lparr>cn_service := ?s, cn_clock := now\<rparr>)"
      by (rule quiet_ok [OF ok _ s _ _ t]) (simp_all add: fs spares_same)
    with 1 show ?thesis by simp
  next
    case (2 d keys n)
    note o = objects_kept_batch [OF 2(1) service_okD(1) [OF s], of fs "ev_io env 0"]
    note d = db_ok_purgeBatch [OF 2(1) service_okD(1) [OF s]]
    show ?thesis
    proof (rule quiet_ok [OF ok _ _ _ _ t])
      show "kept ?s (purge_step env now ?s)" using o kept_objects [OF fs] by (simp add: 2(2))
      have "objects_ok (sv_db ?s) (Some fs)" using service_okD(2) [OF s] fs by simp
      from objects_kept_ok [OF o this] d show "service_ok (purge_step env now ?s)" by (simp add: 2(2) service_ok_def)
      show "sv_store (purge_step env now ?s) \<noteq> None" by (simp add: 2(2))
      fix p assume "p \<in> set (cn_uploads c)"
      from pending_stage [OF ok this] obtain x where x: "st_temp (fst p) = ''.stage-'' @ x" ..
      show "spares (st_temp (fst p)) ?s (purge_step env now ?s)"
        unfolding x
        by (rule spares_store [OF fs, of _ "fst (delete_loop (store_delete (ev_io env 0)) keys fs)"])
          (simp add: 2(2), simp only: delete_loop_stage)
    qed
  qed
qed

lemma Stage_fresh:
  assumes "Stage io now sha rnd sufs source limit fs = (fs', Inr st)"
  shows "lstat fs (st_temp st) = None"
proof -
  obtain key fs1 temp where "open_stage io now key (take 8 sufs) fs = (fs1, Inr temp)" "st_temp st = temp"
    using assms by (auto simp: Stage_def Let_def split: prod.splits sum.splits if_splits)
  then show ?thesis by (auto dest: open_stage_name)
qed

lemma StageFile_spares: "spares p s (fst (StageFile env k sufs source s))"
proof (cases "sv_store s")
  case (Some fs)
  then show ?thesis
    using Stage_stage [of fs p "ev_io env 0" "ev_now env" "ev_sha env" k sufs source MaxFileBytes]
    by (auto simp: StageFile_def spares_def split: prod.splits)
qed (simp add: spares_def)

lemma StageFile_quiet:
  assumes ok: "concurrent_ok sha c" and t: "cn_clock c \<le> now" and s: "StageFile env k sufs source (cn_service c) = (s', r)"
  shows "concurrent_ok sha (c\<lparr>cn_service := s', cn_clock := now\<rparr>)"
proof (rule quiet_ok [OF ok _ _ _ _ t])
  let ?s = "cn_service c"
  have f: "s' = fst (StageFile env k sufs source ?s)" using s by simp
  show "kept ?s s'" unfolding f by (rule kept_StageFile)
  show "service_ok s'" unfolding f by (rule service_ok_StageFile) (use ok in \<open>simp add: concurrent_ok_def\<close>)
  have "framed ?s s'" unfolding f by (rule framed_StageFile)
  with ok show "sv_store s' \<noteq> None" by (simp add: framed_def concurrent_ok_def)
  show "spares (st_temp (fst p)) ?s s'" for p unfolding f by (rule StageFile_spares)
qed

lemma staged_step_ok:
  assumes ok: "concurrent_ok sha c" and env: "ev_sha env = sha" "cn_clock c \<le> ev_now env" and k: "length k = 16"
    and fresh: "hex_encode k \<notin> keys_of f_key (files (sv_db (cn_service c)))"
      "hex_encode k \<notin> set (map (st_key \<circ> fst) (cn_uploads c))"
    and s: "StageFile env (Some k) sufs source (cn_service c) = (s', Inr st)"
  shows "concurrent_ok sha (c\<lparr>cn_service := s', cn_uploads := cn_uploads c @ [(st, ev_now env)], cn_clock := ev_now env\<rparr>)"
proof -
  let ?s = "cn_service c" and ?c = "c\<lparr>cn_service := s', cn_clock := ev_now env\<rparr>"
  note q = StageFile_quiet [OF ok env(2) s]
  from s obtain fs fs' where fs: "sv_store ?s = Some fs" "s' = ?s\<lparr>sv_store := Some fs'\<rparr>"
    "Stage (ev_io env 0) (ev_now env) (ev_sha env) (Some k) sufs source MaxFileBytes fs = (fs', Inr st)"
    by (auto simp: StageFile_def split: option.splits prod.splits)
  note st = Stage_ok [OF fs(3) k]
  have p: "pending_ok sha s' (st, ev_now env)"
    using st fresh(1) env(1) by (auto simp: pending_ok_def fs(2))
  have "st_temp st \<noteq> st_temp (fst p)" if "p \<in> set (cn_uploads c)" for p
  proof -
    from ok that have "pending_ok sha ?s p" by (simp add: concurrent_ok_def)
    with fs(1) have "lstat fs (st_temp (fst p)) \<noteq> None" by (auto simp: pending_ok_def)
    with Stage_fresh [OF fs(3)] show ?thesis by auto
  qed
  then have d: "st_temp st \<notin> (st_temp \<circ> fst) ` set (cn_uploads c)" by auto
  have "stale < ev_now env" if "(refs, stale) \<in> set (cn_sweeps c)" for refs stale
  proof -
    from ok that have "stale + Grace \<le> cn_clock c" by (auto simp: concurrent_ok_def)
    with env(2) show ?thesis by (simp add: Grace_def minute_def second_def)
  qed
  then show ?thesis
    using q p d fresh(2) st(3) by (auto simp: concurrent_ok_def known_or_young_def)
qed

lemma other_upload:
  assumes "concurrent_ok sha c" "n < length (cn_uploads c)" "p \<in> set (drop_nth n (cn_uploads c))"
  shows "st_temp (fst p) \<noteq> st_temp (fst (cn_uploads c ! n))" "st_key (fst p) \<noteq> st_key (fst (cn_uploads c ! n))"
proof -
  have d: "distinct (map (st_temp \<circ> fst) (cn_uploads c))" "distinct (map (st_key \<circ> fst) (cn_uploads c))"
    using assms(1) by (simp_all add: concurrent_ok_def)
  show "st_temp (fst p) \<noteq> st_temp (fst (cn_uploads c ! n))" "st_key (fst p) \<noteq> st_key (fst (cn_uploads c ! n))"
    using drop_nth_other [OF d(1) assms(2,3)] drop_nth_other [OF d(2) assms(2,3)] by simp_all
qed

lemma created_ok:
  assumes ok: "concurrent_ok sha c" and env: "rand_ok env" "ev_sha env = sha" "cn_clock c \<le> ev_now env"
    and n: "n < length (cn_uploads c)" "cn_uploads c ! n = (st, u)"
    and c: "CreateFile env (cn_service c) filename (Some st) ex = (s', st', r)"
  shows "concurrent_ok sha (c\<lparr>cn_uploads := drop_nth n (cn_uploads c), cn_service := s', cn_clock := ev_now env\<rparr>)"
proof -
  let ?s = "cn_service c" and ?ups = "drop_nth n (cn_uploads c)"
  have mem: "(st, u) \<in> set (cn_uploads c)" using nth_mem [OF n(1)] n(2) by simp
  then have "pending_ok sha ?s (st, u)" using ok by (simp add: concurrent_ok_def)
  then obtain fs b where fs: "sv_store ?s = Some fs" "staged_ok sha MaxFileBytes st fs"
    "lstat fs (st_temp st) = Some (Regular b u)" "st_key st \<notin> keys_of f_key (files (sv_db ?s))"
    by (auto simp: pending_ok_def)
  from c fs(1) obtain st1 where cf: "create_file env ?s fs filename st ex = (s', st1, r)"
    by (auto simp: CreateFile_def split: prod.splits)
  have s: "service_ok ?s" "intact sha ?s" using ok by (simp_all add: concurrent_ok_def)
  have s': "service_ok s'" "intact sha s'" "sv_store s' \<noteq> None"
    using service_ok_create_file [OF s(1) fs(1) _ fs(4) env(1) cf] intact_create_file [OF _ fs(1) _ fs(4) cf]
      framed_CreateFile [of ?s env filename "Some st" ex] c fs(1,2) s(2) env(2) by (simp_all add: framed_def)
  have sp: "spares (st_temp (fst p)) ?s s'" if p: "p \<in> set ?ups" for p
  proof -
    obtain x where x: "st_temp (fst p) = ''.stage-'' @ x" using pending_stage [OF ok subsetD [OF drop_nth_set p]] ..
    show ?thesis by (rule create_file_spares [OF fs(1,2) x _ cf]) (use other_upload(1) [OF ok n(1) p] n(2) in simp)
  qed
  from create_file_objects [OF fs(1,2,4) cf] show ?thesis
  proof
    assume "kept ?s s'"
    from quiet_ok [OF dropped_ok [OF ok, of n], of s' "ev_now env"] this s' sp env(3) show ?thesis by simp
  next
    assume "file_added env filename st ?s s'"
    then obtain i t where a: "files (sv_db s') = files (sv_db ?s) @ [file_payload env i filename st]"
      "\<And>f. f \<in> set (files (sv_db ?s)) \<Longrightarrow> object_at s' (f_key f) = object_at ?s (f_key f)"
      "object_at s' (st_key st) = Some (b, u)" using fs by (auto simp: file_added_def)
    have pend: "pending_ok sha s' p" if p: "p \<in> set ?ups" for p
    proof (rule pending_spared [OF _ sp [OF p]])
      show pk: "pending_ok sha ?s p" using concurrent_okD(6) [OF ok subsetD [OF drop_nth_set p]] .
      show "st_key (fst p) \<notin> keys_of f_key (files (sv_db s'))"
        using pk other_upload(2) [OF ok n(1) p] n(2) by (auto simp: pending_ok_def a(1) file_payload_def keys_of_def)
    qed
    have "known_or_young s' ?ups w" if w: "w \<in> set (cn_sweeps c)" for w
    proof -
      have k: "known_or_young ?s (cn_uploads c) w" using ok w by (simp add: concurrent_ok_def)
      then have "snd w < u" using mem by (auto simp: known_or_young_def)
      with known_or_young_subset [OF k drop_nth_set, of n] a show ?thesis
        by (auto simp: known_or_young_def file_payload_def)
    qed
    moreover have "snd w + Grace \<le> ev_now env" if "w \<in> set (cn_sweeps c)" for w
      using concurrent_okD(7) [OF ok that] env(3) by simp
    ultimately show ?thesis
      using s' pend concurrent_okD(4,5) [OF dropped_ok [OF ok, of n]] by (intro concurrent_okI) simp_all
  qed
qed

lemma leftover_ok:
  assumes ok: "concurrent_ok sha c" and t: "st_temp st = [] \<or> (\<exists>x. st_temp st = ''.stage-'' @ x)"
    and other: "st_temp st \<notin> set (map (st_temp \<circ> fst) (cn_uploads c))"
    and fs: "sv_store (cn_service c) = Some fs"
  shows "concurrent_ok sha (c\<lparr>cn_service := (cn_service c)\<lparr>sv_store := Some (fst (snd (Abort io st fs)))\<rparr>\<rparr>)"
proof -
  let ?s = "cn_service c" and ?fs = "fst (snd (Abort io st fs))"
  let ?s' = "?s\<lparr>sv_store := Some ?fs\<rparr>"
  have k: "kept ?s ?s'" using Abort_content [OF t] by (simp add: kept_def object_at_def fs)
  have s: "service_ok ?s'" by (rule kept_service_ok [OF _ k]) (use ok in \<open>simp_all add: concurrent_ok_def\<close>)
  have "spares (st_temp (fst p)) ?s ?s'" if p: "p \<in> set (cn_uploads c)" for p
  proof -
    have "st_temp (fst p) \<noteq> st_temp st" using imageI [OF p, of "st_temp \<circ> fst"] other by (metis comp_apply list.set_map)
    then show ?thesis by (intro spares_store [OF fs, of _ ?fs]) (simp_all add: Abort_stage)
  qed
  with quiet_ok [OF ok, of ?s' "cn_clock c"] k s show ?thesis by simp
qed

lemma aborted_ok:
  assumes ok: "concurrent_ok sha c" and n: "n < length (cn_uploads c)" "cn_uploads c ! n = (st, u)"
    and fs: "sv_store (cn_service c) = Some fs"
  shows "concurrent_ok sha
    (c\<lparr>cn_uploads := drop_nth n (cn_uploads c), cn_service := (cn_service c)\<lparr>sv_store := Some (fst (snd (Abort io st fs)))\<rparr>\<rparr>)"
proof -
  let ?c = "c\<lparr>cn_uploads := drop_nth n (cn_uploads c)\<rparr>"
  have "(st, u) \<in> set (cn_uploads c)" using nth_mem [OF n(1)] n(2) by simp
  from pending_stage [OF ok this] have t: "st_temp st = [] \<or> (\<exists>x. st_temp st = ''.stage-'' @ x)" by simp
  have "st_temp st \<notin> set (map (st_temp \<circ> fst) (cn_uploads ?c))"
    using other_upload(1) [OF ok n(1)] n(2) by fastforce
  from leftover_ok [OF dropped_ok [OF ok, of n] t this, of fs io] fs show ?thesis by simp
qed

lemma references_ok:
  assumes ok: "concurrent_ok sha c" and t: "cn_clock c \<le> now"
    and young: "list_all (\<lambda>(st, u). now - u \<le> FileTransferDeadline) (cn_uploads c)"
  shows "concurrent_ok sha
    (c\<lparr>cn_sweeps := cn_sweeps c @ [(map f_key (files (sv_db (cn_service c))), now - Grace)], cn_clock := now\<rparr>)"
proof -
  have "now - Grace < u" if "(st, u) \<in> set (cn_uploads c)" for st u
    using young that by (auto simp: list_all_iff FileTransferDeadline_def Grace_def minute_def second_def)
  then have "known_or_young (cn_service c) (cn_uploads c) (map f_key (files (sv_db (cn_service c))), now - Grace)"
    by (auto simp: known_or_young_def)
  with ok t show ?thesis by (fastforce simp: concurrent_ok_def)
qed

lemma swept_ok:
  assumes ok: "concurrent_ok sha c" and m: "m < length (cn_sweeps c)" "cn_sweeps c ! m = (refs, stale)"
  shows "concurrent_ok sha (c\<lparr>cn_service := sweep_step io refs stale (cn_service c)\<rparr>)"
proof -
  let ?s = "cn_service c"
  have "(refs, stale) \<in> set (cn_sweeps c)" using nth_mem [OF m(1)] m(2) by simp
  then have w: "known_or_young ?s (cn_uploads c) (refs, stale)" using ok by (simp add: concurrent_ok_def)
  from ok obtain fs where fs: "sv_store ?s = Some fs" by (auto simp: concurrent_ok_def)
  note k = sweep_step_kept [OF w, of io]
  have s: "service_ok (sweep_step io refs stale ?s)"
    by (rule kept_service_ok [OF _ k]) (use ok fs in \<open>simp_all add: concurrent_ok_def sweep_step_def\<close>)
  have "spares (st_temp (fst p)) ?s (sweep_step io refs stale ?s)" if p: "p \<in> set (cn_uploads c)" for p
  proof -
    from ok p have "pending_ok sha ?s p" by (simp add: concurrent_ok_def)
    then obtain b where "lstat fs (st_temp (fst p)) = Some (Regular b (snd p))" using fs by (auto simp: pending_ok_def)
    moreover have "stale < snd p" using w p by (simp add: known_or_young_def)
    ultimately show ?thesis
      using sweep_spares [OF sweep_swept]
      by (intro spares_store [OF fs, of _ "fst (Reconcile io refs stale fs)"]) (simp_all add: sweep_step_def fs)
  qed
  with quiet_ok [OF ok k s, of "cn_clock c"] fs show ?thesis by (simp add: sweep_step_def)
qed

lemma interleaved_ok: "interleaved sha m c c' \<Longrightarrow> concurrent_ok sha c \<Longrightarrow> concurrent_ok sha c'"
proof (induction rule: interleaved.induct)
  case (ended m c)
  then show ?case using drop_nth_set [of m "cn_sweeps c"] by (auto simp: concurrent_ok_def known_or_young_def)
qed (auto intro: called_ok purged_ok staged_step_ok StageFile_quiet created_ok aborted_ok leftover_ok references_ok swept_ok)

lemma interleavings_ok: "interleavings sha ms c c' \<Longrightarrow> concurrent_ok sha c \<Longrightarrow> concurrent_ok sha c'"
  by (induction rule: interleavings.induct) (blast intro: interleaved_ok)+

section \<open>A whole run\<close>

text \<open>The run of \<open>RunOnce\<close>, which nothing interrupts, is one of the interleavings.\<close>

lemma interleavings_append:
  "interleavings sha ms c c1 \<Longrightarrow> interleavings sha ns c1 c2 \<Longrightarrow> interleavings sha (ms @ ns) c c2"
  by (induction rule: interleavings.induct) (auto intro: interleavings.intros)

lemma one_move: "interleaved sha m c c1 \<Longrightarrow> interleavings sha [m] c c1"
  by (blast intro: interleavings.intros)

lemma purge_rounds_moves:
  assumes "purge_rounds n k envs (cn_clock c) (sv_db (cn_service c)) fs res = (d', fs', res', e)"
    and "sv_store (cn_service c) = Some fs"
  shows "\<exists>ms. interleavings sha ms c (c\<lparr>cn_service := (cn_service c)\<lparr>sv_db := d', sv_store := Some fs'\<rparr>\<rparr>)"
  using assms
proof (induction n arbitrary: k c fs res)
  case 0
  then have "c\<lparr>cn_service := (cn_service c)\<lparr>sv_db := d', sv_store := Some fs'\<rparr>\<rparr> = c" by simp
  then show ?case using interleavings.no_moves by metis
next
  case (Suc n)
  let ?s = "cn_service c"
  have m: "interleaved sha (PurgedBatch (envs k) (cn_clock c)) c (c\<lparr>cn_service := purge_step (envs k) (cn_clock c) ?s\<rparr>)"
    using interleaved.purged [of c "cn_clock c" sha "envs k"] by simp
  show ?case
  proof (cases "purgeBatch (envs k) (sv_db ?s) (cn_clock c)")
    case (Inl x)
    then have "c\<lparr>cn_service := ?s\<lparr>sv_db := d', sv_store := Some fs'\<rparr>\<rparr> = c" using Suc.prems by simp
    then show ?thesis using interleavings.no_moves by metis
  next
    case (Inr y)
    obtain d1 keys count where y: "y = (d1, keys, count)" by (metis prod_cases3)
    obtain fs1 del failed where dl: "delete_loop (store_delete (ev_io (envs k) 0)) keys fs = (fs1, del, failed)"
      by (metis prod_cases3)
    let ?c1 = "c\<lparr>cn_service := ?s\<lparr>sv_db := d1, sv_store := Some fs1\<rparr>\<rparr>"
    have m1: "interleavings sha [PurgedBatch (envs k) (cn_clock c)] c ?c1"
      using one_move [OF m] Inr Suc.prems(2) dl by (simp add: purge_step_def y)
    show ?thesis
    proof (cases "count < BatchSize")
      case True
      then have "d' = d1" "fs' = fs1" using Suc.prems Inr dl by (simp_all add: y Let_def)
      with m1 show ?thesis by blast
    next
      case False
      then obtain res1 where "purge_rounds n (Suc k) envs (cn_clock ?c1) (sv_db (cn_service ?c1)) fs1 res1 = (d', fs', res', e)"
        using Suc.prems Inr dl by (simp add: y Let_def)
      from Suc.IH [OF this] obtain ms where
        "interleavings sha ms ?c1 (c\<lparr>cn_service := ?s\<lparr>sv_db := d', sv_store := Some fs'\<rparr>\<rparr>)" by auto
      with interleavings_append [OF m1] show ?thesis by blast
    qed
  qed
qed

lemma run_is_interleaving:
  assumes run: "RunOnce envs (cn_clock c) (sv_db (cn_service c)) fs = (d', fs', res, e)"
    and fs: "sv_store (cn_service c) = Some fs"
    and young: "list_all (\<lambda>(st, u). cn_clock c - u \<le> FileTransferDeadline) (cn_uploads c)"
  shows "\<exists>ms. interleavings sha ms c (c\<lparr>cn_service := (cn_service c)\<lparr>sv_db := d', sv_store := Some fs'\<rparr>\<rparr>)"
proof -
  let ?s = "cn_service c"
  obtain d1 fs1 res1 e1 where
    r: "purge_rounds (MaxPerRun div BatchSize) 0 envs (cn_clock c) (sv_db ?s) fs initial_result = (d1, fs1, res1, e1)"
    by (metis prod_cases4)
  let ?c1 = "c\<lparr>cn_service := ?s\<lparr>sv_db := d1, sv_store := Some fs1\<rparr>\<rparr>" and ?n = "length (cn_sweeps c)"
  let ?io = "ev_io (envs (MaxPerRun div BatchSize)) 0" and ?refs = "map f_key (files d1)"
  from purge_rounds_moves [OF r fs] obtain ms where ms: "interleavings sha ms c ?c1" by blast
  have "d' = d1 \<and> (fs' = fs1 \<or> fs' = fst (Reconcile ?io ?refs (cn_clock c - Grace) fs1))"
    using run r by (auto simp: RunOnce_def Let_def split: option.splits if_splits prod.splits)
  then consider "d' = d1" "fs' = fs1" | "d' = d1" "fs' = fst (Reconcile ?io ?refs (cn_clock c - Grace) fs1)" by blast
  then show ?thesis
  proof cases
    case 2
    let ?w = "(?refs, cn_clock c - Grace)"
    let ?c2 = "?c1\<lparr>cn_sweeps := cn_sweeps c @ [?w]\<rparr>" and ?s3 = "?s\<lparr>sv_db := d1, sv_store := Some fs'\<rparr>"
    let ?c3 = "?c2\<lparr>cn_service := ?s3\<rparr>"
    have a: "interleaved sha (ReadReferences (cn_clock c)) ?c1 ?c2"
      using interleaved.references [of ?c1 "cn_clock c" sha] young by simp
    have b: "interleaved sha (SweptPortion ?io ?n) ?c2 ?c3"
      using interleaved.swept [of ?n ?c2 ?refs "cn_clock c - Grace" sha ?io] 2 by (simp add: sweep_step_def)
    have "interleaved sha (EndedSweep ?n) ?c3 (c\<lparr>cn_service := ?s3\<rparr>)"
      using interleaved.ended [of sha ?n ?c3] by (simp add: drop_nth_def)
    then have "interleavings sha [ReadReferences (cn_clock c), SweptPortion ?io ?n, EndedSweep ?n] ?c1 (c\<lparr>cn_service := ?s3\<rparr>)"
      using a b by (blast intro: interleavings.intros)
    with interleavings_append [OF ms] 2 show ?thesis by blast
  qed (use ms in blast)
qed

end
