(* ===== verification/InterleaveProps.thy ===== *)
theory InterleaveProps
  imports Interleave Samples
begin

text \<open>
  The property of what happens at the same time: neither an outdated sweep nor anything else loses the
  object of a Share or of an upload in flight.
\<close>

text \<open>C9: Maintenance and requests may run side by side: whatever calls of the service, purge batches,
  uploads and sweeps are interleaved, however outdated the references a sweep works with are when it
  gets to remove files, and whatever fails, every File Share keeps an object with the size and the
  digest it records, and the staging file of every upload in flight stays complete until its Share is
  created or it is aborted, as long as a transfer keeps its deadline.\<close>

theorem nothing_in_flight_is_lost:
  assumes "service_ok s" "intact sha s" "sv_store s \<noteq> None"
    and "interleavings sha ms \<lparr>cn_service = s, cn_uploads = [], cn_sweeps = [], cn_clock = now\<rparr> c"
  shows "service_ok (cn_service c) \<and> intact sha (cn_service c)
    \<and> list_all (\<lambda>(st, u). \<exists>fs. sv_store (cn_service c) = Some fs \<and> staged_ok sha MaxFileBytes st fs) (cn_uploads c)"
proof -
  have "concurrent_ok sha \<lparr>cn_service = s, cn_uploads = [], cn_sweeps = [], cn_clock = now\<rparr>"
    using assms(1-3) by (simp add: concurrent_ok_def)
  from interleavings_ok [OF assms(4) this] have ok: "concurrent_ok sha c" .
  show ?thesis
    using concurrent_okD(1,2,6) [OF ok] by (fastforce simp: list_all_iff pending_ok_def)
qed

text \<open>An upload whose sweep read its references before the Share was created, and removes files after.\<close>

definition racing_moves :: "move list" where
  "racing_moves =
     [StagedUpload sample_env (Some (replicate 16 (CHR ''k''))) [Some (replicate 6 (CHR ''s''))] sample_source,
      ReadReferences (ev_now sample_env), CreatedFile sample_env 0 ''a.txt'' None, SweptPortion (\<lambda>op. False) 0]"

definition after_race :: service where
  "after_race = sweep_step (\<lambda>op. False) [] (ev_now sample_env - Grace) file_service"

lemma race_run:
  "interleavings sample_sha racing_moves
     \<lparr>cn_service = empty_service, cn_uploads = [], cn_sweeps = [], cn_clock = 0\<rparr>
     \<lparr>cn_service = after_race, cn_uploads = [], cn_sweeps = [([], ev_now sample_env - Grace)], cn_clock = ev_now sample_env\<rparr>"
proof -
  let ?now = "ev_now sample_env" and ?s1 = "empty_service\<lparr>sv_store := Some staged_fs\<rparr>"
  have env: "ev_sha sample_env = sample_sha" "0 \<le> ?now" by (simp_all add: sample_env_def)
  obtain v st where f: "CreateFile sample_env ?s1 ''a.txt'' (Some file_stage) None = (file_service, st, Inr (v, text_token))"
    using file_created by blast
  have no: "files (sv_db ?s1) = []" by (simp add: empty_service_def empty_db_def)
  let ?c1 = "\<lparr>cn_service = ?s1, cn_uploads = [(file_stage, ?now)], cn_sweeps = [], cn_clock = ?now\<rparr>"
  let ?c2 = "\<lparr>cn_service = ?s1, cn_uploads = [(file_stage, ?now)], cn_sweeps = [([], ?now - Grace)], cn_clock = ?now\<rparr>"
  let ?c3 = "\<lparr>cn_service = file_service, cn_uploads = [], cn_sweeps = [([], ?now - Grace)], cn_clock = ?now\<rparr>"
  have "interleaved sample_sha (StagedUpload sample_env (Some (replicate 16 (CHR ''k''))) [Some (replicate 6 (CHR ''s''))] sample_source)
      \<lparr>cn_service = empty_service, cn_uploads = [], cn_sweeps = [], cn_clock = 0\<rparr> ?c1"
  proof -
    let ?c0 = "\<lparr>cn_service = empty_service, cn_uploads = [], cn_sweeps = [], cn_clock = 0\<rparr>"
    have "hex_encode (replicate 16 (CHR ''k'')) \<notin> keys_of f_key (files (sv_db (cn_service ?c0)))"
      by (simp add: empty_service_def empty_db_def)
    from interleaved.staged [of sample_env sample_sha ?c0 "replicate 16 (CHR ''k'')" "[Some (replicate 6 (CHR ''s''))]"
        sample_source ?s1 file_stage, OF env(1) _ _ this] show ?thesis
      using env(2) file_staged by (simp only: concurrent.simps list.simps append_Nil length_replicate simp_thms empty_iff set_simps)
  qed
  moreover have "interleaved sample_sha (ReadReferences ?now) ?c1 ?c2"
    using interleaved.references [of ?c1 ?now sample_sha] no by (simp add: FileTransferDeadline_def minute_def second_def)
  moreover have "interleaved sample_sha (CreatedFile sample_env 0 ''a.txt'' None) ?c2 ?c3"
    using interleaved.created [of sample_env sample_sha ?c2 0 file_stage ?now "''a.txt''" None file_service st] env f
    by (simp add: drop_nth_def)
  moreover have "interleaved sample_sha (SweptPortion (\<lambda>op. False) 0) ?c3
      \<lparr>cn_service = after_race, cn_uploads = [], cn_sweeps = [([], ?now - Grace)], cn_clock = ?now\<rparr>"
    using interleaved.swept [of 0 ?c3 "[]" "?now - Grace" sample_sha "\<lambda>op. False"] by (simp add: after_race_def)
  ultimately show ?thesis unfolding racing_moves_def by (blast intro: interleavings.intros)
qed

lemma nothing_in_flight_is_lost_witness:
  "intact sample_sha after_race \<and> map f_size (files (sv_db after_race)) = [4]"
proof -
  have "files (sv_db empty_service) = []" "sv_store empty_service \<noteq> None" by (simp_all add: empty_service_def empty_db_def)
  then have "intact sample_sha empty_service" "sv_store empty_service \<noteq> None" by (simp_all add: intact_def)
  from nothing_in_flight_is_lost [OF service_ok_empty_service this race_run] have "intact sample_sha after_race" by simp
  moreover have "map f_size (files (sv_db file_service)) = [4]" by code_simp
  ultimately show ?thesis by (simp add: after_race_def sweep_step_def)
qed

end
