(* ===== verification/Spec2Isabelle.thy ===== *)
theory Spec2Isabelle
  imports ShareProps StoreProps AbuseProps AdminProps HttpReads HttpGuards HttpRoundtrip FileApi AdminApiProps SystemProps
    FileProps Formats Startup InterleaveProps
begin

text \<open>
  uPaste: a verification library for the paste service.

  uPaste stores Shares: standard texts, texts encrypted by the client, and files.  Whoever creates one
  gets its id and an owner token, and only the digest of the token is kept.  A Share is read by id until
  it expires, changed and deleted with its token, listed and deleted by one Superadmin, and removed for
  good by maintenance.  The program is one process with two HTTP listeners, one for the application and
  one for downloads, over a SQLite database and a directory of objects.

  Parts of the program, bottom up, with their theories.

  Prelude, Encoding, Json, JsonText, Mime, MimeFormat, NetAddr, Url, Rfc3339, Duration, Http: what the
  source uses of Go's standard library, written out where a behaviour depends on it (strings, strconv,
  base64, hex, UTF-8, encoding/json v1 and v2, mime, net/netip, net/url, time, the reading of request
  bodies).  RateLimit states what golang.org/x/time/rate documents and, as a locale, the contract of a
  component that asks one limiter: what it admits in any window of any history is bounded, also when it
  drops an idle limiter and makes a new one.
  Domain (internal/domain/domain.go) and Capability (internal/capability, internal/admin/token.go): the
  vocabulary of Shares, ids and tokens.  Formats: their readers accept the canonical spellings only.
  ObjectStore and Reconcile (internal/objectstore/local.go): staging, commit, open, delete, the sweep
  over abandoned objects, over an explicit directory.
  Database (internal/database/migrations): rows, CHECK and UNIQUE constraints, triggers, cascades and
  the statements of the services; Startup (internal/database, OpenLocal): the database file, the data
  source name, and the migrations with their failure points.
  ShareService (internal/share/service.go): every operation on the tables and the objects, each an
  update of the record service.  ShareSpec is its contract: a map from ids to Shares and verifiers;
  ShareLaws, ShareFiles and ShareRetention prove the refinement, the consistency of tables and objects
  and the retention bound; ShareProps holds the properties.
  ShareAdmin (internal/share/admin.go) and Maintenance (internal/maintenance): listing by cursor,
  summary, removal, the purge of expired Shares; their properties are in StoreProps.
  Abuse, AbuseBounds, AbuseProps (internal/abuse/control.go): client identity behind trusted proxies,
  limiters, transfer slots.  AbuseProps has a token bucket that satisfies the contract of the library.
  AdminSession, AdminTrace, AdminProps (internal/admin/manager.go): logins, sessions, CSRF tokens.
  Challenge (internal/challenge): both providers behind one interface.
  HttpApi and HttpHandlers (internal/httpapi/httpapi.go): dispatch, limits, challenge, bodies, every
  handler and response.  HttpLaws, HttpShares and HttpSteps show what a request can do; HttpProps,
  HttpReads, HttpGuards and HttpRoundtrip hold the properties.
  FileApi and FileProps (internal/fileapi/fileapi.go): downloads.  Integrity: the bytes behind a file.
  Interleave and InterleaveProps: service calls, purge batches, uploads in flight and sweeps side by
  side, as a step relation over configurations; a whole run of RunOnce is one of its sequences.
  AdminApi (internal/adminapi/adminapi.go), with AdminApiLaws, AdminVeil and AdminApiProps.
  WebApp (internal/webapp): the embedded frontend.
  Config and ConfigProps (internal/config/config.go): the environment, the command line and all checks.
  System (cmd/upaste/main.go): the parts wired from a configuration, with the frontend as the pointer it
  is (nil in a development build, where its paths get no answer); ShareFrame, SystemLaws and
  SystemProps: the whole program as a step relation over requests, maintenance runs and restarts.
  Samples and HttpSamples: the concrete inputs of the witnesses.

  How state and operations correspond.  A Go struct is a record with its fields in order (Share, Service,
  Control, Manager, Config); a method is a function of the old state that returns the new state and its
  result, errors being values of the datatype err of Prelude (errors.Is looks through Wrapped).  A
  transaction works on a copy of the tables that replaces them at the commit, so every early return of
  the source is a branch that keeps the old tables.  Integers whose width matters keep it (addresses are
  32- and 128-bit words, the accumulator of a duration wraps and overflows as the uint64 it is); times
  are integers in nanoseconds since the epoch, stored in milliseconds.

  What is a parameter.  Everything that is not in the repository: the clock, the random bytes, the digest
  (only where a statement says so is anything assumed of it), failures of SQLite (ev_db, one per
  statement) and of the operating system (ev_io, one per call), http.DetectContentType, the limiter
  library, the HTTP client of the challenge, the parser of host names, http.ServeContent, the system's
  types of file extensions, and the answer of http.ServeMux to a path without pattern.  An http_env holds
  the environments of the successive calls of one request: he_env 0 for the limiter, 1 for the Share
  service or the staging of an upload, 2 and 3 for the creation and the abort of an upload.  hr_early
  says whether a decoder that reads as it goes rejects an overlong body before its limit is reached.

  What the lemmas show.  Each component has an invariant (db_ok, objects_ok, control_ok, manager_ok,
  system_ok, intact) that every operation keeps whatever fails.  The Share service refines its abstract
  store; one request refines a step of it; sequences of requests, and of requests, maintenance runs and
  restarts, are handled by rule induction.  The interfaces between components are locales: the codecs of
  Encoding, bearer capabilities, the object store as the service and the sweep see it, limiters, each
  interpreted on the definitions of its provider.

  Bounds and fuel.  Recursion is structural or over finite data, with these bounds: a purge is a loop of at
  most MaxPerRun / BatchSize = 8 rounds, as in the source; the pages of a listing are followed with as
  many steps as a claim grants, for which paging is shown to end; the continuations of a media
  parameter are read with as many steps as there are parameters, and each consumes one.

  Not modelled: sockets, TLS, signals, the shutdown and the server's time-outs (the run function after
  the listeners open), logging, the ticker that starts maintenance runs (a run may happen at any time),
  interleavings inside one call of a service (SQLite serialises the transactions, mutexes the in-memory
  state; in Interleave the staging of an upload and its creation, the purge batches and the portions of
  a sweep are separate steps between which anything may happen, but the objects of a deleted Share go
  together with its rows), SQLite itself and the text of the migrations beyond their constraints, the
  test files, and the frontend's TypeScript, which this program only serves.
\<close>

end
